theory Spec2Isabelle
  imports Main
begin

section \<open>JavaScript values\<close>

text \<open>
  The program keeps its accounts as the objects \<^verbatim>\<open>JSON.parse\<close> returns and reads the
  remote API's answers the same way, so one type of values serves both. A property read
  that finds nothing gives \<open>JUndefined\<close>. Numbers are the integers the program meets
  (counters and millisecond timestamps).
\<close>

datatype jsval =
    JUndefined
  | JNull
  | JBool bool
  | JNum int
  | JStr string
  | JArr "jsval list"
  | JObj "(string \<times> jsval) list"

text \<open>An object is its list of own properties in insertion order; the first entry of a key counts.\<close>

type_synonym jsobj = "(string \<times> jsval) list"

text \<open>ToBoolean, as \<^verbatim>\<open>if (x)\<close>, \<^verbatim>\<open>!x\<close>, \<^verbatim>\<open>x && y\<close> and \<^verbatim>\<open>x ? a : b\<close> apply it.\<close>

fun truthy :: "jsval \<Rightarrow> bool" where
  "truthy JUndefined = False"
| "truthy JNull = False"
| "truthy (JBool b) = b"
| "truthy (JNum n) = (n \<noteq> 0)"
| "truthy (JStr s) = (s \<noteq> [])"
| "truthy (JArr xs) = True"
| "truthy (JObj kvs) = True"

text \<open>\<^verbatim>\<open>obj.k\<close> on an object.\<close>

definition getp :: "jsobj \<Rightarrow> string \<Rightarrow> jsval" where
  "getp obj k = (case map_of obj k of None \<Rightarrow> JUndefined | Some v \<Rightarrow> v)"

text \<open>\<^verbatim>\<open>obj[k] = v\<close>: an existing property keeps its place, a new one goes last.\<close>

fun setp :: "string \<Rightarrow> jsval \<Rightarrow> jsobj \<Rightarrow> jsobj" where
  "setp k v [] = [(k, v)]"
| "setp k v ((k', v') # rest) =
     (if k' = k then (k, v) # rest else (k', v') # setp k v rest)"

text \<open>\<^verbatim>\<open>Object.assign(target, source)\<close>: every own property of the source, in order.\<close>

definition Object_assign :: "jsobj \<Rightarrow> jsobj \<Rightarrow> jsobj" where
  "Object_assign target source = foldl (\<lambda>t (k, v). setp k v t) target source"

text \<open>
  \<^verbatim>\<open>a === b\<close>. Primitives compare by value. Arrays and objects compare by identity, and
  the two sides here never are the same object (one comes from a freshly parsed list), so
  they are unequal.
\<close>

fun strict_eq :: "jsval \<Rightarrow> jsval \<Rightarrow> bool" where
  "strict_eq (JArr xs) b = False"
| "strict_eq (JObj kvs) b = False"
| "strict_eq a b = (a = b)"

text \<open>\<^verbatim>\<open>Array.isArray\<close>.\<close>

fun isArray :: "jsval \<Rightarrow> bool" where
  "isArray (JArr xs) = True"
| "isArray v = False"

text \<open>\<^verbatim>\<open>haystack.includes(needle)\<close> on strings.\<close>

fun str_includes :: "string \<Rightarrow> string \<Rightarrow> bool" where
  "str_includes [] needle = (needle = [])"
| "str_includes (c # cs) needle = (take (length needle) (c # cs) = needle \<or> str_includes cs needle)"

section \<open>Account store\<close>

text \<open>
  \<^verbatim>\<open>accounts.json\<close> holds what \<^verbatim>\<open>JSON.stringify\<close> keeps of the list: a property whose
  value is \<^verbatim>\<open>undefined\<close> is not written. (The fields of an account are primitives, so
  nothing is lost below the top level.)
\<close>

definition stringify :: "jsobj \<Rightarrow> jsobj" where
  "stringify obj = filter (\<lambda>(k, v). getp obj k \<noteq> JUndefined) obj"

text \<open>
  \<^verbatim>\<open>saveAccounts(accounts)\<close>: \<^verbatim>\<open>writeFileSync\<close> replaces the file; the result is the file's
  new content.
\<close>

definition saveAccounts :: "jsobj list \<Rightarrow> jsobj list" where
  "saveAccounts accounts = map stringify accounts"

text \<open>
  \<^verbatim>\<open>loadAccounts()\<close> on the file (\<open>None\<close>: there is no file): the list read, and the file
  afterwards.
\<close>

definition loadAccounts :: "jsobj list option \<Rightarrow> jsobj list \<times> jsobj list option" where
  "loadAccounts file =
     (case file of
        None \<Rightarrow> ([], Some [])
      | Some content \<Rightarrow> (content, Some content))"

text \<open>\<^verbatim>\<open>getAccount(accounts, login)\<close>: \<^verbatim>\<open>accounts.find((acc) => acc.login === login)\<close>.\<close>

definition getAccount :: "jsobj list \<Rightarrow> jsval \<Rightarrow> jsobj option" where
  "getAccount accounts login = find (\<lambda>acc. strict_eq (getp acc ''login'') login) accounts"

text \<open>
  The object \<^verbatim>\<open>find\<close> returned is changed in place, so the list afterwards has the merged
  object where the first match stood.
\<close>

fun assign_found :: "jsval \<Rightarrow> jsobj \<Rightarrow> jsobj list \<Rightarrow> jsobj list" where
  "assign_found login updates [] = []"
| "assign_found login updates (acc # rest) =
     (if strict_eq (getp acc ''login'') login
      then Object_assign acc updates # rest
      else acc # assign_found login updates rest)"

text \<open>
  \<^verbatim>\<open>updateAccount(accounts, login, updates)\<close>: the list afterwards and the content just
  written to the file; \<^verbatim>\<open>{ login, ...updates }\<close> is the new object otherwise.
\<close>

definition updateAccount :: "jsobj list \<Rightarrow> jsval \<Rightarrow> jsobj \<Rightarrow> jsobj list \<times> jsobj list" where
  "updateAccount accounts login updates =
     (let accounts' =
        (case getAccount accounts login of
           Some account \<Rightarrow> assign_found login updates accounts
         | None \<Rightarrow> accounts @ [Object_assign [(''login'', login)] updates])
      in (accounts', saveAccounts accounts'))"

section \<open>The world outside the program\<close>

text \<open>
  What the program throws and catches: the TypeError of the language itself (a property of
  \<^verbatim>\<open>null\<close> or \<^verbatim>\<open>undefined\<close>, a value that is not iterable or not a function) and the failure
  of a collaborator, with its message.
\<close>

datatype exn = TypeError | Failure string

text \<open>
  The calls a dispatcher run makes on the remote task API, on the comment poster and on the
  timer, in the order it makes them. A post is recorded with the task it is for (the call passes
  the task's \<^verbatim>\<open>targetSteamProfileId\<close> and \<^verbatim>\<open>requiredCommentText\<close>) and with what the callback got:
  \<open>None\<close> for no error, \<open>Some m\<close> for an error of message \<open>m\<close>.
\<close>

datatype action =
    GetSteamProfiles
  | AddSteamProfile string
  | GetTasks jsval
  | PostUserComment jsval "string option"
  | CompleteTask jsval jsval jsval
  | Sleep nat

text \<open>
  Everything the program does not decide: the clock, the built-in conversions, and the answers
  of the collaborators. The \<open>n\<close>-th clock read, profile listing, post and completion report
  get the \<open>n\<close>-th scripted answer (counting from 0 within one run).
\<close>

record env =
  date_now :: "nat \<Rightarrow> int"
  date_getTime :: "jsval \<Rightarrow> int option"
  date_toISOString :: "int \<Rightarrow> string"
  toPropertyKey :: "jsval \<Rightarrow> string"
  steamprofiles_response :: "nat \<Rightarrow> exn + jsval"
  addSteamProfile_response :: "string \<Rightarrow> exn option"
  getTasks_response :: "jsval \<Rightarrow> exn + jsval"
  postUserComment_err :: "nat \<Rightarrow> string option"
  completeTask_response :: "nat \<Rightarrow> exn option"

text \<open>
  \<open>date_getTime v\<close> is \<^verbatim>\<open>new Date(v).getTime()\<close>, \<open>None\<close> for \<^verbatim>\<open>NaN\<close>;
  \<open>date_toISOString t\<close> is \<^verbatim>\<open>new Date(t).toISOString()\<close>; \<open>toPropertyKey v\<close> is the key
  \<^verbatim>\<open>obj[v]\<close> uses. A response is the parsed body, or the rejection of the call.
\<close>

text \<open>
  The state of one dispatcher run: the list \<^verbatim>\<open>accounts\<close> the run was given (\<open>accs\<close>), the content of
  \<^verbatim>\<open>accounts.json\<close> (\<open>disk\<close>), the calls made, the number of clock reads, and the loop's
  count of successes.
\<close>

record dstate =
  accs :: "jsobj list"
  disk :: "jsobj list option"
  trace :: "action list"
  ticks :: nat
  successfulComments :: nat

definition emit :: "action \<Rightarrow> dstate \<Rightarrow> dstate" where
  "emit a s = s\<lparr>trace := trace s @ [a]\<rparr>"

text \<open>\<^verbatim>\<open>await sleep(millis)\<close>.\<close>

definition sleep :: "nat \<Rightarrow> dstate \<Rightarrow> dstate" where
  "sleep millis s = emit (Sleep millis) s"

text \<open>\<^verbatim>\<open>Date.now()\<close> and \<^verbatim>\<open>new Date()\<close>: the reading, and the state after it.\<close>

definition read_clock :: "env \<Rightarrow> dstate \<Rightarrow> int \<times> dstate" where
  "read_clock e s = (date_now e (ticks s), s\<lparr>ticks := Suc (ticks s)\<rparr>)"

text \<open>\<^verbatim>\<open>updateAccount(accounts, login, updates)\<close> on the run's list and file.\<close>

definition persist :: "jsval \<Rightarrow> jsobj \<Rightarrow> dstate \<Rightarrow> dstate" where
  "persist login updates s =
     (let (accounts', written) = updateAccount (accs s) login updates
      in s\<lparr>accs := accounts', disk := Some written\<rparr>)"

fun is_post :: "action \<Rightarrow> bool" where
  "is_post (PostUserComment task err) = True"
| "is_post a = False"

fun is_complete :: "action \<Rightarrow> bool" where
  "is_complete (CompleteTask taskId commentId profileId) = True"
| "is_complete a = False"

definition n_fetches :: "action list \<Rightarrow> nat" where
  "n_fetches tr = length (filter (\<lambda>a. a = GetSteamProfiles) tr)"

definition n_posts :: "action list \<Rightarrow> nat" where
  "n_posts tr = length (filter is_post tr)"

definition n_completes :: "action list \<Rightarrow> nat" where
  "n_completes tr = length (filter is_complete tr)"

subsection \<open>Reading values of unknown shape\<close>

fun nullish :: "jsval \<Rightarrow> bool" where
  "nullish JUndefined = True"
| "nullish JNull = True"
| "nullish v = False"

text \<open>
  \<^verbatim>\<open>v.k\<close> for a value that is neither \<^verbatim>\<open>null\<close> nor \<^verbatim>\<open>undefined\<close>, and a name \<open>k\<close> that is
  no built-in property of strings, numbers or arrays (the names the program reads are
  \<^verbatim>\<open>data\<close>, \<^verbatim>\<open>profiles\<close>, \<^verbatim>\<open>steamProfiles\<close>, \<^verbatim>\<open>steamId\<close>, \<^verbatim>\<open>id\<close> and the four fields of a task).
\<close>

fun propv :: "jsval \<Rightarrow> string \<Rightarrow> jsval" where
  "propv (JObj kvs) k = getp kvs k"
| "propv v k = JUndefined"

text \<open>\<^verbatim>\<open>typeof v === 'object'\<close>.\<close>

fun typeof_object :: "jsval \<Rightarrow> bool" where
  "typeof_object JNull = True"
| "typeof_object (JArr xs) = True"
| "typeof_object (JObj kvs) = True"
| "typeof_object v = False"

fun elements :: "jsval \<Rightarrow> jsval list" where
  "elements (JArr xs) = xs"
| "elements v = []"

text \<open>\<^verbatim>\<open>for (const x of v)\<close>: arrays and strings are iterable, nothing else here is.\<close>

fun iterate :: "jsval \<Rightarrow> exn + jsval list" where
  "iterate (JArr xs) = Inr xs"
| "iterate (JStr cs) = Inr (map (\<lambda>c. JStr [c]) cs)"
| "iterate v = Inl TypeError"

section \<open>Remote API client\<close>

text \<open>
  \<^verbatim>\<open>api.getSteamProfiles()\<close>: the body's \<^verbatim>\<open>data\<close> when that is an array, the body itself
  otherwise.
\<close>

definition unwrap_data :: "jsval \<Rightarrow> jsval" where
  "unwrap_data json =
     (if truthy json \<and> truthy (propv json ''data'') \<and> isArray (propv json ''data'')
      then propv json ''data'' else json)"

definition getSteamProfiles :: "env \<Rightarrow> dstate \<Rightarrow> (exn + jsval) \<times> dstate" where
  "getSteamProfiles e s =
     (case steamprofiles_response e (n_fetches (trace s)) of
        Inl err \<Rightarrow> (Inl err, emit GetSteamProfiles s)
      | Inr json \<Rightarrow> (Inr (unwrap_data json), emit GetSteamProfiles s))"

definition addSteamProfile :: "env \<Rightarrow> string \<Rightarrow> dstate \<Rightarrow> exn option \<times> dstate" where
  "addSteamProfile e steamId s = (addSteamProfile_response e steamId, emit (AddSteamProfile steamId) s)"

definition getTasks :: "env \<Rightarrow> jsval \<Rightarrow> dstate \<Rightarrow> (exn + jsval) \<times> dstate" where
  "getTasks e r4rSteamId s = (getTasks_response e r4rSteamId, emit (GetTasks r4rSteamId) s)"

definition completeTask :: "env \<Rightarrow> jsval \<Rightarrow> jsval \<Rightarrow> jsval \<Rightarrow> dstate \<Rightarrow> exn option \<times> dstate" where
  "completeTask e taskId commentId authorSteamProfileId s =
     (completeTask_response e (n_completes (trace s)),
      emit (CompleteTask taskId commentId authorSteamProfileId) s)"

section \<open>Comment dispatcher\<close>

text \<open>
  The repository holds two versions of the dispatcher \<^verbatim>\<open>autoComment\<close>: the one of
  \<^verbatim>\<open>src/index.js\<close>, modelled under the source's names, and the one of the second
  \<^verbatim>\<open>index.js\<close> (the file \<^verbatim>\<open>unnamed/part_000\<close>), modelled under names ending in
  \<open>_unnamed\<close>. Both call the client above (\<^verbatim>\<open>import api from './api.js'\<close>). All
  other functions are the same in the two files.
\<close>

definition settings_message :: string where
  "settings_message = ''The settings on this account do not allow you to add comments''"

definition too_frequent_message :: string where
  "too_frequent_message = ''You've been posting too frequently''"

text \<open>How a block of statements ends: it runs through, or leaves by a statement of the language.\<close>

datatype signal = Normal | Break | Return | Throw exn

text \<open>
  The cool-down test that \<^verbatim>\<open>autoComment\<close> and \<^verbatim>\<open>startWork\<close> both make once
  \<^verbatim>\<open>account.lastComment\<close> is truthy: \<^verbatim>\<open>currentTime - lastCommentTime < twentyFourHours\<close>,
  false when the date does not parse (\<^verbatim>\<open>NaN\<close>).
\<close>

definition not_ready :: "env \<Rightarrow> jsobj \<Rightarrow> int \<Rightarrow> bool" where
  "not_ready e account currentTime =
     (case date_getTime e (getp account ''lastComment'') of
        None \<Rightarrow> False
      | Some lastCommentTime \<Rightarrow> currentTime - lastCommentTime < 24 * 60 * 60 * 1000)"

definition within_cooldown :: "env \<Rightarrow> jsobj \<Rightarrow> dstate \<Rightarrow> bool \<times> dstate" where
  "within_cooldown e account s =
     (if truthy (getp account ''lastComment'')
      then (let (currentTime, s') = read_clock e s in (not_ready e account currentTime, s'))
      else (False, s))"

text \<open>
  \<^verbatim>\<open>updateAccount(accounts, account.login, { commentCounter: 0, lastComment: new Date().toISOString() })\<close>
  and \<^verbatim>\<open>updateAccount(accounts, account.login, { lastComment: new Date().toISOString() })\<close>.
\<close>

definition stamp_rate_limit :: "env \<Rightarrow> jsval \<Rightarrow> dstate \<Rightarrow> dstate" where
  "stamp_rate_limit e login s =
     (let (now, s') = read_clock e s
      in persist login
           [(''commentCounter'', JNum 0), (''lastComment'', JStr (date_toISOString e now))] s')"

definition stamp_lastComment :: "env \<Rightarrow> jsval \<Rightarrow> dstate \<Rightarrow> dstate" where
  "stamp_lastComment e login s =
     (let (now, s') = read_clock e s
      in persist login [(''lastComment'', JStr (date_toISOString e now))] s')"

text \<open>
  The body of the two \<^verbatim>\<open>forEach\<close> calls, over the elements of an array: the identity is
  pushed on \<^verbatim>\<open>repSteamProfiles\<close> and maps to the remote id in \<^verbatim>\<open>repSteamProfilesObj\<close>.
\<close>

fun forEach_profile :: "env \<Rightarrow> jsval list \<Rightarrow> jsval list \<times> jsobj \<Rightarrow> exn + (jsval list \<times> jsobj)" where
  "forEach_profile e [] tables = Inr tables"
| "forEach_profile e (steamProfile # rest) (repSteamProfiles, repSteamProfilesObj) =
     (if nullish steamProfile then Inl TypeError
      else forEach_profile e rest
             (repSteamProfiles @ [propv steamProfile ''steamId''],
              setp (toPropertyKey e (propv steamProfile ''steamId'')) (propv steamProfile ''id'')
                repSteamProfilesObj))"

subsection \<open>The dispatcher of \<^verbatim>\<open>src/index.js\<close>\<close>

text \<open>\<^verbatim>\<open>steamProfiles.forEach(...)\<close> on whatever the client returned.\<close>

definition forEach_value :: "env \<Rightarrow> jsval \<Rightarrow> jsval list \<times> jsobj \<Rightarrow> exn + (jsval list \<times> jsobj)" where
  "forEach_value e v tables = (if isArray v then forEach_profile e (elements v) tables else Inl TypeError)"

text \<open>From the first listing of the profiles to the mapping \<^verbatim>\<open>repSteamProfilesObj\<close>.\<close>

definition resolve_profiles :: "env \<Rightarrow> string \<Rightarrow> dstate \<Rightarrow> (exn + jsobj) \<times> dstate" where
  "resolve_profiles e steamID s =
     (case getSteamProfiles e s of
        (Inl err, s1) \<Rightarrow> (Inl err, s1)
      | (Inr steamProfiles, s1) \<Rightarrow>
          (case forEach_value e steamProfiles ([], []) of
             Inl err \<Rightarrow> (Inl err, s1)
           | Inr (repSteamProfiles, repSteamProfilesObj) \<Rightarrow>
               if JStr steamID \<in> set repSteamProfiles then (Inr repSteamProfilesObj, s1)
               else (case addSteamProfile e steamID s1 of
                       (Some err, s2) \<Rightarrow> (Inl err, s2)
                     | (None, s2) \<Rightarrow>
                         (case getSteamProfiles e s2 of
                            (Inl err, s3) \<Rightarrow> (Inl err, s3)
                          | (Inr updatedSteamProfiles, s3) \<Rightarrow>
                              (case forEach_value e updatedSteamProfiles
                                      (repSteamProfiles, repSteamProfilesObj) of
                                 Inl err \<Rightarrow> (Inl err, s3)
                               | Inr (ids, obj) \<Rightarrow> (Inr obj, s3))))))"

text \<open>
  The \<^verbatim>\<open>while (attemptCount < maxAttempts)\<close> loop for one task. \<open>Normal\<close>: the loop is
  left by \<^verbatim>\<open>break\<close> after a success or by its condition; \<open>Return\<close>: the rate limit was hit.
\<close>

function post_attempts :: "env \<Rightarrow> jsval \<Rightarrow> jsval \<Rightarrow> jsval \<Rightarrow> nat \<Rightarrow> dstate \<Rightarrow> signal \<times> dstate" where
  "post_attempts e login profileId task attemptCount s =
     (if attemptCount < 3 then
        (if nullish task then (Throw TypeError, s)
         else (case postUserComment_err e (n_posts (trace s)) of
                 Some message \<Rightarrow>
                   if str_includes message settings_message
                   then post_attempts e login profileId task (Suc attemptCount)
                          (sleep 5000 (emit (PostUserComment task (Some message)) s))
                   else if str_includes message too_frequent_message
                   then (Return, stamp_rate_limit e login (emit (PostUserComment task (Some message)) s))
                   else post_attempts e login profileId task (Suc attemptCount)
                          (sleep 5000 (emit (PostUserComment task (Some message)) s))
               | None \<Rightarrow>
                   (case completeTask e (propv task ''taskId'') (propv task ''requiredCommentId'')
                           profileId (emit (PostUserComment task None) s) of
                      (Some err, s2) \<Rightarrow> (Throw err, s2)
                    | (None, s2) \<Rightarrow>
                        (Normal, s2\<lparr>successfulComments := Suc (successfulComments s2)\<rparr>))))
      else (Normal, s))"
  by pat_completeness auto
termination
  by (relation "measure (\<lambda>(e, login, profileId, task, attemptCount, s). 3 - attemptCount)") auto

declare post_attempts.simps [simp del]

text \<open>The \<^verbatim>\<open>for (const task of tasks)\<close> loop.\<close>

fun comment_tasks :: "env \<Rightarrow> jsval \<Rightarrow> jsval \<Rightarrow> jsval list \<Rightarrow> dstate \<Rightarrow> signal \<times> dstate" where
  "comment_tasks e login profileId [] s = (Normal, s)"
| "comment_tasks e login profileId (task # rest) s =
     (if 10 \<le> successfulComments s then (Break, s)
      else (case post_attempts e login profileId task 0 s of
              (Normal, s1) \<Rightarrow> comment_tasks e login profileId rest (sleep 15000 s1)
            | (sig, s1) \<Rightarrow> (sig, s1)))"

text \<open>
  How a run of \<^verbatim>\<open>autoComment\<close> ended: at the cool-down test, at a profile listing of no
  known shape (second version only), at the rate limit (first version: \<^verbatim>\<open>return\<close> from the
  loop), at its last statement, or in its \<^verbatim>\<open>catch\<close> block. The function itself returns
  nothing in all five.
\<close>

datatype exit = NotReady | Malformed | Critical | Completed | Caught exn

text \<open>
  After the loop: an error goes to the \<^verbatim>\<open>catch\<close> block, \<^verbatim>\<open>return\<close> leaves the function,
  and otherwise the last statement stamps \<^verbatim>\<open>lastComment\<close>.
\<close>

definition finish :: "env \<Rightarrow> jsval \<Rightarrow> signal \<times> dstate \<Rightarrow> exit \<times> dstate" where
  "finish e login r =
     (case r of
        (Throw err, s4) \<Rightarrow> (Caught err, s4)
      | (Return, s4) \<Rightarrow> (Critical, s4)
      | (sig, s4) \<Rightarrow> (Completed, stamp_lastComment e login s4))"

text \<open>The \<^verbatim>\<open>try\<close> block from the first listing of the profiles on.\<close>

definition dispatch :: "env \<Rightarrow> string \<Rightarrow> jsval \<Rightarrow> dstate \<Rightarrow> exit \<times> dstate" where
  "dispatch e steamID login s =
     (case resolve_profiles e steamID s of
        (Inl err, s2) \<Rightarrow> (Caught err, s2)
      | (Inr repSteamProfilesObj, s2) \<Rightarrow>
          (case getTasks e (getp repSteamProfilesObj steamID) s2 of
             (Inl err, s3) \<Rightarrow> (Caught err, s3)
           | (Inr tasks, s3) \<Rightarrow>
               (case iterate tasks of
                  Inl err \<Rightarrow> (Caught err, s3)
                | Inr ts \<Rightarrow>
                    finish e login
                      (comment_tasks e login (getp repSteamProfilesObj steamID) ts s3))))"

text \<open>
  \<^verbatim>\<open>autoComment(steamID, account, community, accounts)\<close>, with the file as it is when the
  run starts: the cool-down test, the reset of the counter, and the rest.
\<close>

definition autoComment :: "env \<Rightarrow> string \<Rightarrow> jsobj \<Rightarrow> jsobj list \<Rightarrow> jsobj list option \<Rightarrow> exit \<times> dstate" where
  "autoComment e steamID account accounts file =
     (case within_cooldown e account
             \<lparr>accs = accounts, disk = file, trace = [], ticks = 0, successfulComments = 0\<rparr> of
        (True, s1) \<Rightarrow> (NotReady, s1)
      | (False, s1) \<Rightarrow>
          dispatch e steamID (getp account ''login'')
            (persist (getp account ''login'') [(''commentCounter'', JNum 0)] s1))"

subsection \<open>The dispatcher of the second \<^verbatim>\<open>index.js\<close>\<close>

text \<open>
  The shapes the second version accepts for the client's answer. \<open>Inr None\<close>: the function
  logs the shape and returns. \<^verbatim>\<open>typeof null\<close> is \<^verbatim>\<open>'object'\<close>, so \<^verbatim>\<open>null\<close> reaches the read
  of \<^verbatim>\<open>.data\<close>, which throws.
\<close>

definition extract_profiles :: "jsval \<Rightarrow> exn + jsval option" where
  "extract_profiles r =
     (if typeof_object r then
        (if isArray r then Inr (Some r)
         else if nullish r then Inl TypeError
         else if truthy (propv r ''data'') \<and> isArray (propv r ''data'')
           then Inr (Some (propv r ''data''))
         else if truthy (propv r ''profiles'') \<and> isArray (propv r ''profiles'')
           then Inr (Some (propv r ''profiles''))
         else if truthy (propv r ''steamProfiles'') \<and> isArray (propv r ''steamProfiles'')
           then Inr (Some (propv r ''steamProfiles''))
         else Inr None)
      else Inr None)"

text \<open>One listing: fetched, its shape checked, its elements added to the two tables.\<close>

definition list_profiles_unnamed ::
  "env \<Rightarrow> jsval list \<times> jsobj \<Rightarrow> dstate \<Rightarrow> (exn + (jsval list \<times> jsobj) option) \<times> dstate" where
  "list_profiles_unnamed e tables s =
     (case getSteamProfiles e s of
        (Inl err, s1) \<Rightarrow> (Inl err, s1)
      | (Inr steamProfilesResponse, s1) \<Rightarrow>
          (case extract_profiles steamProfilesResponse of
             Inl err \<Rightarrow> (Inl err, s1)
           | Inr None \<Rightarrow> (Inr None, s1)
           | Inr (Some steamProfiles) \<Rightarrow>
               (case forEach_profile e (elements steamProfiles) tables of
                  Inl err \<Rightarrow> (Inl err, s1)
                | Inr tables' \<Rightarrow> (Inr (Some tables'), s1))))"

definition resolve_profiles_unnamed :: "env \<Rightarrow> string \<Rightarrow> dstate \<Rightarrow> (exn + jsobj option) \<times> dstate" where
  "resolve_profiles_unnamed e steamID s =
     (case list_profiles_unnamed e ([], []) s of
        (Inl err, s1) \<Rightarrow> (Inl err, s1)
      | (Inr None, s1) \<Rightarrow> (Inr None, s1)
      | (Inr (Some (repSteamProfiles, repSteamProfilesObj)), s1) \<Rightarrow>
          if JStr steamID \<in> set repSteamProfiles then (Inr (Some repSteamProfilesObj), s1)
          else (case addSteamProfile e steamID s1 of
                  (Some err, s2) \<Rightarrow> (Inl err, s2)
                | (None, s2) \<Rightarrow>
                    (case list_profiles_unnamed e (repSteamProfiles, repSteamProfilesObj) s2 of
                       (Inl err, s3) \<Rightarrow> (Inl err, s3)
                     | (Inr None, s3) \<Rightarrow> (Inr None, s3)
                     | (Inr (Some (ids, obj)), s3) \<Rightarrow> (Inr (Some obj), s3))))"

text \<open>The loop over the tasks: one post per task, \<^verbatim>\<open>break\<close> at the rate limit.\<close>

fun comment_tasks_unnamed :: "env \<Rightarrow> jsval \<Rightarrow> jsval \<Rightarrow> jsval list \<Rightarrow> dstate \<Rightarrow> signal \<times> dstate" where
  "comment_tasks_unnamed e login profileId [] s = (Normal, s)"
| "comment_tasks_unnamed e login profileId (task # rest) s =
     (if 10 \<le> successfulComments s then (Break, s)
      else if nullish task then (Throw TypeError, s)
      else (case postUserComment_err e (n_posts (trace s)) of
              Some message \<Rightarrow>
                if str_includes message settings_message
                then comment_tasks_unnamed e login profileId rest
                       (sleep 15000 (emit (PostUserComment task (Some message)) s))
                else if str_includes message too_frequent_message
                then (Break, stamp_rate_limit e login (emit (PostUserComment task (Some message)) s))
                else comment_tasks_unnamed e login profileId rest
                       (sleep 15000 (emit (PostUserComment task (Some message)) s))
            | None \<Rightarrow>
                (case completeTask e (propv task ''taskId'') (propv task ''requiredCommentId'')
                        profileId (emit (PostUserComment task None) s) of
                   (Some err, s2) \<Rightarrow> (Throw err, s2)
                 | (None, s2) \<Rightarrow>
                     comment_tasks_unnamed e login profileId rest
                       (sleep 15000 (s2\<lparr>successfulComments := Suc (successfulComments s2)\<rparr>)))))"

text \<open>After the loop (it has no \<^verbatim>\<open>return\<close>).\<close>

definition finish_unnamed :: "env \<Rightarrow> jsval \<Rightarrow> signal \<times> dstate \<Rightarrow> exit \<times> dstate" where
  "finish_unnamed e login r =
     (case r of
        (Throw err, s4) \<Rightarrow> (Caught err, s4)
      | (sig, s4) \<Rightarrow> (Completed, stamp_lastComment e login s4))"

definition dispatch_unnamed :: "env \<Rightarrow> string \<Rightarrow> jsval \<Rightarrow> dstate \<Rightarrow> exit \<times> dstate" where
  "dispatch_unnamed e steamID login s =
     (case resolve_profiles_unnamed e steamID s of
        (Inl err, s2) \<Rightarrow> (Caught err, s2)
      | (Inr None, s2) \<Rightarrow> (Malformed, s2)
      | (Inr (Some repSteamProfilesObj), s2) \<Rightarrow>
          (case getTasks e (getp repSteamProfilesObj steamID) s2 of
             (Inl err, s3) \<Rightarrow> (Caught err, s3)
           | (Inr tasks, s3) \<Rightarrow>
               (case iterate tasks of
                  Inl err \<Rightarrow> (Caught err, s3)
                | Inr ts \<Rightarrow>
                    finish_unnamed e login
                      (comment_tasks_unnamed e login (getp repSteamProfilesObj steamID) ts s3))))"

definition autoComment_unnamed ::
  "env \<Rightarrow> string \<Rightarrow> jsobj \<Rightarrow> jsobj list \<Rightarrow> jsobj list option \<Rightarrow> exit \<times> dstate" where
  "autoComment_unnamed e steamID account accounts file =
     (case within_cooldown e account
             \<lparr>accs = accounts, disk = file, trace = [], ticks = 0, successfulComments = 0\<rparr> of
        (True, s1) \<Rightarrow> (NotReady, s1)
      | (False, s1) \<Rightarrow>
          dispatch_unnamed e steamID (getp account ''login'')
            (persist (getp account ''login'') [(''commentCounter'', JNum 0)] s1))"

section \<open>Session manager\<close>

text \<open>
  \<^verbatim>\<open>processAccount\<close> registers listeners on the client and waits for one promise. What
  the client delivers, in the order of delivery: the four events the listeners are for, and
  the return of a call of \<^verbatim>\<open>autoComment\<close> that a \<^verbatim>\<open>webSession\<close> listener is waiting
  for (\<open>AutoCommentReturned\<close>; without such a call it changes nothing). An error carries its
  \<^verbatim>\<open>eresult\<close> and \<^verbatim>\<open>message\<close>.
\<close>

datatype event =
    LoggedOn
  | WebSession
  | AutoCommentReturned
  | RefreshToken string
  | Error "int option" string
  | Disconnected

datatype promise = Pending | Resolved | Rejected string

text \<open>The calls the listeners make, in order.\<close>

datatype call =
    LogOn jsobj
  | SetPersona nat
  | SetCookies
  | AutoComment
  | LogOff
  | UpdateAccount jsval jsobj

text \<open>
  The variables \<^verbatim>\<open>isLoggedOn\<close> and \<^verbatim>\<open>isTokenRefreshed\<close>, the listeners registered after the
  start (\<^verbatim>\<open>webSession\<close> by each \<^verbatim>\<open>loggedOn\<close>, \<^verbatim>\<open>disconnected\<close> once by each return of
  \<^verbatim>\<open>autoComment\<close>), the calls of \<^verbatim>\<open>autoComment\<close> not yet returned, and the promise.
\<close>

record session =
  isLoggedOn :: bool
  isTokenRefreshed :: bool
  webSession_listeners :: nat
  autoComment_pending :: nat
  disconnected_once :: nat
  promise :: promise
  calls :: "call list"
  clock_reads :: nat

text \<open>\<^verbatim>\<open>resolve()\<close> and \<^verbatim>\<open>reject(e)\<close>: a promise settles once.\<close>

definition resolve :: "session \<Rightarrow> session" where
  "resolve s = (if promise s = Pending then s\<lparr>promise := Resolved\<rparr> else s)"

definition reject :: "string \<Rightarrow> session \<Rightarrow> session" where
  "reject message s = (if promise s = Pending then s\<lparr>promise := Rejected message\<rparr> else s)"

text \<open>The body of the promise: the options of \<^verbatim>\<open>logOn\<close>, the call, the two variables.\<close>

definition open_session :: "jsobj \<Rightarrow> session" where
  "open_session account =
     \<lparr>isLoggedOn = False,
      isTokenRefreshed = truthy (getp account ''refreshToken''),
      webSession_listeners = 0,
      autoComment_pending = 0,
      disconnected_once = 0,
      promise = Pending,
      calls = [LogOn (if truthy (getp account ''refreshToken'')
                      then [(''refreshToken'', getp account ''refreshToken'')]
                      else [(''accountName'', getp account ''login''),
                            (''password'', getp account ''password'')])],
      clock_reads = 0\<rparr>"

text \<open>One delivery, handled by the listeners registered at that moment.\<close>

fun handle :: "env \<Rightarrow> jsobj \<Rightarrow> event \<Rightarrow> session \<Rightarrow> session" where
  "handle e account LoggedOn s =
     s\<lparr>isLoggedOn := True,
       calls := calls s @ [SetPersona 7],
       webSession_listeners := Suc (webSession_listeners s)\<rparr>"
| "handle e account WebSession s =
     s\<lparr>calls := calls s @ concat (replicate (webSession_listeners s) [SetCookies, AutoComment]),
       autoComment_pending := autoComment_pending s + webSession_listeners s\<rparr>"
| "handle e account AutoCommentReturned s =
     (if 0 < autoComment_pending s
      then s\<lparr>autoComment_pending := autoComment_pending s - 1,
             calls := calls s @ [LogOff],
             disconnected_once := Suc (disconnected_once s)\<rparr>
      else s)"
| "handle e account Disconnected s =
     (if 0 < disconnected_once s then resolve (s\<lparr>disconnected_once := 0\<rparr>) else s)"
| "handle e account (RefreshToken newToken) s =
     (if isLoggedOn s
      then resolve (s\<lparr>calls := calls s @ [UpdateAccount (getp account ''login'')
                                             [(''refreshToken'', JStr newToken)]],
                     isTokenRefreshed := True\<rparr>)
      else s\<lparr>calls := calls s @ [UpdateAccount (getp account ''login'')
                                    [(''refreshToken'', JStr newToken)]],
             isTokenRefreshed := True\<rparr>)"
| "handle e account (Error eresult message) s =
     reject message
       (if eresult = Some 5 then s
        else if eresult = Some 63 then s
        else if str_includes message too_frequent_message
        then s\<lparr>calls := calls s @ [UpdateAccount (getp account ''login'')
                 [(''commentCounter'', JNum 0),
                  (''lastComment'', JStr (date_toISOString e (date_now e (clock_reads s))))]],
               clock_reads := Suc (clock_reads s)\<rparr>
        else s)"

text \<open>The session after a sequence of deliveries.\<close>

definition deliver_all :: "env \<Rightarrow> jsobj \<Rightarrow> event list \<Rightarrow> session \<Rightarrow> session" where
  "deliver_all e account events s = foldl (\<lambda>s ev. handle e account ev s) s events"

text \<open>
  The session at the moment \<^verbatim>\<open>await\<close> is released: deliveries are handled until the promise
  is settled. (The listeners stay registered; what they do with later deliveries is no longer
  waited for.)
\<close>

fun deliver :: "env \<Rightarrow> jsobj \<Rightarrow> event list \<Rightarrow> session \<Rightarrow> session" where
  "deliver e account [] s = s"
| "deliver e account (ev # events) s =
     (if promise s = Pending then deliver e account events (handle e account ev s) else s)"

text \<open>
  \<^verbatim>\<open>processAccount(account)\<close>: \<open>None\<close> when the promise stays pending with these deliveries
  (the call never returns), \<open>Some (Inl err)\<close> when the call throws, \<open>Some (Inr ())\<close> when it
  returns. A rejection is caught and logged.
\<close>

definition processAccount :: "env \<Rightarrow> jsobj \<Rightarrow> event list \<Rightarrow> (exn + unit) option" where
  "processAccount e account events =
     (case promise (deliver e account events (open_session account)) of
        Pending \<Rightarrow> None
      | Resolved \<Rightarrow> Some (Inr ())
      | Rejected message \<Rightarrow> Some (Inr ()))"

section \<open>Scheduler\<close>

text \<open>
  How a batch ends: every account has had its turn, the batch waits for ever on a session, or
  an error left the loop. Each carries the accounts \<^verbatim>\<open>processAccount\<close> was called for, in the
  order of the calls.
\<close>

datatype batch = Finished "jsobj list" | Waiting "jsobj list" | Failed exn "jsobj list"

text \<open>
  The loop of \<^verbatim>\<open>startWork\<close> from the \<open>i\<close>-th account on. \<open>now i\<close> is the reading of
  \<^verbatim>\<open>Date.now()\<close> at the \<open>i\<close>-th account's cool-down test, \<open>deliveries i\<close> what the client
  delivers during its session.
\<close>

fun startWork_from ::
  "env \<Rightarrow> (nat \<Rightarrow> int) \<Rightarrow> (nat \<Rightarrow> event list) \<Rightarrow> nat \<Rightarrow> jsobj list \<Rightarrow> jsobj list \<Rightarrow> batch" where
  "startWork_from e now deliveries i [] called = Finished called"
| "startWork_from e now deliveries i (account # rest) called =
     (if \<not> truthy (getp account ''steamID'')
      then startWork_from e now deliveries (Suc i) rest called
      else if truthy (getp account ''lastComment'') \<and> not_ready e account (now i)
      then startWork_from e now deliveries (Suc i) rest called
      else (case processAccount e account (deliveries i) of
              None \<Rightarrow> Waiting (called @ [account])
            | Some (Inl err) \<Rightarrow> Failed err (called @ [account])
            | Some (Inr u) \<Rightarrow> startWork_from e now deliveries (Suc i) rest (called @ [account])))"

definition startWork :: "env \<Rightarrow> (nat \<Rightarrow> int) \<Rightarrow> (nat \<Rightarrow> event list) \<Rightarrow> jsobj list option \<Rightarrow> batch" where
  "startWork e now deliveries file = startWork_from e now deliveries 0 (fst (loadAccounts file)) []"

text \<open>
  What holds of a session at every moment: a listener exists only after a login, a
  \<^verbatim>\<open>disconnected\<close> listener only after a \<^verbatim>\<open>logOff\<close>, and the promise is resolved only after a
  login and, besides, a token or a \<^verbatim>\<open>logOff\<close>.
\<close>

definition session_inv :: "session \<Rightarrow> bool" where
  "session_inv s =
     ((0 < webSession_listeners s \<longrightarrow> isLoggedOn s)
      \<and> (0 < autoComment_pending s \<longrightarrow> isLoggedOn s)
      \<and> (0 < disconnected_once s \<longrightarrow> isLoggedOn s \<and> LogOff \<in> set (calls s))
      \<and> (promise s = Resolved \<longrightarrow> isLoggedOn s \<and> (isTokenRefreshed s \<or> LogOff \<in> set (calls s))))"

text \<open>An account passes both tests of the loop when its turn comes at \<open>currentTime\<close>.\<close>

definition eligible :: "env \<Rightarrow> int \<Rightarrow> jsobj \<Rightarrow> bool" where
  "eligible e currentTime account =
     (truthy (getp account ''steamID'') \<and>
      \<not> (truthy (getp account ''lastComment'') \<and> not_ready e account currentTime))"

section \<open>Reading a run\<close>

text \<open>The value of a field of the first record of \<open>login\<close> in \<^verbatim>\<open>accounts.json\<close>.\<close>

definition persisted :: "dstate \<Rightarrow> jsval \<Rightarrow> string \<Rightarrow> jsval option" where
  "persisted s login k =
     (case disk s of
        None \<Rightarrow> None
      | Some content \<Rightarrow>
          (case getAccount content login of None \<Rightarrow> None | Some r \<Rightarrow> Some (getp r k)))"

text \<open>
  A failure the loops retry or pass over: its message names the settings of the target
  account, or does not name the posting frequency. Every other failure stops the account.
\<close>

definition transient :: "string \<Rightarrow> bool" where
  "transient message =
     (str_includes message settings_message \<or> \<not> str_includes message too_frequent_message)"

fun rate_limited :: "action \<Rightarrow> bool" where
  "rate_limited (PostUserComment task (Some message)) =
     (str_includes message too_frequent_message \<and> \<not> str_includes message settings_message)"
| "rate_limited a = False"

text \<open>The stored record of \<open>login\<close> has its counter at 0 and the last reading of the clock.\<close>

definition stamped :: "env \<Rightarrow> jsval \<Rightarrow> dstate \<Rightarrow> bool" where
  "stamped e login s =
     (0 < ticks s \<and> disk s = Some (saveAccounts (accs s)) \<and>
      (\<exists>r. getAccount (accs s) login = Some r \<and> getp r ''commentCounter'' = JNum 0 \<and>
           getp r ''lastComment'' = JStr (date_toISOString e (date_now e (ticks s - 1)))))"

definition ends_rate_limited :: "action list \<Rightarrow> bool" where
  "ends_rate_limited tr =
     (tr \<noteq> [] \<and> rate_limited (last tr) \<and> \<not> list_ex rate_limited (butlast tr))"

text \<open>The tasks whose post succeeded, and the completion reports, in the order of the calls.\<close>

fun succeeded :: "action list \<Rightarrow> jsval list" where
  "succeeded [] = []"
| "succeeded (PostUserComment task None # tr) = task # succeeded tr"
| "succeeded (a # tr) = succeeded tr"

definition reports :: "action list \<Rightarrow> action list" where
  "reports tr = filter is_complete tr"

text \<open>\<^verbatim>\<open>api.completeTask(task.taskId, task.requiredCommentId, repSteamProfilesObj[steamID])\<close>.\<close>

definition report_for :: "jsval \<Rightarrow> jsval \<Rightarrow> action" where
  "report_for profileId task =
     CompleteTask (propv task ''taskId'') (propv task ''requiredCommentId'') profileId"

text \<open>What follows the \<open>n\<close>-th successful post (nothing, when there are fewer).\<close>

fun after_success :: "nat \<Rightarrow> action list \<Rightarrow> action list" where
  "after_success 0 tr = tr"
| "after_success (Suc n) [] = []"
| "after_success (Suc n) (PostUserComment task None # tr) = after_success n tr"
| "after_success (Suc n) (a # tr) = after_success (Suc n) tr"

text \<open>The bookkeeping of the loops, with the count at most one behind the successful posts.\<close>

definition counted :: "jsval \<Rightarrow> dstate \<Rightarrow> bool" where
  "counted profileId s =
     (length (succeeded (trace s)) \<le> 10
      \<and> successfulComments s \<le> length (succeeded (trace s))
      \<and> length (succeeded (trace s)) \<le> Suc (successfulComments s)
      \<and> reports (trace s) = map (report_for profileId) (succeeded (trace s))
      \<and> \<not> list_ex is_post (after_success 10 (trace s))
      \<and> (\<forall>p. GetTasks p \<in> set (trace s) \<longrightarrow> p = profileId))"

definition counted_exactly :: "jsval \<Rightarrow> dstate \<Rightarrow> bool" where
  "counted_exactly profileId s =
     (counted profileId s \<and> successfulComments s = length (succeeded (trace s)))"

text \<open>Before the loop: the counter is reset and written, and only the listings were called.\<close>

fun is_setup :: "action \<Rightarrow> bool" where
  "is_setup GetSteamProfiles = True"
| "is_setup (AddSteamProfile steamId) = True"
| "is_setup a = False"

definition quiet :: "action list \<Rightarrow> bool" where
  "quiet tr = (\<not> list_ex is_post tr \<and> \<not> list_ex is_complete tr)"

definition started :: "jsobj \<Rightarrow> jsobj list \<Rightarrow> dstate \<Rightarrow> bool" where
  "started account accounts s =
     (accs s = fst (updateAccount accounts (getp account ''login'') [(''commentCounter'', JNum 0)])
      \<and> disk s = Some (saveAccounts (accs s))
      \<and> successfulComments s = 0 \<and> ticks s \<le> 1 \<and> trace s = [])"

definition pre_loop :: "jsobj \<Rightarrow> jsobj list \<Rightarrow> jsval \<Rightarrow> dstate \<Rightarrow> bool" where
  "pre_loop account accounts profileId s =
     (accs s = fst (updateAccount accounts (getp account ''login'') [(''commentCounter'', JNum 0)])
      \<and> disk s = Some (saveAccounts (accs s))
      \<and> successfulComments s = 0
      \<and> ticks s \<le> 1
      \<and> quiet (trace s)
      \<and> (\<forall>p. GetTasks p \<in> set (trace s) \<longrightarrow> p = profileId))"

text \<open>The stored record of \<open>login\<close> has its counter at 0, in the list and in the file.\<close>

definition counter_zero :: "jsval \<Rightarrow> dstate \<Rightarrow> bool" where
  "counter_zero login s =
     (disk s = Some (saveAccounts (accs s)) \<and>
      (\<exists>r. getAccount (accs s) login = Some r \<and> getp r ''commentCounter'' = JNum 0))"

text \<open>
  The shapes of a listing's body: the first array among the body itself and its fields
  \<^verbatim>\<open>data\<close>, \<^verbatim>\<open>profiles\<close> and \<^verbatim>\<open>steamProfiles\<close>.
\<close>

definition first_array :: "jsval \<Rightarrow> jsval option" where
  "first_array raw =
     find isArray [raw, propv raw ''data'', propv raw ''profiles'', propv raw ''steamProfiles'']"

text \<open>
  The profiles each dispatcher takes from the \<open>n\<close>-th listing (none when the call fails or
  the body has no shape it takes).
\<close>

definition listing :: "env \<Rightarrow> nat \<Rightarrow> jsval list" where
  "listing e n =
     (case steamprofiles_response e n of
        Inl err \<Rightarrow> []
      | Inr raw \<Rightarrow> elements (unwrap_data raw))"

definition listing_unnamed :: "env \<Rightarrow> nat \<Rightarrow> jsval list" where
  "listing_unnamed e n =
     (case steamprofiles_response e n of
        Inl err \<Rightarrow> []
      | Inr raw \<Rightarrow>
          (case extract_profiles (unwrap_data raw) of
             Inr (Some a) \<Rightarrow> elements a
           | _ \<Rightarrow> []))"

text \<open>
  The profiles a run has listed when it asks for the tasks: those of the first listing, and
  after them those of the second when no profile of the first has \<open>steamID\<close> as its
  \<^verbatim>\<open>steamId\<close>.
\<close>

definition listed :: "string \<Rightarrow> jsval list \<Rightarrow> jsval list \<Rightarrow> jsval list" where
  "listed steamID first second =
     (if JStr steamID \<in> set (map (\<lambda>p. propv p ''steamId'') first) then first else first @ second)"

text \<open>
  The remote id of \<open>steamID\<close> among listed profiles: the \<^verbatim>\<open>id\<close> of the last profile listed
  under that key, \<^verbatim>\<open>undefined\<close> when there is none.
\<close>

definition remote_id :: "env \<Rightarrow> string \<Rightarrow> jsval list \<Rightarrow> jsval" where
  "remote_id e steamID profiles =
     (case filter (\<lambda>p. toPropertyKey e (propv p ''steamId'') = steamID) profiles of
        [] \<Rightarrow> JUndefined
      | p # ps \<Rightarrow> propv (last (p # ps)) ''id'')"

text \<open>The number of completion reports of a run that the remote API accepted.\<close>

definition accepted :: "env \<Rightarrow> action list \<Rightarrow> nat" where
  "accepted e tr = length (filter (\<lambda>k. completeTask_response e k = None) [0..<n_completes tr])"

text \<open>A state without the store: what is left is what the run can be seen to do.\<close>

definition erase :: "dstate \<Rightarrow> dstate" where
  "erase s = s\<lparr>accs := [], disk := None\<rparr>"

section \<open>A small world\<close>

text \<open>
  A concrete environment for the examples: the clock starts at 1700000000000 ms, one
  timestamp parses, the remote API knows the profile \<open>''765''\<close> under the id 42 and has one
  task for it, every post succeeds and every report is accepted.
\<close>

definition task1 :: jsval where
  "task1 = JObj [(''taskId'', JNum 1), (''requiredCommentId'', JNum 2),
                 (''targetSteamProfileId'', JStr ''900''), (''requiredCommentText'', JStr ''+rep'')]"

definition world1 :: env where
  "world1 =
     \<lparr>date_now = (\<lambda>n. 1700000000000 + int n),
      date_getTime = (\<lambda>v. if v = JStr ''2023-11-14T22:13:19.000Z'' then Some 1699999999000 else None),
      date_toISOString = (\<lambda>t. if t = 1700000000000 then ''2023-11-14T22:13:20.000Z''
                              else ''2023-11-14T22:13:20.001Z''),
      toPropertyKey = (\<lambda>v. case v of JStr k \<Rightarrow> k | _ \<Rightarrow> ''undefined''),
      steamprofiles_response = (\<lambda>n. Inr (JArr [JObj [(''steamId'', JStr ''765''), (''id'', JNum 42)]])),
      addSteamProfile_response = (\<lambda>steamId. None),
      getTasks_response = (\<lambda>profileId. Inr (JArr [task1])),
      postUserComment_err = (\<lambda>n. None),
      completeTask_response = (\<lambda>n. None)\<rparr>"

definition alice :: jsobj where
  "alice = [(''login'', JStr ''alice''), (''password'', JStr ''pw''), (''commentCounter'', JNum 3),
            (''lastComment'', JNull), (''steamID'', JStr ''765'')]"

definition bob :: jsobj where
  "bob = [(''login'', JStr ''bob''), (''refreshToken'', JStr ''old''), (''commentCounter'', JNum 0),
          (''lastComment'', JStr ''2023-11-14T22:13:19.000Z''), (''steamID'', JStr ''766'')]"

text \<open>The same world with every post refused for the target's settings.\<close>

definition world_settings :: env where
  "world_settings = world1\<lparr>postUserComment_err := (\<lambda>n. Some settings_message)\<rparr>"

text \<open>The same world with every post refused for posting too frequently.\<close>

definition world_frequent :: env where
  "world_frequent = world1\<lparr>postUserComment_err := (\<lambda>n. Some too_frequent_message)\<rparr>"

text \<open>
  A world with two tasks where the first post is refused with a message that names both the
  settings and the posting frequency, and every later post succeeds.
\<close>

definition task2 :: jsval where
  "task2 = JObj [(''taskId'', JNum 3), (''requiredCommentId'', JNum 4),
                 (''targetSteamProfileId'', JStr ''901''), (''requiredCommentText'', JStr ''+rep'')]"

definition world_both :: env where
  "world_both =
     world1\<lparr>getTasks_response := (\<lambda>profileId. Inr (JArr [task1, task2])),
            postUserComment_err :=
              (\<lambda>n. if n = 0 then Some (settings_message @ '' / '' @ too_frequent_message)
                    else None)\<rparr>"

text \<open>A world where the listing of the profiles answers with a string.\<close>

definition world_string :: env where
  "world_string = world1\<lparr>steamprofiles_response := (\<lambda>n. Inr (JStr ''Too many requests''))\<rparr>"

text \<open>Worlds where the listing wraps the profiles in a field of an object.\<close>

definition profile1 :: jsval where
  "profile1 = JObj [(''steamId'', JStr ''765''), (''id'', JNum 42)]"

definition world_data :: env where
  "world_data = world1\<lparr>steamprofiles_response := (\<lambda>n. Inr (JObj [(''data'', JArr [profile1])]))\<rparr>"

definition world_profiles :: env where
  "world_profiles =
     world1\<lparr>steamprofiles_response := (\<lambda>n. Inr (JObj [(''profiles'', JArr [profile1])]))\<rparr>"

text \<open>
  A world where the first listing is empty and the listing after the registration answers with
  a string.
\<close>

definition world_second_string :: env where
  "world_second_string =
     world1\<lparr>steamprofiles_response :=
              (\<lambda>n. if n = 0 then Inr (JArr []) else Inr (JStr ''Too many requests''))\<rparr>"

text \<open>A world where every completion report fails.\<close>

definition world_refused :: env where
  "world_refused = world1\<lparr>completeTask_response := (\<lambda>n. Some (Failure ''fetch failed''))\<rparr>"

section \<open>Properties of the store\<close>

lemma getp_setp: "getp (setp k v obj) k' = (if k' = k then v else getp obj k')"
  by (induction obj) (auto simp: getp_def)

lemma keys_setp:
  "map fst (setp k v obj) = (if k \<in> set (map fst obj) then map fst obj else map fst obj @ [k])"
  by (induction obj) (fastforce simp: image_iff)+

lemma getp_assign_other:
  "k \<notin> fst ` set updates \<Longrightarrow> getp (Object_assign obj updates) k = getp obj k"
  unfolding Object_assign_def
  by (induction updates arbitrary: obj) (auto simp: getp_setp)

lemma keys_assign: "set (map fst (Object_assign obj updates)) = set (map fst obj) \<union> set (map fst updates)"
  unfolding Object_assign_def
proof (induction updates arbitrary: obj)
  case Nil
  then show ?case by simp
next
  case (Cons u us)
  obtain k0 v0 where u: "u = (k0, v0)" by (cases u)
  have "set (map fst (setp k0 v0 obj)) = insert k0 (set (map fst obj))"
    by (simp add: keys_setp insert_absorb)
  with Cons.IH [of "setp k0 v0 obj"] u show ?case by simp
qed

lemma getp_assign_named:
  "distinct (map fst updates) \<Longrightarrow> (k, v) \<in> set updates \<Longrightarrow> getp (Object_assign obj updates) k = v"
  unfolding Object_assign_def
proof (induction updates arbitrary: obj)
  case Nil
  then show ?case by simp
next
  case (Cons u us)
  obtain k0 v0 where u: "u = (k0, v0)" by (cases u)
  show ?case
  proof (cases "(k, v) = u")
    case True
    with Cons.prems u have "k \<notin> fst ` set us" by auto
    then have "getp (Object_assign (setp k v obj) us) k = getp (setp k v obj) k"
      by (rule getp_assign_other)
    with True u show ?thesis by (simp add: Object_assign_def getp_setp)
  next
    case False
    with Cons.prems have "(k, v) \<in> set us" "distinct (map fst us)" by auto
    with Cons.IH [of "setp k0 v0 obj"] u show ?thesis by simp
  qed
qed

lemma getAccount_None_iff:
  "getAccount accounts login = None \<longleftrightarrow> (\<forall>acc \<in> set accounts. \<not> strict_eq (getp acc ''login'') login)"
  by (auto simp: getAccount_def find_None_iff)

lemma getAccount_split:
  "getAccount accounts login = Some r \<Longrightarrow>
     \<exists>before after. accounts = before @ r # after \<and> getAccount before login = None \<and>
       assign_found login updates accounts = before @ Object_assign r updates # after"
proof (induction accounts)
  case Nil
  then show ?case by (simp add: getAccount_def)
next
  case (Cons a as)
  show ?case
  proof (cases "strict_eq (getp a ''login'') login")
    case True
    with Cons.prems have "r = a" by (simp add: getAccount_def)
    with True have "a # as = [] @ r # as \<and> getAccount [] login = None \<and>
        assign_found login updates (a # as) = [] @ Object_assign r updates # as"
      by (simp add: getAccount_def)
    then show ?thesis by blast
  next
    case False
    with Cons.prems have "getAccount as login = Some r" by (simp add: getAccount_def)
    from Cons.IH [OF this] obtain before after where
      "as = before @ r # after" "getAccount before login = None"
      "assign_found login updates as = before @ Object_assign r updates # after"
      by blast
    with False have "a # as = (a # before) @ r # after \<and> getAccount (a # before) login = None \<and>
        assign_found login updates (a # as) = (a # before) @ Object_assign r updates # after"
      by (simp add: getAccount_def)
    then show ?thesis by blast
  qed
qed

section \<open>Upsert\<close>

text \<open>
  C9. \<^verbatim>\<open>updateAccount\<close> on a store with no record of the login appends the record
  \<^verbatim>\<open>{ login, ...updates }\<close>; on a store with such a record it merges the update into the
  first one and leaves every other record, and the order, as they were. Merging keeps every
  property of the record, leaves the value of every property the update does not name, and gives
  a named property the update's value. In both cases the list as it is afterwards has been
  written to the file when the call returns.
\<close>

theorem updateAccount_upsert:
  "(getAccount accounts login = None \<longrightarrow>
      fst (updateAccount accounts login updates) =
        accounts @ [Object_assign [(''login'', login)] updates])
   \<and> (\<forall>r. getAccount accounts login = Some r \<longrightarrow>
        (\<exists>before after. accounts = before @ r # after \<and> getAccount before login = None \<and>
           fst (updateAccount accounts login updates) = before @ Object_assign r updates # after))
   \<and> (\<forall>obj. set (map fst obj) \<subseteq> set (map fst (Object_assign obj updates)))
   \<and> (\<forall>obj k. k \<notin> set (map fst updates) \<longrightarrow> getp (Object_assign obj updates) k = getp obj k)
   \<and> (\<forall>obj k v. distinct (map fst updates) \<and> (k, v) \<in> set updates \<longrightarrow>
        getp (Object_assign obj updates) k = v)
   \<and> snd (updateAccount accounts login updates) =
       saveAccounts (fst (updateAccount accounts login updates))"
proof -
  have new: "getAccount accounts login = None \<longrightarrow>
      fst (updateAccount accounts login updates) =
        accounts @ [Object_assign [(''login'', login)] updates]"
    by (simp add: updateAccount_def Let_def)
  have old: "\<forall>r. getAccount accounts login = Some r \<longrightarrow>
        (\<exists>before after. accounts = before @ r # after \<and> getAccount before login = None \<and>
           fst (updateAccount accounts login updates) = before @ Object_assign r updates # after)"
  proof (intro allI impI)
    fix r
    assume r: "getAccount accounts login = Some r"
    from getAccount_split [OF r, of updates] r
    show "\<exists>before after. accounts = before @ r # after \<and> getAccount before login = None \<and>
           fst (updateAccount accounts login updates) = before @ Object_assign r updates # after"
      by (simp add: updateAccount_def Let_def)
  qed
  have keys: "\<forall>obj. set (map fst obj) \<subseteq> set (map fst (Object_assign obj updates))"
    using keys_assign by blast
  have other: "\<forall>obj k. k \<notin> set (map fst updates) \<longrightarrow>
      getp (Object_assign obj updates) k = getp obj k"
    using getp_assign_other by simp
  have named: "\<forall>obj k v. distinct (map fst updates) \<and> (k, v) \<in> set updates \<longrightarrow>
        getp (Object_assign obj updates) k = v"
    using getp_assign_named by blast
  have saved: "snd (updateAccount accounts login updates) =
       saveAccounts (fst (updateAccount accounts login updates))"
    by (simp add: updateAccount_def Let_def)
  from new old keys other named saved show ?thesis by blast
qed

text \<open>
  The theorem at a store of one account: an update for another login appends, an update
  for the stored login resets the counter and keeps the password.
\<close>

theorem updateAccount_upsert_witness:
  "fst (updateAccount
         [[(''login'', JStr ''a''), (''password'', JStr ''p''), (''commentCounter'', JNum 3)]]
         (JStr ''b'') [(''commentCounter'', JNum 0)]) =
     [[(''login'', JStr ''a''), (''password'', JStr ''p''), (''commentCounter'', JNum 3)],
      [(''login'', JStr ''b''), (''commentCounter'', JNum 0)]]
   \<and> fst (updateAccount
         [[(''login'', JStr ''a''), (''password'', JStr ''p''), (''commentCounter'', JNum 3)]]
         (JStr ''a'') [(''commentCounter'', JNum 0)]) =
     [[(''login'', JStr ''a''), (''password'', JStr ''p''), (''commentCounter'', JNum 0)]]
   \<and> getp (Object_assign
         [(''login'', JStr ''a''), (''password'', JStr ''p''), (''commentCounter'', JNum 3)]
         [(''commentCounter'', JNum 0)]) ''password'' = JStr ''p''
   \<and> getp (Object_assign
         [(''login'', JStr ''a''), (''password'', JStr ''p''), (''commentCounter'', JNum 3)]
         [(''commentCounter'', JNum 0)]) ''commentCounter'' = JNum 0
   \<and> snd (updateAccount
         [[(''login'', JStr ''a''), (''password'', JStr ''p''), (''commentCounter'', JNum 3)]]
         (JStr ''a'') [(''commentCounter'', JNum 0)]) =
     [[(''login'', JStr ''a''), (''password'', JStr ''p''), (''commentCounter'', JNum 0)]]"
proof -
  let ?a = "[(''login'', JStr ''a''), (''password'', JStr ''p''), (''commentCounter'', JNum 3)]"
  let ?u = "[(''commentCounter'', JNum 0)]"
  have none: "getAccount [?a] (JStr ''b'') = None"
    by (simp add: getAccount_def getp_def)
  have some: "getAccount [?a] (JStr ''a'') = Some ?a"
    by (simp add: getAccount_def getp_def)
  have key: "''password'' \<notin> set (map fst ?u)" by simp
  have named: "distinct (map fst ?u) \<and> (''commentCounter'', JNum 0) \<in> set ?u" by simp
  note b = updateAccount_upsert [of "[?a]" "JStr ''b''" ?u]
  note a = updateAccount_upsert [of "[?a]" "JStr ''a''" ?u]
  from b none have 1: "fst (updateAccount [?a] (JStr ''b'') ?u) =
      [?a] @ [Object_assign [(''login'', JStr ''b'')] ?u]" by blast
  from a some obtain before after where
    split: "[?a] = before @ ?a # after" "getAccount before (JStr ''a'') = None"
      "fst (updateAccount [?a] (JStr ''a'') ?u) = before @ Object_assign ?a ?u # after"
    by blast
  from split(1) have "before = [] \<and> after = []"
    by (cases before) simp_all
  with split(3) have 2: "fst (updateAccount [?a] (JStr ''a'') ?u) = [Object_assign ?a ?u]"
    by simp
  from a key have 3: "getp (Object_assign ?a ?u) ''password'' = getp ?a ''password''" by blast
  from a named have 4: "getp (Object_assign ?a ?u) ''commentCounter'' = JNum 0" by blast
  from a have 5: "snd (updateAccount [?a] (JStr ''a'') ?u) =
      saveAccounts (fst (updateAccount [?a] (JStr ''a'') ?u))" by blast
  from 1 2 3 4 5 show ?thesis
    by (simp add: Object_assign_def getp_def saveAccounts_def stringify_def)
qed

section \<open>Cool-down\<close>

text \<open>
  C6. An account whose \<^verbatim>\<open>lastComment\<close> is set and parses to a time less than 24 hours before
  the clock's reading: the dispatcher (either version) returns at its first test, with no
  call made (so no task fetch), no comment posted and nothing written; and the loop of
  \<^verbatim>\<open>startWork\<close> goes on to the next account without calling \<^verbatim>\<open>processAccount\<close>.
\<close>

theorem cooldown_no_network:
  assumes "truthy (getp account ''lastComment'')"
    and "date_getTime e (getp account ''lastComment'') = Some lastCommentTime"
  shows "(date_now e 0 - lastCommentTime < 24 * 60 * 60 * 1000 \<longrightarrow>
            autoComment e steamID account accounts file =
              (NotReady, \<lparr>accs = accounts, disk = file, trace = [], ticks = 1, successfulComments = 0\<rparr>)
          \<and> autoComment_unnamed e steamID account accounts file =
              (NotReady, \<lparr>accs = accounts, disk = file, trace = [], ticks = 1, successfulComments = 0\<rparr>))
       \<and> (now i - lastCommentTime < 24 * 60 * 60 * 1000 \<longrightarrow>
            startWork_from e now deliveries i (account # rest) called =
              startWork_from e now deliveries (Suc i) rest called)"
  using assms
  by (simp add: autoComment_def autoComment_unnamed_def within_cooldown_def read_clock_def not_ready_def)

text \<open>Bob commented one second before the clock's first reading.\<close>

theorem cooldown_no_network_witness:
  "autoComment world1 ''766'' bob [alice, bob] (Some [alice, bob]) =
     (NotReady, \<lparr>accs = [alice, bob], disk = Some [alice, bob], trace = [], ticks = 1,
                 successfulComments = 0\<rparr>)
   \<and> autoComment_unnamed world1 ''766'' bob [alice, bob] (Some [alice, bob]) =
     (NotReady, \<lparr>accs = [alice, bob], disk = Some [alice, bob], trace = [], ticks = 1,
                 successfulComments = 0\<rparr>)
   \<and> startWork_from world1 (\<lambda>i. 1700000000000) (\<lambda>i. []) 0 [bob] [] = Finished []"
proof -
  have set: "truthy (getp bob ''lastComment'')"
    by (simp add: bob_def getp_def)
  have parses: "date_getTime world1 (getp bob ''lastComment'') = Some 1699999999000"
    by (simp add: bob_def getp_def world1_def)
  have recent: "date_now world1 0 - 1699999999000 < 24 * 60 * 60 * 1000"
    by (simp add: world1_def)
  have recent': "(\<lambda>i::nat. 1700000000000::int) 0 - 1699999999000 < 24 * 60 * 60 * 1000"
    by simp
  from cooldown_no_network [OF set parses, of "''766''" "[alice, bob]" "Some [alice, bob]"
      "\<lambda>i. 1700000000000" 0 "\<lambda>i. []" "[]" "[]"] recent recent'
  show ?thesis by simp
qed

section \<open>Isolation of the batch\<close>

text \<open>
  A rejected login is caught in \<^verbatim>\<open>processAccount\<close>, so the loop of \<^verbatim>\<open>startWork\<close> is never left
  by an error, and it calls \<^verbatim>\<open>processAccount\<close> for the eligible accounts in stored order for as
  long as each call returns.
\<close>

lemma processAccount_no_throw: "processAccount e account events \<noteq> Some (Inl err)"
  by (simp add: processAccount_def split: promise.splits)

lemma startWork_from_not_Failed:
  "startWork_from e now deliveries i accounts called \<noteq> Failed err visited"
proof (induction accounts arbitrary: i called)
  case Nil
  then show ?case by simp
next
  case (Cons a as)
  then show ?case
    by (auto simp: processAccount_no_throw split: option.splits sum.splits)
qed

lemma startWork_from_all:
  "(\<forall>j a. (j, a) \<in> set (enumerate i accounts) \<and> eligible e (now j) a \<longrightarrow>
        promise (deliver e a (deliveries j) (open_session a)) \<noteq> Pending) \<Longrightarrow>
   startWork_from e now deliveries i accounts called =
     Finished (called @ map snd (filter (\<lambda>(j, a). eligible e (now j) a) (enumerate i accounts)))"
proof (induction accounts arbitrary: i called)
  case Nil
  then show ?case by simp
next
  case (Cons a as)
  have rest: "\<forall>j b. (j, b) \<in> set (enumerate (Suc i) as) \<and> eligible e (now j) b \<longrightarrow>
        promise (deliver e b (deliveries j) (open_session b)) \<noteq> Pending"
    using Cons.prems by simp
  note IH = Cons.IH [OF rest]
  show ?case
  proof (cases "eligible e (now i) a")
    case True
    with Cons.prems have "promise (deliver e a (deliveries i) (open_session a)) \<noteq> Pending"
      by simp
    then have "processAccount e a (deliveries i) = Some (Inr ())"
      by (simp add: processAccount_def split: promise.splits)
    with True IH show ?thesis by (simp add: eligible_def)
  next
    case False
    with IH show ?thesis by (auto simp: eligible_def)
  qed
qed

text \<open>
  C7 on the code. The store holds Bob and then Alice, both past their cool-down. Bob logs on
  with his stored token, his web session starts the dispatcher, and a renewed token arrives
  while the dispatcher runs: the token listener resolves the promise, \<^verbatim>\<open>processAccount\<close>
  returns after the third delivery, and the loop of \<^verbatim>\<open>startWork\<close> goes on to call
  \<^verbatim>\<open>processAccount\<close> for Alice. At that moment Bob's \<^verbatim>\<open>autoComment\<close> has been called and has
  not returned, and \<^verbatim>\<open>logOff\<close> has not been called for him: the two accounts are processed at
  the same time, not one after the other. Without the token event \<^verbatim>\<open>processAccount\<close> does
  wait: it returns at the confirmed disconnection and not before.
\<close>

theorem startWork_overlaps_sessions:
  "startWork world1 (\<lambda>i. 1700086400000)
     (\<lambda>i. if i = 0 then [LoggedOn, WebSession, RefreshToken ''new'', AutoCommentReturned, Disconnected]
           else [LoggedOn, WebSession, AutoCommentReturned, Disconnected])
     (Some [bob, alice]) = Finished [bob, alice]
   \<and> deliver world1 bob
        [LoggedOn, WebSession, RefreshToken ''new'', AutoCommentReturned, Disconnected]
        (open_session bob) =
      deliver_all world1 bob [LoggedOn, WebSession, RefreshToken ''new''] (open_session bob)
   \<and> calls (deliver world1 bob
        [LoggedOn, WebSession, RefreshToken ''new'', AutoCommentReturned, Disconnected]
        (open_session bob)) =
      [LogOn [(''refreshToken'', JStr ''old'')], SetPersona 7, SetCookies, AutoComment,
       UpdateAccount (JStr ''bob'') [(''refreshToken'', JStr ''new'')]]
   \<and> autoComment_pending (deliver world1 bob
        [LoggedOn, WebSession, RefreshToken ''new'', AutoCommentReturned, Disconnected]
        (open_session bob)) = 1
   \<and> processAccount world1 bob [LoggedOn, WebSession] = None
   \<and> processAccount world1 bob [LoggedOn, WebSession, RefreshToken ''new''] = Some (Inr ())
   \<and> processAccount world1 bob [LoggedOn, WebSession, AutoCommentReturned] = None
   \<and> processAccount world1 bob [LoggedOn, WebSession, AutoCommentReturned, Disconnected] =
       Some (Inr ())"
  by (simp add: startWork_def loadAccounts_def processAccount_def deliver_all_def open_session_def
        resolve_def not_ready_def world1_def bob_def alice_def getp_def)

section \<open>The login promise\<close>

lemma session_inv_open: "session_inv (open_session account)"
  by (simp add: session_inv_def open_session_def)

lemma session_inv_handle: "session_inv s \<Longrightarrow> session_inv (handle e account ev s)"
  by (cases ev) (auto simp: session_inv_def resolve_def reject_def)

lemma session_inv_deliver_all: "session_inv s \<Longrightarrow> session_inv (deliver_all e account events s)"
  unfolding deliver_all_def
  by (induction events arbitrary: s) (simp_all add: session_inv_handle)

lemma token_kept_handle: "isTokenRefreshed s \<Longrightarrow> isTokenRefreshed (handle e account ev s)"
  by (cases ev) (auto simp: resolve_def reject_def)

lemma token_kept: "isTokenRefreshed s \<Longrightarrow> isTokenRefreshed (deliver_all e account events s)"
  unfolding deliver_all_def
  by (induction events arbitrary: s) (simp_all add: token_kept_handle)

text \<open>The moment \<^verbatim>\<open>await\<close> is released is the moment after some first deliveries.\<close>

lemma deliver_prefix: "\<exists>n. deliver e account events s = deliver_all e account (take n events) s"
proof (induction events arbitrary: s)
  case Nil
  then show ?case by (simp add: deliver_all_def)
next
  case (Cons ev events)
  show ?case
  proof (cases "promise s = Pending")
    case True
    from Cons.IH [of "handle e account ev s"] obtain n where
      "deliver e account events (handle e account ev s) =
       deliver_all e account (take n events) (handle e account ev s)" by blast
    with True have
      "deliver e account (ev # events) s = deliver_all e account (take (Suc n) (ev # events)) s"
      by (simp add: deliver_all_def)
    then show ?thesis by blast
  next
    case False
    then have "deliver e account (ev # events) s = deliver_all e account (take 0 (ev # events)) s"
      by (simp add: deliver_all_def)
    then show ?thesis by blast
  qed
qed

text \<open>
  C1 on the code. Alice has no stored token and logs on with her password. Her login is
  confirmed, the web session starts the dispatcher, the dispatcher returns, \<^verbatim>\<open>logOff\<close> is
  called and the disconnection is confirmed. Until then the promise is pending; the
  \<^verbatim>\<open>disconnected\<close> listener resolves it, and \<^verbatim>\<open>processAccount\<close> returns, with no token issued:
  \<^verbatim>\<open>isTokenRefreshed\<close> is false and no token was written to the store. The token that arrives
  afterwards is not waited for. The join of the two events is one-sided: a token after the
  login resolves the promise, a login after the token does not (the \<^verbatim>\<open>loggedOn\<close> listener
  does not look at \<^verbatim>\<open>isTokenRefreshed\<close>).
\<close>

theorem session_resolved_without_token:
  "\<not> truthy (getp alice ''refreshToken'')
   \<and> processAccount world1 alice
        [LoggedOn, WebSession, AutoCommentReturned, Disconnected, RefreshToken ''new''] = Some (Inr ())
   \<and> deliver world1 alice
        [LoggedOn, WebSession, AutoCommentReturned, Disconnected, RefreshToken ''new'']
        (open_session alice) =
      deliver_all world1 alice [LoggedOn, WebSession, AutoCommentReturned, Disconnected]
        (open_session alice)
   \<and> promise (deliver_all world1 alice [LoggedOn, WebSession, AutoCommentReturned]
        (open_session alice)) = Pending
   \<and> promise (deliver world1 alice
        [LoggedOn, WebSession, AutoCommentReturned, Disconnected, RefreshToken ''new'']
        (open_session alice)) = Resolved
   \<and> isLoggedOn (deliver world1 alice
        [LoggedOn, WebSession, AutoCommentReturned, Disconnected, RefreshToken ''new'']
        (open_session alice))
   \<and> \<not> isTokenRefreshed (deliver world1 alice
        [LoggedOn, WebSession, AutoCommentReturned, Disconnected, RefreshToken ''new'']
        (open_session alice))
   \<and> calls (deliver world1 alice
        [LoggedOn, WebSession, AutoCommentReturned, Disconnected, RefreshToken ''new'']
        (open_session alice)) =
      [LogOn [(''accountName'', JStr ''alice''), (''password'', JStr ''pw'')],
       SetPersona 7, SetCookies, AutoComment, LogOff]
   \<and> promise (deliver_all world1 alice [LoggedOn, RefreshToken ''new''] (open_session alice)) =
       Resolved
   \<and> promise (deliver_all world1 alice [RefreshToken ''new'', LoggedOn] (open_session alice)) =
       Pending"
  by (simp add: processAccount_def deliver_all_def open_session_def resolve_def alice_def getp_def)

section \<open>Closing the session\<close>

text \<open>
  C2 on the code. Bob logs on with his stored token, the web session starts the dispatcher,
  and a renewed token arrives while the dispatcher runs. The token listener resolves the
  promise: \<^verbatim>\<open>processAccount\<close> returns to \<^verbatim>\<open>startWork\<close> after the third delivery, with the
  call of \<^verbatim>\<open>autoComment\<close> not yet returned, \<^verbatim>\<open>logOff\<close> not called and no disconnection
  confirmed.
\<close>

theorem processAccount_returns_before_logOff:
  "processAccount world1 bob
     [LoggedOn, WebSession, RefreshToken ''new'', AutoCommentReturned, Disconnected] = Some (Inr ())
   \<and> deliver world1 bob
        [LoggedOn, WebSession, RefreshToken ''new'', AutoCommentReturned, Disconnected]
        (open_session bob) =
      deliver_all world1 bob [LoggedOn, WebSession, RefreshToken ''new''] (open_session bob)
   \<and> autoComment_pending (deliver world1 bob
        [LoggedOn, WebSession, RefreshToken ''new'', AutoCommentReturned, Disconnected]
        (open_session bob)) = 1
   \<and> LogOff \<notin> set (calls (deliver world1 bob
        [LoggedOn, WebSession, RefreshToken ''new'', AutoCommentReturned, Disconnected]
        (open_session bob)))"
  by (simp add: processAccount_def deliver_all_def open_session_def resolve_def bob_def getp_def)

section \<open>Steps of a run\<close>

lemma emit_simps [simp]:
  "trace (emit a s) = trace s @ [a]" "accs (emit a s) = accs s" "disk (emit a s) = disk s"
  "ticks (emit a s) = ticks s" "successfulComments (emit a s) = successfulComments s"
  by (simp_all add: emit_def)

lemma sleep_simps [simp]:
  "trace (sleep n s) = trace s @ [Sleep n]" "accs (sleep n s) = accs s" "disk (sleep n s) = disk s"
  "ticks (sleep n s) = ticks s" "successfulComments (sleep n s) = successfulComments s"
  by (simp_all add: sleep_def)

lemma persist_simps [simp]:
  "trace (persist l u s) = trace s" "ticks (persist l u s) = ticks s"
  "successfulComments (persist l u s) = successfulComments s"
  "accs (persist l u s) = fst (updateAccount (accs s) l u)"
  "disk (persist l u s) = Some (saveAccounts (fst (updateAccount (accs s) l u)))"
  by (simp_all add: persist_def updateAccount_def Let_def)

lemma stamp_rate_limit_simps [simp]:
  "trace (stamp_rate_limit e l s) = trace s" "ticks (stamp_rate_limit e l s) = Suc (ticks s)"
  "successfulComments (stamp_rate_limit e l s) = successfulComments s"
  by (simp_all add: stamp_rate_limit_def read_clock_def)

lemma stamp_lastComment_simps [simp]:
  "trace (stamp_lastComment e l s) = trace s" "ticks (stamp_lastComment e l s) = Suc (ticks s)"
  "successfulComments (stamp_lastComment e l s) = successfulComments s"
  by (simp_all add: stamp_lastComment_def read_clock_def)

lemma n_posts_simps [simp]:
  "n_posts [] = 0"
  "n_posts (a # tr) = (if is_post a then Suc (n_posts tr) else n_posts tr)"
  "n_posts (tr @ tr') = n_posts tr + n_posts tr'"
  by (simp_all add: n_posts_def)

lemma n_completes_simps [simp]:
  "n_completes [] = 0"
  "n_completes (a # tr) = (if is_complete a then Suc (n_completes tr) else n_completes tr)"
  "n_completes (tr @ tr') = n_completes tr + n_completes tr'"
  by (simp_all add: n_completes_def)

lemma n_fetches_simps [simp]:
  "n_fetches [] = 0"
  "n_fetches (a # tr) = (if a = GetSteamProfiles then Suc (n_fetches tr) else n_fetches tr)"
  "n_fetches (tr @ tr') = n_fetches tr + n_fetches tr'"
  by (simp_all add: n_fetches_def)

lemma getSteamProfiles_parts [simp]:
  "fst (getSteamProfiles e s) =
     map_sum id unwrap_data (steamprofiles_response e (n_fetches (trace s)))"
  "snd (getSteamProfiles e s) = emit GetSteamProfiles s"
  by (simp_all add: getSteamProfiles_def split: sum.splits)

lemma addSteamProfile_parts [simp]:
  "fst (addSteamProfile e steamId s) = addSteamProfile_response e steamId"
  "snd (addSteamProfile e steamId s) = emit (AddSteamProfile steamId) s"
  by (simp_all add: addSteamProfile_def)

lemma getTasks_parts [simp]:
  "fst (getTasks e p s) = getTasks_response e p"
  "snd (getTasks e p s) = emit (GetTasks p) s"
  by (simp_all add: getTasks_def)

lemma completeTask_parts [simp]:
  "fst (completeTask e a b c s) = completeTask_response e (n_completes (trace s))"
  "snd (completeTask e a b c s) = emit (CompleteTask a b c) s"
  by (simp_all add: completeTask_def)

lemma list_profiles_unnamed_state [simp]:
  "snd (list_profiles_unnamed e tables s) = emit GetSteamProfiles s"
  by (simp add: list_profiles_unnamed_def split_def split: sum.splits option.splits)

lemma isArray_truthy [simp]: "isArray v \<Longrightarrow> truthy v"
  by (cases v) simp_all

lemma list_ex_snoc: "list_ex P (xs @ [a]) = (list_ex P xs \<or> P a)"
  by (auto simp: list_ex_iff)

text \<open>Messages: what contains what.\<close>

lemma str_includes_prefix: "str_includes (a @ b) a"
proof (cases "a @ b")
  case Nil
  then show ?thesis by simp
next
  case (Cons c cs)
  have "take (length a) (a @ b) = a" by simp
  with Cons show ?thesis by simp
qed

lemma str_includes_suffix: "str_includes (a @ b) b"
proof (induction a)
  case Nil
  then show ?case using str_includes_prefix [of b "[]"] by simp
next
  case (Cons c a)
  then show ?case by simp
qed

lemma str_includes_length: "str_includes h n \<Longrightarrow> length n \<le> length h"
proof (induction h)
  case Nil
  then show ?case by simp
next
  case (Cons c h)
  from Cons.prems have "take (length n) (c # h) = n \<or> str_includes h n" by simp
  then show ?case
  proof
    assume "take (length n) (c # h) = n"
    then have "length (take (length n) (c # h)) = length n" by simp
    then show ?thesis by simp
  next
    assume "str_includes h n"
    with Cons.IH show ?thesis by simp
  qed
qed

lemma settings_message_transient: "transient settings_message"
  using str_includes_prefix [of settings_message "[]"] by (simp add: transient_def)

lemma too_frequent_not_settings: "\<not> str_includes too_frequent_message settings_message"
proof
  assume "str_includes too_frequent_message settings_message"
  from str_includes_length [OF this] show False
    by (simp add: too_frequent_message_def settings_message_def)
qed

lemma too_frequent_not_transient: "\<not> transient too_frequent_message"
  using str_includes_prefix [of too_frequent_message "[]"] too_frequent_not_settings
  by (simp add: transient_def)

section \<open>Shapes of the profile listing\<close>

lemma extract_unwrap:
  "extract_profiles (unwrap_data raw) =
     (case find isArray
             [raw, propv raw ''data'', propv raw ''profiles'', propv raw ''steamProfiles''] of
        Some a \<Rightarrow> Inr (Some a)
      | None \<Rightarrow> if raw = JNull then Inl TypeError else Inr None)"
proof (cases raw)
  case (JObj kvs)
  show ?thesis
  proof (cases "isArray (getp kvs ''data'')")
    case True
    then obtain xs where "getp kvs ''data'' = JArr xs" by (cases "getp kvs ''data''") simp_all
    with JObj show ?thesis by (simp add: extract_profiles_def unwrap_data_def)
  next
    case False
    with JObj show ?thesis by (simp add: extract_profiles_def unwrap_data_def)
  qed
qed (simp_all add: extract_profiles_def unwrap_data_def)

lemma unrecognised_unnamed:
  assumes "\<not> (truthy (getp account ''lastComment'') \<and> not_ready e account (date_now e 0))"
    and "steamprofiles_response e 0 = Inr raw"
    and "find isArray
           [raw, propv raw ''data'', propv raw ''profiles'', propv raw ''steamProfiles''] = None"
  shows "fst (autoComment_unnamed e steamID account accounts file) =
           (if raw = JNull then Caught TypeError else Malformed)"
    and "trace (snd (autoComment_unnamed e steamID account accounts file)) = [GetSteamProfiles]"
    and "successfulComments (snd (autoComment_unnamed e steamID account accounts file)) = 0"
proof -
  from assms(3) have ex: "extract_profiles (unwrap_data raw) =
      (if raw = JNull then Inl TypeError else Inr None)"
    by (simp add: extract_unwrap)
  have lp: "list_profiles_unnamed e ([], []) s =
      (if raw = JNull then Inl TypeError else Inr None, emit GetSteamProfiles s)"
    if "trace s = []" for s
    using that assms(2) ex by (simp add: list_profiles_unnamed_def getSteamProfiles_def)
  have rp: "resolve_profiles_unnamed e steamID s =
      (if raw = JNull then Inl TypeError else Inr None, emit GetSteamProfiles s)"
    if "trace s = []" for s
    using lp [OF that] by (simp add: resolve_profiles_unnamed_def)
  have d: "dispatch_unnamed e steamID login s =
      (if raw = JNull then Caught TypeError else Malformed, emit GetSteamProfiles s)"
    if "trace s = []" for s login
    using rp [OF that] by (simp add: dispatch_unnamed_def)
  let ?run = "autoComment_unnamed e steamID account accounts file"
  from assms(1) d
  show "fst ?run = (if raw = JNull then Caught TypeError else Malformed)"
    and "trace (snd ?run) = [GetSteamProfiles]"
    and "successfulComments (snd ?run) = 0"
    by (auto simp: autoComment_unnamed_def within_cooldown_def read_clock_def)
qed

lemma unrecognised_first:
  assumes "\<not> (truthy (getp account ''lastComment'') \<and> not_ready e account (date_now e 0))"
    and "steamprofiles_response e 0 = Inr raw"
    and "\<not> isArray (unwrap_data raw)"
  shows "fst (autoComment e steamID account accounts file) = Caught TypeError"
    and "trace (snd (autoComment e steamID account accounts file)) = [GetSteamProfiles]"
    and "successfulComments (snd (autoComment e steamID account accounts file)) = 0"
proof -
  have rp: "resolve_profiles e steamID s = (Inl TypeError, emit GetSteamProfiles s)"
    if "trace s = []" for s
    using that assms(2,3)
    by (simp add: resolve_profiles_def getSteamProfiles_def forEach_value_def)
  have d: "dispatch e steamID login s = (Caught TypeError, emit GetSteamProfiles s)"
    if "trace s = []" for s login
    using rp [OF that] by (simp add: dispatch_def)
  let ?run = "autoComment e steamID account accounts file"
  from assms(1) d
  show "fst ?run = Caught TypeError"
    and "trace (snd ?run) = [GetSteamProfiles]"
    and "successfulComments (snd ?run) = 0"
    by (auto simp: autoComment_def within_cooldown_def read_clock_def)
qed

lemma unwrap_data_array:
  "unwrap_data raw = (if isArray (propv raw ''data'') then propv raw ''data'' else raw)"
  by (cases raw) (simp_all add: unwrap_data_def)

lemma extract_first_array:
  "extract_profiles (unwrap_data raw) =
     (case first_array raw of
        Some a \<Rightarrow> Inr (Some a)
      | None \<Rightarrow> if raw = JNull then Inl TypeError else Inr None)"
  by (simp add: extract_unwrap first_array_def)

lemma list_profiles_unnamed_shape:
  assumes "steamprofiles_response e (n_fetches (trace s)) = Inr raw"
  shows "list_profiles_unnamed e tables s =
     ((case first_array raw of
         Some a \<Rightarrow> map_sum id Some (forEach_profile e (elements a) tables)
       | None \<Rightarrow> if raw = JNull then Inl TypeError else Inr None),
      emit GetSteamProfiles s)"
  using assms
  by (simp add: list_profiles_unnamed_def getSteamProfiles_def extract_first_array
        split: option.splits sum.splits)

lemma forEach_value_shape:
  "forEach_value e (unwrap_data raw) tables =
     (case find isArray [raw, propv raw ''data''] of
        Some a \<Rightarrow> forEach_profile e (elements a) tables
      | None \<Rightarrow> Inl TypeError)"
  by (cases raw) (simp_all add: forEach_value_def unwrap_data_def)

lemma unrecognised_second_unnamed:
  assumes "\<not> (truthy (getp account ''lastComment'') \<and> not_ready e account (date_now e 0))"
    and "steamprofiles_response e 0 = Inr raw0"
    and "first_array raw0 = Some a"
    and "forEach_profile e (elements a) ([], []) = Inr (ids, obj)"
    and "JStr steamID \<notin> set ids"
    and "addSteamProfile_response e steamID = None"
    and "steamprofiles_response e 1 = Inr raw"
    and "first_array raw = None"
  shows "fst (autoComment_unnamed e steamID account accounts file) =
           (if raw = JNull then Caught TypeError else Malformed)"
    and "trace (snd (autoComment_unnamed e steamID account accounts file)) =
           [GetSteamProfiles, AddSteamProfile steamID, GetSteamProfiles]"
    and "successfulComments (snd (autoComment_unnamed e steamID account accounts file)) = 0"
proof -
  have l1: "list_profiles_unnamed e ([], []) s = (Inr (Some (ids, obj)), emit GetSteamProfiles s)"
    if "trace s = []" for s
    using that assms(2,3,4) by (simp add: list_profiles_unnamed_shape)
  have l2: "list_profiles_unnamed e (ids, obj) (emit (AddSteamProfile steamID) (emit GetSteamProfiles s)) =
      (if raw = JNull then Inl TypeError else Inr None,
       emit GetSteamProfiles (emit (AddSteamProfile steamID) (emit GetSteamProfiles s)))"
    if "trace s = []" for s
    using that assms(7,8) by (simp add: list_profiles_unnamed_shape)
  have rp: "resolve_profiles_unnamed e steamID s =
      (if raw = JNull then Inl TypeError else Inr None,
       emit GetSteamProfiles (emit (AddSteamProfile steamID) (emit GetSteamProfiles s)))"
    if "trace s = []" for s
    using l1 [OF that] l2 [OF that] assms(5,6)
    by (simp add: resolve_profiles_unnamed_def addSteamProfile_def)
  have d: "dispatch_unnamed e steamID login s =
      (if raw = JNull then Caught TypeError else Malformed,
       emit GetSteamProfiles (emit (AddSteamProfile steamID) (emit GetSteamProfiles s)))"
    if "trace s = []" for s login
    using rp [OF that] by (simp add: dispatch_unnamed_def)
  let ?run = "autoComment_unnamed e steamID account accounts file"
  from assms(1) d
  show "fst ?run = (if raw = JNull then Caught TypeError else Malformed)"
    and "trace (snd ?run) = [GetSteamProfiles, AddSteamProfile steamID, GetSteamProfiles]"
    and "successfulComments (snd ?run) = 0"
    by (auto simp: autoComment_unnamed_def within_cooldown_def read_clock_def)
qed

lemma unrecognised_second:
  assumes "\<not> (truthy (getp account ''lastComment'') \<and> not_ready e account (date_now e 0))"
    and "steamprofiles_response e 0 = Inr raw0"
    and "find isArray [raw0, propv raw0 ''data''] = Some a"
    and "forEach_profile e (elements a) ([], []) = Inr (ids, obj)"
    and "JStr steamID \<notin> set ids"
    and "addSteamProfile_response e steamID = None"
    and "steamprofiles_response e 1 = Inr raw"
    and "find isArray [raw, propv raw ''data''] = None"
  shows "fst (autoComment e steamID account accounts file) = Caught TypeError"
    and "trace (snd (autoComment e steamID account accounts file)) =
           [GetSteamProfiles, AddSteamProfile steamID, GetSteamProfiles]"
    and "successfulComments (snd (autoComment e steamID account accounts file)) = 0"
proof -
  have f1: "forEach_value e (unwrap_data raw0) ([], []) = Inr (ids, obj)"
    using assms(3,4) by (simp add: forEach_value_shape)
  have f2: "forEach_value e (unwrap_data raw) (ids, obj) = Inl TypeError"
    using assms(8) by (simp add: forEach_value_shape)
  have rp: "resolve_profiles e steamID s =
      (Inl TypeError,
       emit GetSteamProfiles (emit (AddSteamProfile steamID) (emit GetSteamProfiles s)))"
    if "trace s = []" for s
    using that f1 f2 assms(2,5,6,7)
    by (simp add: resolve_profiles_def getSteamProfiles_def addSteamProfile_def)
  have d: "dispatch e steamID login s =
      (Caught TypeError,
       emit GetSteamProfiles (emit (AddSteamProfile steamID) (emit GetSteamProfiles s)))"
    if "trace s = []" for s login
    using rp [OF that] by (simp add: dispatch_def)
  let ?run = "autoComment e steamID account accounts file"
  from assms(1) d
  show "fst ?run = Caught TypeError"
    and "trace (snd ?run) = [GetSteamProfiles, AddSteamProfile steamID, GetSteamProfiles]"
    and "successfulComments (snd ?run) = 0"
    by (auto simp: autoComment_def within_cooldown_def read_clock_def)
qed

text \<open>
  C8, as the code has it. The client turns a body whose \<^verbatim>\<open>data\<close> is an array into that array
  and passes every other body on as it is. The second dispatcher takes the first array among
  the body and its fields \<^verbatim>\<open>data\<close>, \<^verbatim>\<open>profiles\<close> and \<^verbatim>\<open>steamProfiles\<close>, and goes through its
  elements. When none of the four is an array, at the first listing or at the listing after
  the registration of the profile, the run of an account that is not in its cool-down ends
  after that call, in the branch that logs the shape (or, for \<^verbatim>\<open>null\<close>, in the \<^verbatim>\<open>catch\<close>
  block), with no task fetched and no comment posted; \<^verbatim>\<open>autoComment\<close> returns. The first
  dispatcher takes what the client returns: it goes through the elements of the body or of
  its \<^verbatim>\<open>data\<close> when one of the two is an array, and ends in its \<^verbatim>\<open>catch\<close> block on every
  other body, at either listing.
\<close>

theorem profile_shapes:
  "unwrap_data raw = (if isArray (propv raw ''data'') then propv raw ''data'' else raw)
   \<and> extract_profiles (unwrap_data raw) =
       (case first_array raw of
          Some a \<Rightarrow> Inr (Some a)
        | None \<Rightarrow> if raw = JNull then Inl TypeError else Inr None)
   \<and> (steamprofiles_response e (n_fetches (trace s)) = Inr raw \<longrightarrow>
        list_profiles_unnamed e tables s =
          ((case first_array raw of
              Some a \<Rightarrow> map_sum id Some (forEach_profile e (elements a) tables)
            | None \<Rightarrow> if raw = JNull then Inl TypeError else Inr None),
           emit GetSteamProfiles s))
   \<and> (\<not> (truthy (getp account ''lastComment'') \<and> not_ready e account (date_now e 0))
      \<and> steamprofiles_response e 0 = Inr raw
      \<and> first_array raw = None \<longrightarrow>
        fst (autoComment_unnamed e steamID account accounts file) =
          (if raw = JNull then Caught TypeError else Malformed)
        \<and> trace (snd (autoComment_unnamed e steamID account accounts file)) = [GetSteamProfiles]
        \<and> successfulComments (snd (autoComment_unnamed e steamID account accounts file)) = 0)
   \<and> (\<not> (truthy (getp account ''lastComment'') \<and> not_ready e account (date_now e 0))
      \<and> steamprofiles_response e 0 = Inr raw0
      \<and> first_array raw0 = Some a0
      \<and> forEach_profile e (elements a0) ([], []) = Inr (ids, obj)
      \<and> JStr steamID \<notin> set ids
      \<and> addSteamProfile_response e steamID = None
      \<and> steamprofiles_response e 1 = Inr raw
      \<and> first_array raw = None \<longrightarrow>
        fst (autoComment_unnamed e steamID account accounts file) =
          (if raw = JNull then Caught TypeError else Malformed)
        \<and> trace (snd (autoComment_unnamed e steamID account accounts file)) =
            [GetSteamProfiles, AddSteamProfile steamID, GetSteamProfiles]
        \<and> successfulComments (snd (autoComment_unnamed e steamID account accounts file)) = 0)
   \<and> forEach_value e (unwrap_data raw) tables =
       (case find isArray [raw, propv raw ''data''] of
          Some a \<Rightarrow> forEach_profile e (elements a) tables
        | None \<Rightarrow> Inl TypeError)
   \<and> (\<not> (truthy (getp account ''lastComment'') \<and> not_ready e account (date_now e 0))
      \<and> steamprofiles_response e 0 = Inr raw
      \<and> find isArray [raw, propv raw ''data''] = None \<longrightarrow>
        fst (autoComment e steamID account accounts file) = Caught TypeError
        \<and> trace (snd (autoComment e steamID account accounts file)) = [GetSteamProfiles]
        \<and> successfulComments (snd (autoComment e steamID account accounts file)) = 0)
   \<and> (\<not> (truthy (getp account ''lastComment'') \<and> not_ready e account (date_now e 0))
      \<and> steamprofiles_response e 0 = Inr raw0
      \<and> find isArray [raw0, propv raw0 ''data''] = Some a1
      \<and> forEach_profile e (elements a1) ([], []) = Inr (ids, obj)
      \<and> JStr steamID \<notin> set ids
      \<and> addSteamProfile_response e steamID = None
      \<and> steamprofiles_response e 1 = Inr raw
      \<and> find isArray [raw, propv raw ''data''] = None \<longrightarrow>
        fst (autoComment e steamID account accounts file) = Caught TypeError
        \<and> trace (snd (autoComment e steamID account accounts file)) =
            [GetSteamProfiles, AddSteamProfile steamID, GetSteamProfiles]
        \<and> successfulComments (snd (autoComment e steamID account accounts file)) = 0)"
proof -
  have no_array: "\<not> isArray (unwrap_data raw)" if "find isArray [raw, propv raw ''data''] = None"
    using that by (simp add: unwrap_data_array split: if_splits)
  have none: "find isArray
      [raw, propv raw ''data'', propv raw ''profiles'', propv raw ''steamProfiles''] = None"
    if "first_array raw = None"
    using that by (simp add: first_array_def)
  have c3: "steamprofiles_response e (n_fetches (trace s)) = Inr raw \<longrightarrow>
        list_profiles_unnamed e tables s =
          ((case first_array raw of
              Some a \<Rightarrow> map_sum id Some (forEach_profile e (elements a) tables)
            | None \<Rightarrow> if raw = JNull then Inl TypeError else Inr None),
           emit GetSteamProfiles s)"
    using list_profiles_unnamed_shape [of e s raw tables] by blast
  have c4: "\<not> (truthy (getp account ''lastComment'') \<and> not_ready e account (date_now e 0))
      \<and> steamprofiles_response e 0 = Inr raw
      \<and> first_array raw = None \<longrightarrow>
        fst (autoComment_unnamed e steamID account accounts file) =
          (if raw = JNull then Caught TypeError else Malformed)
        \<and> trace (snd (autoComment_unnamed e steamID account accounts file)) = [GetSteamProfiles]
        \<and> successfulComments (snd (autoComment_unnamed e steamID account accounts file)) = 0"
    using unrecognised_unnamed [of account e raw steamID accounts "file", OF _ _ none] by blast
  have c5: "\<not> (truthy (getp account ''lastComment'') \<and> not_ready e account (date_now e 0))
      \<and> steamprofiles_response e 0 = Inr raw0
      \<and> first_array raw0 = Some a0
      \<and> forEach_profile e (elements a0) ([], []) = Inr (ids, obj)
      \<and> JStr steamID \<notin> set ids
      \<and> addSteamProfile_response e steamID = None
      \<and> steamprofiles_response e 1 = Inr raw
      \<and> first_array raw = None \<longrightarrow>
        fst (autoComment_unnamed e steamID account accounts file) =
          (if raw = JNull then Caught TypeError else Malformed)
        \<and> trace (snd (autoComment_unnamed e steamID account accounts file)) =
            [GetSteamProfiles, AddSteamProfile steamID, GetSteamProfiles]
        \<and> successfulComments (snd (autoComment_unnamed e steamID account accounts file)) = 0"
    using unrecognised_second_unnamed [of account e raw0 a0 ids obj steamID raw accounts "file"]
    by blast
  have c7: "\<not> (truthy (getp account ''lastComment'') \<and> not_ready e account (date_now e 0))
      \<and> steamprofiles_response e 0 = Inr raw
      \<and> find isArray [raw, propv raw ''data''] = None \<longrightarrow>
        fst (autoComment e steamID account accounts file) = Caught TypeError
        \<and> trace (snd (autoComment e steamID account accounts file)) = [GetSteamProfiles]
        \<and> successfulComments (snd (autoComment e steamID account accounts file)) = 0"
    using unrecognised_first [of account e raw steamID accounts "file", OF _ _ no_array] by blast
  have c8: "\<not> (truthy (getp account ''lastComment'') \<and> not_ready e account (date_now e 0))
      \<and> steamprofiles_response e 0 = Inr raw0
      \<and> find isArray [raw0, propv raw0 ''data''] = Some a1
      \<and> forEach_profile e (elements a1) ([], []) = Inr (ids, obj)
      \<and> JStr steamID \<notin> set ids
      \<and> addSteamProfile_response e steamID = None
      \<and> steamprofiles_response e 1 = Inr raw
      \<and> find isArray [raw, propv raw ''data''] = None \<longrightarrow>
        fst (autoComment e steamID account accounts file) = Caught TypeError
        \<and> trace (snd (autoComment e steamID account accounts file)) =
            [GetSteamProfiles, AddSteamProfile steamID, GetSteamProfiles]
        \<and> successfulComments (snd (autoComment e steamID account accounts file)) = 0"
    using unrecognised_second [of account e raw0 a1 ids obj steamID raw accounts "file"]
    by blast
  show ?thesis
    by (intro conjI unwrap_data_array extract_first_array forEach_value_shape c3 c4 c5 c7 c8)
qed

text \<open>
  The listing answers Alice's run with a string, at once or after her registration; and it
  answers with the profiles in a field.
\<close>

theorem profile_shapes_witness:
  "unwrap_data (JObj [(''data'', JArr [profile1])]) = JArr [profile1]
   \<and> extract_profiles (unwrap_data (JObj [(''steamProfiles'', JArr [profile1])])) =
       Inr (Some (JArr [profile1]))
   \<and> extract_profiles (unwrap_data (JStr ''Too many requests'')) = Inr None
   \<and> fst (list_profiles_unnamed world_profiles ([], [])
            \<lparr>accs = [], disk = None, trace = [], ticks = 0, successfulComments = 0\<rparr>) =
       Inr (Some ([JStr ''765''], [(''765'', JNum 42)]))
   \<and> fst (autoComment_unnamed world_string ''765'' alice [alice] (Some [alice])) = Malformed
   \<and> trace (snd (autoComment_unnamed world_string ''765'' alice [alice] (Some [alice]))) =
       [GetSteamProfiles]
   \<and> fst (autoComment_unnamed world_second_string ''765'' alice [alice] (Some [alice])) = Malformed
   \<and> trace (snd (autoComment_unnamed world_second_string ''765'' alice [alice] (Some [alice]))) =
       [GetSteamProfiles, AddSteamProfile ''765'', GetSteamProfiles]
   \<and> forEach_value world_data (unwrap_data (JObj [(''data'', JArr [profile1])])) ([], []) =
       Inr ([JStr ''765''], [(''765'', JNum 42)])
   \<and> fst (autoComment world_string ''765'' alice [alice] (Some [alice])) = Caught TypeError
   \<and> trace (snd (autoComment world_string ''765'' alice [alice] (Some [alice]))) =
       [GetSteamProfiles]
   \<and> fst (autoComment world_second_string ''765'' alice [alice] (Some [alice])) = Caught TypeError
   \<and> trace (snd (autoComment world_second_string ''765'' alice [alice] (Some [alice]))) =
       [GetSteamProfiles, AddSteamProfile ''765'', GetSteamProfiles]"
proof -
  let ?str = "JStr ''Too many requests''"
  let ?s0 = "\<lparr>accs = [], disk = None, trace = [], ticks = 0, successfulComments = 0\<rparr>"
  let ?data = "JObj [(''data'', JArr [profile1])]"
  let ?profiles = "JObj [(''profiles'', JArr [profile1])]"
  let ?steamProfiles = "JObj [(''steamProfiles'', JArr [profile1])]"
  have ready: "\<not> (truthy (getp alice ''lastComment'') \<and> not_ready w alice (date_now w 0))" for w
    by (simp add: alice_def getp_def)
  have str: "first_array ?str = None" "find isArray [?str, propv ?str ''data''] = None"
    by (simp_all add: first_array_def)
  have empty: "first_array (JArr []) = Some (JArr [])"
    "find isArray [JArr [], propv (JArr []) ''data''] = Some (JArr [])"
    "forEach_profile world_second_string (elements (JArr [])) ([], []) = Inr ([], [])"
    "JStr ''765'' \<notin> set []"
    by (simp_all add: first_array_def)
  have w1: "steamprofiles_response world_string 0 = Inr ?str"
    by (simp add: world_string_def)
  have w2: "steamprofiles_response world_second_string 0 = Inr (JArr [])"
    "addSteamProfile_response world_second_string ''765'' = None"
    "steamprofiles_response world_second_string 1 = Inr ?str"
    by (simp_all add: world_second_string_def world1_def)
  have w3: "steamprofiles_response world_profiles (n_fetches (trace ?s0)) = Inr ?profiles"
    by (simp add: world_profiles_def)
  note at_first = profile_shapes [of ?str world_string ?s0 "([], [])" alice "''765''" "[alice]"
      "Some [alice]" "JArr []" "JArr []" "[]" "[]" "JArr []"]
  note at_second = profile_shapes [of ?str world_second_string ?s0 "([], [])" alice "''765''"
      "[alice]" "Some [alice]" "JArr []" "JArr []" "[]" "[]" "JArr []"]
  note in_data = profile_shapes [of ?data world_data ?s0 "([], [])" alice "''765''" "[alice]"
      "Some [alice]" "JArr []" "JArr []" "[]" "[]" "JArr []"]
  note in_steamProfiles = profile_shapes [of ?steamProfiles world1 ?s0 "([], [])" alice "''765''"
      "[alice]" "Some [alice]" "JArr []" "JArr []" "[]" "[]" "JArr []"]
  note in_profiles = profile_shapes [of ?profiles world_profiles ?s0 "([], [])" alice "''765''"
      "[alice]" "Some [alice]" "JArr []" "JArr []" "[]" "[]" "JArr []"]
  from in_data
  have "unwrap_data ?data = (if isArray (propv ?data ''data'') then propv ?data ''data'' else ?data)"
    by blast
  then have a: "unwrap_data ?data = JArr [profile1]"
    by (simp add: getp_def)
  from in_steamProfiles
  have "extract_profiles (unwrap_data ?steamProfiles) =
      (case first_array ?steamProfiles of
         Some a \<Rightarrow> Inr (Some a)
       | None \<Rightarrow> if ?steamProfiles = JNull then Inl TypeError else Inr None)"
    by blast
  then have b: "extract_profiles (unwrap_data ?steamProfiles) = Inr (Some (JArr [profile1]))"
    by (simp add: first_array_def getp_def)
  from at_first
  have "extract_profiles (unwrap_data ?str) =
      (case first_array ?str of
         Some a \<Rightarrow> Inr (Some a)
       | None \<Rightarrow> if ?str = JNull then Inl TypeError else Inr None)"
    by blast
  with str(1) have c: "extract_profiles (unwrap_data ?str) = Inr None"
    by simp
  from in_profiles w3
  have "list_profiles_unnamed world_profiles ([], []) ?s0 =
      ((case first_array ?profiles of
          Some a \<Rightarrow> map_sum id Some (forEach_profile world_profiles (elements a) ([], []))
        | None \<Rightarrow> if ?profiles = JNull then Inl TypeError else Inr None),
       emit GetSteamProfiles ?s0)"
    by blast
  then have d: "fst (list_profiles_unnamed world_profiles ([], []) ?s0) =
       Inr (Some ([JStr ''765''], [(''765'', JNum 42)]))"
    by (simp add: first_array_def getp_def profile1_def world_profiles_def world1_def)
  from in_data
  have "forEach_value world_data (unwrap_data ?data) ([], []) =
      (case find isArray [?data, propv ?data ''data''] of
         Some a \<Rightarrow> forEach_profile world_data (elements a) ([], [])
       | None \<Rightarrow> Inl TypeError)"
    by blast
  then have e: "forEach_value world_data (unwrap_data ?data) ([], []) =
       Inr ([JStr ''765''], [(''765'', JNum 42)])"
    by (simp add: getp_def profile1_def world_data_def world1_def)
  from at_first ready [of world_string] w1 str
  have f: "fst (autoComment_unnamed world_string ''765'' alice [alice] (Some [alice])) =
       (if ?str = JNull then Caught TypeError else Malformed)
     \<and> trace (snd (autoComment_unnamed world_string ''765'' alice [alice] (Some [alice]))) =
       [GetSteamProfiles]
     \<and> fst (autoComment world_string ''765'' alice [alice] (Some [alice])) = Caught TypeError
     \<and> trace (snd (autoComment world_string ''765'' alice [alice] (Some [alice]))) =
       [GetSteamProfiles]"
    by blast
  from at_second ready [of world_second_string] w2 str empty
  have g: "fst (autoComment_unnamed world_second_string ''765'' alice [alice] (Some [alice])) =
       (if ?str = JNull then Caught TypeError else Malformed)
     \<and> trace (snd (autoComment_unnamed world_second_string ''765'' alice [alice] (Some [alice]))) =
       [GetSteamProfiles, AddSteamProfile ''765'', GetSteamProfiles]
     \<and> fst (autoComment world_second_string ''765'' alice [alice] (Some [alice])) = Caught TypeError
     \<and> trace (snd (autoComment world_second_string ''765'' alice [alice] (Some [alice]))) =
       [GetSteamProfiles, AddSteamProfile ''765'', GetSteamProfiles]"
    by blast
  from a b c d e f g show ?thesis by simp
qed

text \<open>
  C8 as stated fails in \<^verbatim>\<open>src/index.js\<close>: the listing answers with the profiles in the field
  \<^verbatim>\<open>profiles\<close>. The client passes the object on, the first dispatcher calls \<^verbatim>\<open>forEach\<close> on it
  and ends in its \<^verbatim>\<open>catch\<close> block; the second dispatcher takes the array and posts.
\<close>

theorem profiles_field_not_taken:
  "steamprofiles_response world_profiles 0 = Inr (JObj [(''profiles'', JArr [profile1])])
   \<and> fst (getSteamProfiles world_profiles
            \<lparr>accs = [alice], disk = Some [alice], trace = [], ticks = 0, successfulComments = 0\<rparr>) =
       Inr (JObj [(''profiles'', JArr [profile1])])
   \<and> fst (autoComment world_profiles ''765'' alice [alice] (Some [alice])) = Caught TypeError
   \<and> trace (snd (autoComment world_profiles ''765'' alice [alice] (Some [alice]))) =
       [GetSteamProfiles]
   \<and> fst (autoComment_unnamed world_profiles ''765'' alice [alice] (Some [alice])) = Completed
   \<and> trace (snd (autoComment_unnamed world_profiles ''765'' alice [alice] (Some [alice]))) =
       [GetSteamProfiles, GetTasks (JNum 42), PostUserComment task1 None,
        CompleteTask (JNum 1) (JNum 2) (JNum 42), Sleep 15000]"
proof -
  note defs = autoComment_def dispatch_def finish_def autoComment_unnamed_def dispatch_unnamed_def
    finish_unnamed_def within_cooldown_def resolve_profiles_def forEach_value_def
    resolve_profiles_unnamed_def list_profiles_unnamed_def extract_profiles_def unwrap_data_def
    getSteamProfiles_def getTasks_def completeTask_def post_attempts.simps
    world_profiles_def world1_def profile1_def alice_def getp_def
  have a: "steamprofiles_response world_profiles 0 = Inr (JObj [(''profiles'', JArr [profile1])])"
    by (simp add: world_profiles_def)
  have b: "fst (getSteamProfiles world_profiles
            \<lparr>accs = [alice], disk = Some [alice], trace = [], ticks = 0, successfulComments = 0\<rparr>) =
       Inr (JObj [(''profiles'', JArr [profile1])])"
    by (simp add: world_profiles_def unwrap_data_def getp_def)
  have c: "fst (autoComment world_profiles ''765'' alice [alice] (Some [alice])) = Caught TypeError"
    by (simp add: defs)
  have d: "trace (snd (autoComment world_profiles ''765'' alice [alice] (Some [alice]))) =
       [GetSteamProfiles]"
    by (simp add: defs)
  have e: "fst (autoComment_unnamed world_profiles ''765'' alice [alice] (Some [alice])) = Completed"
    by (simp add: defs task1_def)
  have f: "trace (snd (autoComment_unnamed world_profiles ''765'' alice [alice] (Some [alice]))) =
       [GetSteamProfiles, GetTasks (JNum 42), PostUserComment task1 None,
        CompleteTask (JNum 1) (JNum 2) (JNum 42), Sleep 15000]"
    by (simp add: defs) (simp add: task1_def getp_def)
  from a b c d e f show ?thesis by blast
qed

section \<open>Stamps in the store\<close>

lemma map_of_filter_keys:
  "map_of (filter (\<lambda>(k, v). P k) xs) k = (if P k then map_of xs k else None)"
  by (induction xs) auto

lemma getp_stringify [simp]: "getp (stringify obj) k = getp obj k"
  by (simp add: stringify_def getp_def map_of_filter_keys [where P = "\<lambda>k. (case map_of obj k of None \<Rightarrow> JUndefined | Some v \<Rightarrow> v) \<noteq> JUndefined"])

lemma getAccount_saveAccounts:
  "getAccount (saveAccounts A) login = map_option stringify (getAccount A login)"
  by (induction A) (simp_all add: getAccount_def saveAccounts_def)

lemma find_append_list:
  "find P (xs @ ys) = (case find P xs of None \<Rightarrow> find P ys | Some x \<Rightarrow> Some x)"
  by (induction xs) auto

lemma getAccount_assign_found:
  "getAccount A login = Some r \<Longrightarrow> ''login'' \<notin> set (map fst upd) \<Longrightarrow>
   getAccount (assign_found login upd A) login = Some (Object_assign r upd)"
  by (induction A) (auto simp: getAccount_def getp_assign_other)

lemma strict_eq_refl_eq: "strict_eq a b \<Longrightarrow> a = b"
  by (cases a) simp_all

lemma updateAccount_found:
  assumes "strict_eq login login" and "''login'' \<notin> set (map fst upd)"
  shows "getAccount (fst (updateAccount A login upd)) login =
     Some (Object_assign (case getAccount A login of None \<Rightarrow> [(''login'', login)] | Some r \<Rightarrow> r) upd)"
proof (cases "getAccount A login")
  case None
  have "getp (Object_assign [(''login'', login)] upd) ''login'' = getp [(''login'', login)] ''login''"
    using assms(2) by (intro getp_assign_other) simp
  then have "getp (Object_assign [(''login'', login)] upd) ''login'' = login"
    by (simp add: getp_def)
  with None assms(1) show ?thesis
    by (simp add: updateAccount_def Let_def getAccount_def find_append_list)
next
  case (Some r)
  with assms(2) show ?thesis
    by (simp add: updateAccount_def Let_def getAccount_assign_found)
qed


lemma stamped_stamp_rate_limit:
  assumes "strict_eq login login"
  shows "stamped e login (stamp_rate_limit e login s)"
proof -
  let ?upd = "[(''commentCounter'', JNum 0),
               (''lastComment'', JStr (date_toISOString e (date_now e (ticks s))))]"
  let ?r0 = "case getAccount (accs s) login of None \<Rightarrow> [(''login'', login)] | Some r \<Rightarrow> r"
  have found: "getAccount (fst (updateAccount (accs s) login ?upd)) login = Some (Object_assign ?r0 ?upd)"
    using assms by (intro updateAccount_found) simp_all
  have cc: "getp (Object_assign ?r0 ?upd) ''commentCounter'' = JNum 0"
    by (rule getp_assign_named) simp_all
  have lc: "getp (Object_assign ?r0 ?upd) ''lastComment'' =
      JStr (date_toISOString e (date_now e (ticks s)))"
    by (rule getp_assign_named) simp_all
  from found cc lc show ?thesis
    by (simp add: stamped_def stamp_rate_limit_def read_clock_def)
qed

lemma stamped_stamp_lastComment:
  assumes "strict_eq login login" and "stamped e login s"
  shows "stamped e login (stamp_lastComment e login s)"
proof -
  let ?upd = "[(''lastComment'', JStr (date_toISOString e (date_now e (ticks s))))]"
  from assms(2) obtain r where r: "getAccount (accs s) login = Some r"
    "getp r ''commentCounter'' = JNum 0"
    by (auto simp: stamped_def)
  have found: "getAccount (fst (updateAccount (accs s) login ?upd)) login =
      Some (Object_assign (case getAccount (accs s) login of None \<Rightarrow> [(''login'', login)] | Some r \<Rightarrow> r) ?upd)"
    using assms(1) by (intro updateAccount_found) simp_all
  have cc: "getp (Object_assign r ?upd) ''commentCounter'' = getp r ''commentCounter''"
    by (rule getp_assign_other) simp
  have lc: "getp (Object_assign r ?upd) ''lastComment'' =
      JStr (date_toISOString e (date_now e (ticks s)))"
    by (rule getp_assign_named) simp_all
  from found r cc lc show ?thesis
    by (simp add: stamped_def stamp_lastComment_def read_clock_def)
qed

lemma stamped_persisted:
  assumes "stamped e login s"
  shows "persisted s login ''commentCounter'' = Some (JNum 0)"
    and "persisted s login ''lastComment'' =
           Some (JStr (date_toISOString e (date_now e (ticks s - 1))))"
  using assms by (auto simp: stamped_def persisted_def getAccount_saveAccounts)

section \<open>Rules for the loops\<close>

text \<open>
  An invariant \<open>Q\<close> of the states between two calls and a property \<open>R\<close> of the way a loop
  is left: one premise for each branch of the loop body.
\<close>

lemma post_attempts_rule:
  assumes nullish_task: "\<And>s. Q s \<Longrightarrow> nullish task \<Longrightarrow> R (Throw TypeError) s"
    and retry: "\<And>s m. Q s \<Longrightarrow> \<not> nullish task \<Longrightarrow>
        postUserComment_err e (n_posts (trace s)) = Some m \<Longrightarrow> transient m \<Longrightarrow>
        Q (sleep 5000 (emit (PostUserComment task (Some m)) s))"
    and stop: "\<And>s m. Q s \<Longrightarrow> \<not> nullish task \<Longrightarrow>
        postUserComment_err e (n_posts (trace s)) = Some m \<Longrightarrow> \<not> transient m \<Longrightarrow>
        R Return (stamp_rate_limit e login (emit (PostUserComment task (Some m)) s))"
    and refused: "\<And>s err. Q s \<Longrightarrow> \<not> nullish task \<Longrightarrow>
        postUserComment_err e (n_posts (trace s)) = None \<Longrightarrow>
        completeTask_response e (n_completes (trace s)) = Some err \<Longrightarrow>
        R (Throw err)
          (emit (CompleteTask (propv task ''taskId'') (propv task ''requiredCommentId'') profileId)
             (emit (PostUserComment task None) s))"
    and success: "\<And>s. Q s \<Longrightarrow> \<not> nullish task \<Longrightarrow>
        postUserComment_err e (n_posts (trace s)) = None \<Longrightarrow>
        completeTask_response e (n_completes (trace s)) = None \<Longrightarrow>
        R Normal
          ((emit (CompleteTask (propv task ''taskId'') (propv task ''requiredCommentId'') profileId)
             (emit (PostUserComment task None) s))
           \<lparr>successfulComments := Suc (successfulComments s)\<rparr>)"
    and exhausted: "\<And>s. Q s \<Longrightarrow> R Normal s"
  shows "Q s \<Longrightarrow>
     R (fst (post_attempts e login profileId task attemptCount s))
       (snd (post_attempts e login profileId task attemptCount s))"
proof (induction "3 - attemptCount" arbitrary: attemptCount s)
  case 0
  then have "post_attempts e login profileId task attemptCount s = (Normal, s)"
    by (subst post_attempts.simps) simp
  with exhausted [OF "0.prems"] show ?case by simp
next
  case (Suc n)
  then have lt: "attemptCount < 3" by simp
  from Suc.hyps have n: "n = 3 - Suc attemptCount" by simp
  show ?case
  proof (cases "nullish task")
    case True
    with lt have "post_attempts e login profileId task attemptCount s = (Throw TypeError, s)"
      by (subst post_attempts.simps) simp
    with nullish_task [OF Suc.prems True] show ?thesis by simp
  next
    case False
    show ?thesis
    proof (cases "postUserComment_err e (n_posts (trace s))")
      case None
      show ?thesis
      proof (cases "completeTask_response e (n_completes (trace s))")
        case no_err: None
        with lt False None have "post_attempts e login profileId task attemptCount s =
            (Normal, (emit (CompleteTask (propv task ''taskId'') (propv task ''requiredCommentId'') profileId)
               (emit (PostUserComment task None) s))\<lparr>successfulComments := Suc (successfulComments s)\<rparr>)"
          by (subst post_attempts.simps) (simp add: completeTask_def)
        with success [OF Suc.prems False None no_err] show ?thesis by simp
      next
        case (Some err)
        with lt False None have "post_attempts e login profileId task attemptCount s =
            (Throw err, emit (CompleteTask (propv task ''taskId'') (propv task ''requiredCommentId'') profileId)
               (emit (PostUserComment task None) s))"
          by (subst post_attempts.simps) (simp add: completeTask_def)
        with refused [OF Suc.prems False None Some] show ?thesis by simp
      qed
    next
      case (Some m)
      show ?thesis
      proof (cases "transient m")
        case True
        with lt False Some have "post_attempts e login profileId task attemptCount s =
            post_attempts e login profileId task (Suc attemptCount)
              (sleep 5000 (emit (PostUserComment task (Some m)) s))"
          by (subst post_attempts.simps) (auto simp: transient_def)
        with Suc.hyps(1) [OF n retry [OF Suc.prems False Some True]] show ?thesis by simp
      next
        case not_transient: False
        with lt False Some have "post_attempts e login profileId task attemptCount s =
            (Return, stamp_rate_limit e login (emit (PostUserComment task (Some m)) s))"
          by (subst post_attempts.simps) (auto simp: transient_def)
        with stop [OF Suc.prems False Some not_transient] show ?thesis by simp
      qed
    qed
  qed
qed

lemma comment_tasks_rule:
  assumes cap: "\<And>s. Q s \<Longrightarrow> 10 \<le> successfulComments s \<Longrightarrow> R Break s"
    and finished: "\<And>s. Q s \<Longrightarrow> R Normal s"
    and nullish_task: "\<And>s. Q s \<Longrightarrow> successfulComments s < 10 \<Longrightarrow> R (Throw TypeError) s"
    and retry: "\<And>s task m. Q s \<Longrightarrow> successfulComments s < 10 \<Longrightarrow> \<not> nullish task \<Longrightarrow>
        postUserComment_err e (n_posts (trace s)) = Some m \<Longrightarrow> transient m \<Longrightarrow>
        Q (sleep 5000 (emit (PostUserComment task (Some m)) s))"
    and stop: "\<And>s task m. Q s \<Longrightarrow> successfulComments s < 10 \<Longrightarrow> \<not> nullish task \<Longrightarrow>
        postUserComment_err e (n_posts (trace s)) = Some m \<Longrightarrow> \<not> transient m \<Longrightarrow>
        R Return (stamp_rate_limit e login (emit (PostUserComment task (Some m)) s))"
    and refused: "\<And>s task err. Q s \<Longrightarrow> successfulComments s < 10 \<Longrightarrow> \<not> nullish task \<Longrightarrow>
        postUserComment_err e (n_posts (trace s)) = None \<Longrightarrow>
        completeTask_response e (n_completes (trace s)) = Some err \<Longrightarrow>
        R (Throw err)
          (emit (CompleteTask (propv task ''taskId'') (propv task ''requiredCommentId'') profileId)
             (emit (PostUserComment task None) s))"
    and success: "\<And>s task. Q s \<Longrightarrow> successfulComments s < 10 \<Longrightarrow> \<not> nullish task \<Longrightarrow>
        postUserComment_err e (n_posts (trace s)) = None \<Longrightarrow>
        completeTask_response e (n_completes (trace s)) = None \<Longrightarrow>
        Q ((emit (CompleteTask (propv task ''taskId'') (propv task ''requiredCommentId'') profileId)
             (emit (PostUserComment task None) s))
           \<lparr>successfulComments := Suc (successfulComments s)\<rparr>)"
    and pause: "\<And>s. Q s \<Longrightarrow> Q (sleep 15000 s)"
  shows "Q s \<Longrightarrow>
     R (fst (comment_tasks e login profileId ts s)) (snd (comment_tasks e login profileId ts s))"
proof (induction ts arbitrary: s)
  case Nil
  with finished show ?case by simp
next
  case (Cons task rest)
  show ?case
  proof (cases "10 \<le> successfulComments s")
    case True
    with cap [OF Cons.prems] show ?thesis by simp
  next
    case False
    let ?inner = "post_attempts e login profileId task 0 s"
    let ?Q = "\<lambda>s. Q s \<and> successfulComments s < 10"
    let ?R = "\<lambda>sig s1. if sig = Normal then Q s1 else R sig s1"
    have inner: "?R (fst ?inner) (snd ?inner)"
    proof (rule post_attempts_rule [where Q = ?Q and R = ?R])
      show "?Q s" using Cons.prems False by simp
    qed (use nullish_task retry stop refused success in \<open>simp_all\<close>)
    show ?thesis
    proof (cases "fst ?inner = Normal")
      case True
      with inner have "Q (snd ?inner)" by simp
      from Cons.IH [OF pause [OF this]] True False show ?thesis
        by (simp add: split_def)
    next
      case not_Normal: False
      with inner have "R (fst ?inner) (snd ?inner)" by simp
      with not_Normal False show ?thesis
        by (cases "fst ?inner") (simp_all add: split_def)
    qed
  qed
qed


lemma comment_tasks_unnamed_rule:
  assumes cap: "\<And>s. Q s \<Longrightarrow> 10 \<le> successfulComments s \<Longrightarrow> R Break s"
    and finished: "\<And>s. Q s \<Longrightarrow> R Normal s"
    and nullish_task: "\<And>s. Q s \<Longrightarrow> successfulComments s < 10 \<Longrightarrow> R (Throw TypeError) s"
    and skip: "\<And>s task m. Q s \<Longrightarrow> successfulComments s < 10 \<Longrightarrow> \<not> nullish task \<Longrightarrow>
        postUserComment_err e (n_posts (trace s)) = Some m \<Longrightarrow> transient m \<Longrightarrow>
        Q (sleep 15000 (emit (PostUserComment task (Some m)) s))"
    and stop: "\<And>s task m. Q s \<Longrightarrow> successfulComments s < 10 \<Longrightarrow> \<not> nullish task \<Longrightarrow>
        postUserComment_err e (n_posts (trace s)) = Some m \<Longrightarrow> \<not> transient m \<Longrightarrow>
        R Break (stamp_rate_limit e login (emit (PostUserComment task (Some m)) s))"
    and refused: "\<And>s task err. Q s \<Longrightarrow> successfulComments s < 10 \<Longrightarrow> \<not> nullish task \<Longrightarrow>
        postUserComment_err e (n_posts (trace s)) = None \<Longrightarrow>
        completeTask_response e (n_completes (trace s)) = Some err \<Longrightarrow>
        R (Throw err)
          (emit (CompleteTask (propv task ''taskId'') (propv task ''requiredCommentId'') profileId)
             (emit (PostUserComment task None) s))"
    and success: "\<And>s task. Q s \<Longrightarrow> successfulComments s < 10 \<Longrightarrow> \<not> nullish task \<Longrightarrow>
        postUserComment_err e (n_posts (trace s)) = None \<Longrightarrow>
        completeTask_response e (n_completes (trace s)) = None \<Longrightarrow>
        Q (sleep 15000
             ((emit (CompleteTask (propv task ''taskId'') (propv task ''requiredCommentId'') profileId)
                (emit (PostUserComment task None) s))
              \<lparr>successfulComments := Suc (successfulComments s)\<rparr>))"
  shows "Q s \<Longrightarrow>
     R (fst (comment_tasks_unnamed e login profileId ts s))
       (snd (comment_tasks_unnamed e login profileId ts s))"
proof (induction ts arbitrary: s)
  case Nil
  with finished show ?case by simp
next
  case (Cons task rest)
  show ?case
  proof (cases "10 \<le> successfulComments s")
    case True
    with cap [OF Cons.prems] show ?thesis by simp
  next
    case False
    then have lt: "successfulComments s < 10" by simp
    show ?thesis
    proof (cases "nullish task")
      case True
      with nullish_task [OF Cons.prems lt] False show ?thesis by simp
    next
      case present: False
      show ?thesis
      proof (cases "postUserComment_err e (n_posts (trace s))")
        case None
        show ?thesis
        proof (cases "completeTask_response e (n_completes (trace s))")
          case no_err: None
          from Cons.IH [OF success [OF Cons.prems lt present None no_err]] False present None no_err
          show ?thesis by (simp add: completeTask_def)
        next
          case (Some err)
          from refused [OF Cons.prems lt present None Some] False present None Some
          show ?thesis by (simp add: completeTask_def)
        qed
      next
        case (Some m)
        show ?thesis
        proof (cases "transient m")
          case True
          from Cons.IH [OF skip [OF Cons.prems lt present Some True]] False present Some True
          show ?thesis by (auto simp: transient_def)
        next
          case not_transient: False
          from stop [OF Cons.prems lt present Some not_transient] False present Some not_transient
          show ?thesis by (auto simp: transient_def)
        qed
      qed
    qed
  qed
qed

section \<open>The remote profile id\<close>

text \<open>
  What \<^verbatim>\<open>repSteamProfilesObj[steamID]\<close> holds after the listings: the two \<^verbatim>\<open>forEach\<close> loops
  write each profile's \<^verbatim>\<open>id\<close> under its \<^verbatim>\<open>steamId\<close>, a later profile over an earlier one.
\<close>

lemma forEach_profile_tables:
  assumes "forEach_profile e ps (ids, obj) = Inr (ids', obj')"
  shows "ids' = ids @ map (\<lambda>p. propv p ''steamId'') ps"
    and "getp obj' k =
       (case filter (\<lambda>p. toPropertyKey e (propv p ''steamId'') = k) ps of
          [] \<Rightarrow> getp obj k
        | p # qs \<Rightarrow> propv (last (p # qs)) ''id'')"
  using assms
proof (induction ps arbitrary: ids obj)
  case Nil
  { case 1 then show ?case by simp }
  { case 2 then show ?case by simp }
next
  case (Cons p ps)
  { case 1
    then have "forEach_profile e ps
        (ids @ [propv p ''steamId''],
         setp (toPropertyKey e (propv p ''steamId'')) (propv p ''id'') obj) = Inr (ids', obj')"
      by (simp split: if_splits)
    from Cons.IH(1) [OF this] show ?case by simp }
  { case 2
    then have "forEach_profile e ps
        (ids @ [propv p ''steamId''],
         setp (toPropertyKey e (propv p ''steamId'')) (propv p ''id'') obj) = Inr (ids', obj')"
      by (simp split: if_splits)
    from Cons.IH(2) [OF this] show ?case
      by (auto simp: getp_setp split: list.splits) }
qed

lemma remote_id_first:
  assumes "forEach_profile e ps ([], []) = Inr (ids, obj)"
  shows "getp obj steamID = remote_id e steamID ps"
  using forEach_profile_tables(2) [OF assms, of steamID]
  by (simp add: remote_id_def getp_def split: list.splits)

lemma remote_id_second:
  assumes "forEach_profile e ps ([], []) = Inr (ids, obj)"
    and "forEach_profile e qs (ids, obj) = Inr (ids', obj')"
  shows "getp obj' steamID = remote_id e steamID (ps @ qs)"
  using forEach_profile_tables(2) [OF assms(2), of steamID] remote_id_first [OF assms(1), of steamID]
  by (simp add: remote_id_def split: list.splits)

lemma forEach_value_Inr:
  "forEach_value e v tables = Inr r \<Longrightarrow> forEach_profile e (elements v) tables = Inr r"
  by (simp add: forEach_value_def split: if_splits)

lemma resolve_profiles_id:
  assumes "n_fetches (trace s) = 0" and "fst (resolve_profiles e steamID s) = Inr obj"
  shows "getp obj steamID = remote_id e steamID (listed steamID (listing e 0) (listing e 1))"
proof -
  from assms obtain raw0 where r0: "steamprofiles_response e 0 = Inr raw0"
    by (cases "steamprofiles_response e 0")
       (simp_all add: resolve_profiles_def getSteamProfiles_def)
  then have l0: "listing e 0 = elements (unwrap_data raw0)"
    by (simp add: listing_def)
  from assms r0 obtain ids1 obj1 where
    f1: "forEach_value e (unwrap_data raw0) ([], []) = Inr (ids1, obj1)"
    by (cases "forEach_value e (unwrap_data raw0) ([], [])")
       (auto simp: resolve_profiles_def getSteamProfiles_def)
  note p1 = forEach_value_Inr [OF f1, folded l0]
  from forEach_profile_tables(1) [OF p1]
  have ids1: "ids1 = map (\<lambda>p. propv p ''steamId'') (listing e 0)" by simp
  show ?thesis
  proof (cases "JStr steamID \<in> set ids1")
    case True
    with assms r0 f1 have "obj = obj1"
      by (simp add: resolve_profiles_def getSteamProfiles_def)
    with remote_id_first [OF p1, of steamID] True ids1 show ?thesis
      by (simp add: listed_def)
  next
    case False
    with assms r0 f1 have added: "addSteamProfile_response e steamID = None"
      by (cases "addSteamProfile_response e steamID")
         (simp_all add: resolve_profiles_def getSteamProfiles_def addSteamProfile_def)
    with assms r0 f1 False obtain raw1 where r1: "steamprofiles_response e 1 = Inr raw1"
      by (cases "steamprofiles_response e 1")
         (simp_all add: resolve_profiles_def getSteamProfiles_def addSteamProfile_def)
    then have l1: "listing e 1 = elements (unwrap_data raw1)"
      by (simp add: listing_def)
    from assms r0 f1 False added r1 obtain ids2 where
      f2: "forEach_value e (unwrap_data raw1) (ids1, obj1) = Inr (ids2, obj)"
      by (cases "forEach_value e (unwrap_data raw1) (ids1, obj1)")
         (auto simp: resolve_profiles_def getSteamProfiles_def addSteamProfile_def)
    note p2 = forEach_value_Inr [OF f2, folded l1]
    from remote_id_second [OF p1 p2, of steamID] False ids1 show ?thesis
      by (simp add: listed_def)
  qed
qed

lemma list_profiles_unnamed_Some:
  assumes "fst (list_profiles_unnamed e tables s) = Inr (Some tables')"
  shows "forEach_profile e (listing_unnamed e (n_fetches (trace s))) tables = Inr tables'"
proof -
  from assms obtain raw where r: "steamprofiles_response e (n_fetches (trace s)) = Inr raw"
    by (cases "steamprofiles_response e (n_fetches (trace s))")
       (simp_all add: list_profiles_unnamed_def getSteamProfiles_def)
  from assms r obtain a where a: "extract_profiles (unwrap_data raw) = Inr (Some a)"
    by (cases "extract_profiles (unwrap_data raw)")
       (auto simp: list_profiles_unnamed_def getSteamProfiles_def split: option.splits)
  from assms r a have "forEach_profile e (elements a) tables = Inr tables'"
    by (cases "forEach_profile e (elements a) tables")
       (simp_all add: list_profiles_unnamed_def getSteamProfiles_def)
  with r a show ?thesis by (simp add: listing_unnamed_def)
qed

lemma resolve_profiles_unnamed_id:
  assumes "n_fetches (trace s) = 0" and "fst (resolve_profiles_unnamed e steamID s) = Inr (Some obj)"
  shows "getp obj steamID =
     remote_id e steamID (listed steamID (listing_unnamed e 0) (listing_unnamed e 1))"
proof -
  let ?first = "list_profiles_unnamed e ([], []) s"
  from assms(2) obtain ids1 obj1 where f1: "fst ?first = Inr (Some (ids1, obj1))"
    by (cases "fst ?first")
       (auto simp: resolve_profiles_unnamed_def split_def split: option.splits)
  note p1 = list_profiles_unnamed_Some [OF f1, unfolded assms(1)]
  from forEach_profile_tables(1) [OF p1]
  have ids1: "ids1 = map (\<lambda>p. propv p ''steamId'') (listing_unnamed e 0)" by simp
  show ?thesis
  proof (cases "JStr steamID \<in> set ids1")
    case True
    with assms(2) f1 have "obj = obj1"
      by (simp add: resolve_profiles_unnamed_def split_def)
    with remote_id_first [OF p1, of steamID] True ids1 show ?thesis
      by (simp add: listed_def)
  next
    case False
    let ?s2 = "emit (AddSteamProfile steamID) (emit GetSteamProfiles s)"
    let ?second = "list_profiles_unnamed e (ids1, obj1) ?s2"
    from assms(2) f1 False have added: "addSteamProfile_response e steamID = None"
      by (cases "addSteamProfile_response e steamID")
         (simp_all add: resolve_profiles_unnamed_def split_def addSteamProfile_def)
    from assms(2) f1 False added obtain ids2 where f2: "fst ?second = Inr (Some (ids2, obj))"
      by (cases "fst ?second")
         (auto simp: resolve_profiles_unnamed_def split_def addSteamProfile_def
               split: option.splits)
    have "n_fetches (trace ?s2) = 1" using assms(1) by simp
    note p2 = list_profiles_unnamed_Some [OF f2, unfolded this]
    from remote_id_second [OF p1 p2, of steamID] False ids1 show ?thesis
      by (simp add: listed_def)
  qed
qed

section \<open>The parts of a run\<close>

lemma resolve_profiles_setup:
  "\<exists>em. list_all is_setup em \<and> snd (resolve_profiles e steamID s) = s\<lparr>trace := trace s @ em\<rparr>"
proof -
  have 1: "\<exists>em. list_all is_setup em \<and> emit GetSteamProfiles s = s\<lparr>trace := trace s @ em\<rparr>"
    by (rule exI [of _ "[GetSteamProfiles]"]) (simp add: emit_def)
  have 2: "\<exists>em. list_all is_setup em \<and>
      emit (AddSteamProfile steamID) (emit GetSteamProfiles s) = s\<lparr>trace := trace s @ em\<rparr>"
    by (rule exI [of _ "[GetSteamProfiles, AddSteamProfile steamID]"]) (simp add: emit_def)
  have 3: "\<exists>em. list_all is_setup em \<and>
      emit GetSteamProfiles (emit (AddSteamProfile steamID) (emit GetSteamProfiles s)) =
        s\<lparr>trace := trace s @ em\<rparr>"
    by (rule exI [of _ "[GetSteamProfiles, AddSteamProfile steamID, GetSteamProfiles]"])
       (simp add: emit_def)
  have "snd (resolve_profiles e steamID s) = emit GetSteamProfiles s
      \<or> snd (resolve_profiles e steamID s) = emit (AddSteamProfile steamID) (emit GetSteamProfiles s)
      \<or> snd (resolve_profiles e steamID s) =
          emit GetSteamProfiles (emit (AddSteamProfile steamID) (emit GetSteamProfiles s))"
    by (simp add: resolve_profiles_def split_def split: sum.splits option.splits)
  with 1 2 3 show ?thesis by (elim disjE) simp_all
qed

lemma resolve_profiles_unnamed_setup:
  "\<exists>em. list_all is_setup em \<and>
     snd (resolve_profiles_unnamed e steamID s) = s\<lparr>trace := trace s @ em\<rparr>"
proof -
  have 1: "\<exists>em. list_all is_setup em \<and> emit GetSteamProfiles s = s\<lparr>trace := trace s @ em\<rparr>"
    by (rule exI [of _ "[GetSteamProfiles]"]) (simp add: emit_def)
  have 2: "\<exists>em. list_all is_setup em \<and>
      emit (AddSteamProfile steamID) (emit GetSteamProfiles s) = s\<lparr>trace := trace s @ em\<rparr>"
    by (rule exI [of _ "[GetSteamProfiles, AddSteamProfile steamID]"]) (simp add: emit_def)
  have 3: "\<exists>em. list_all is_setup em \<and>
      emit GetSteamProfiles (emit (AddSteamProfile steamID) (emit GetSteamProfiles s)) =
        s\<lparr>trace := trace s @ em\<rparr>"
    by (rule exI [of _ "[GetSteamProfiles, AddSteamProfile steamID, GetSteamProfiles]"])
       (simp add: emit_def)
  have "snd (resolve_profiles_unnamed e steamID s) = emit GetSteamProfiles s
      \<or> snd (resolve_profiles_unnamed e steamID s) =
          emit (AddSteamProfile steamID) (emit GetSteamProfiles s)
      \<or> snd (resolve_profiles_unnamed e steamID s) =
          emit GetSteamProfiles (emit (AddSteamProfile steamID) (emit GetSteamProfiles s))"
    by (simp add: resolve_profiles_unnamed_def split_def split: sum.splits option.splits)
  with 1 2 3 show ?thesis by (elim disjE) simp_all
qed

lemma setup_quiet: "list_all is_setup em \<Longrightarrow> quiet em \<and> (\<forall>p. GetTasks p \<notin> set em)"
  by (induction em) (auto simp: quiet_def elim: is_setup.elims)

lemma pre_loop_after_setup:
  assumes "started account accounts s" and "list_all is_setup em"
  shows "pre_loop account accounts profileId (s\<lparr>trace := trace s @ em\<rparr>)"
    and "pre_loop account accounts profileId (emit (GetTasks profileId) (s\<lparr>trace := trace s @ em\<rparr>))"
  using assms setup_quiet [OF assms(2)]
  by (auto simp: started_def pre_loop_def quiet_def list_ex_iff)

lemma started_reset:
  "within_cooldown e account
       \<lparr>accs = accounts, disk = file, trace = [], ticks = 0, successfulComments = 0\<rparr> = (False, s1) \<Longrightarrow>
   started account accounts (persist (getp account ''login'') [(''commentCounter'', JNum 0)] s1)"
  by (auto simp: within_cooldown_def read_clock_def started_def split: if_splits)

lemma started_trace: "started account accounts s \<Longrightarrow> n_fetches (trace s) = 0"
  by (simp add: started_def)

lemma autoComment_parts:
  "autoComment e steamID account accounts file =
     (NotReady, \<lparr>accs = accounts, disk = file, trace = [], ticks = 1, successfulComments = 0\<rparr>)
   \<or> (\<exists>err s. autoComment e steamID account accounts file = (Caught err, s)
         \<and> pre_loop account accounts
             (remote_id e steamID (listed steamID (listing e 0) (listing e 1))) s)
   \<or> (\<exists>ts s3.
         pre_loop account accounts
           (remote_id e steamID (listed steamID (listing e 0) (listing e 1))) s3
         \<and> autoComment e steamID account accounts file =
             finish e (getp account ''login'')
               (comment_tasks e (getp account ''login'')
                  (remote_id e steamID (listed steamID (listing e 0) (listing e 1))) ts s3))"
proof -
  let ?s0 = "\<lparr>accs = accounts, disk = file, trace = [], ticks = 0, successfulComments = 0\<rparr>"
  let ?id = "remote_id e steamID (listed steamID (listing e 0) (listing e 1))"
  obtain b s1 where wc: "within_cooldown e account ?s0 = (b, s1)" by (cases "within_cooldown e account ?s0")
  show ?thesis
  proof (cases b)
    case True
    with wc have "s1 = ?s0\<lparr>ticks := 1\<rparr>"
      by (auto simp: within_cooldown_def read_clock_def split: if_splits)
    with wc True show ?thesis by (simp add: autoComment_def)
  next
    case False
    let ?s1 = "persist (getp account ''login'') [(''commentCounter'', JNum 0)] s1"
    from wc False have st: "started account accounts ?s1" by (simp add: started_reset)
    obtain r s2 where rp: "resolve_profiles e steamID ?s1 = (r, s2)"
      by (cases "resolve_profiles e steamID ?s1")
    from resolve_profiles_setup [of e steamID ?s1] rp obtain em where
      em: "list_all is_setup em" "s2 = ?s1\<lparr>trace := trace ?s1 @ em\<rparr>" by auto
    show ?thesis
    proof (cases r)
      case (Inl err)
      from pre_loop_after_setup(1) [OF st em(1), of ?id] em(2)
      have "pre_loop account accounts ?id s2" by simp
      moreover from wc False rp Inl
      have "autoComment e steamID account accounts file = (Caught err, s2)"
        by (simp add: autoComment_def dispatch_def)
      ultimately show ?thesis by blast
    next
      case (Inr obj)
      from rp Inr have "fst (resolve_profiles e steamID ?s1) = Inr obj" by simp
      from resolve_profiles_id [OF started_trace [OF st] this]
      have pid: "getp obj steamID = ?id" .
      let ?s3 = "emit (GetTasks ?id) s2"
      from pre_loop_after_setup(2) [OF st em(1), of ?id] em(2)
      have pl: "pre_loop account accounts ?id ?s3" by simp
      show ?thesis
      proof (cases "getTasks_response e ?id")
        case failed: (Inl err)
        with wc False rp Inr pid have "autoComment e steamID account accounts file = (Caught err, ?s3)"
          by (simp add: autoComment_def dispatch_def getTasks_def)
        with pl show ?thesis by blast
      next
        case tasks: (Inr tasks)
        show ?thesis
        proof (cases "iterate tasks")
          case not_iterable: (Inl err)
          with wc False rp Inr tasks pid
          have "autoComment e steamID account accounts file = (Caught err, ?s3)"
            by (simp add: autoComment_def dispatch_def getTasks_def)
          with pl show ?thesis by blast
        next
          case ts: (Inr ts)
          with wc False rp Inr tasks pid
          have "autoComment e steamID account accounts file =
              finish e (getp account ''login'') (comment_tasks e (getp account ''login'') ?id ts ?s3)"
            by (simp add: autoComment_def dispatch_def getTasks_def)
          with pl show ?thesis by blast
        qed
      qed
    qed
  qed
qed

lemma autoComment_unnamed_parts:
  "autoComment_unnamed e steamID account accounts file =
     (NotReady, \<lparr>accs = accounts, disk = file, trace = [], ticks = 1, successfulComments = 0\<rparr>)
   \<or> (\<exists>x s. autoComment_unnamed e steamID account accounts file = (x, s)
         \<and> (x = Malformed \<or> (\<exists>err. x = Caught err))
         \<and> pre_loop account accounts
             (remote_id e steamID (listed steamID (listing_unnamed e 0) (listing_unnamed e 1))) s)
   \<or> (\<exists>ts s3.
         pre_loop account accounts
           (remote_id e steamID (listed steamID (listing_unnamed e 0) (listing_unnamed e 1))) s3
         \<and> autoComment_unnamed e steamID account accounts file =
             finish_unnamed e (getp account ''login'')
               (comment_tasks_unnamed e (getp account ''login'')
                  (remote_id e steamID (listed steamID (listing_unnamed e 0) (listing_unnamed e 1)))
                  ts s3))"
proof -
  let ?s0 = "\<lparr>accs = accounts, disk = file, trace = [], ticks = 0, successfulComments = 0\<rparr>"
  let ?id = "remote_id e steamID (listed steamID (listing_unnamed e 0) (listing_unnamed e 1))"
  obtain b s1 where wc: "within_cooldown e account ?s0 = (b, s1)" by (cases "within_cooldown e account ?s0")
  show ?thesis
  proof (cases b)
    case True
    with wc have "s1 = ?s0\<lparr>ticks := 1\<rparr>"
      by (auto simp: within_cooldown_def read_clock_def split: if_splits)
    with wc True show ?thesis by (simp add: autoComment_unnamed_def)
  next
    case False
    let ?s1 = "persist (getp account ''login'') [(''commentCounter'', JNum 0)] s1"
    from wc False have st: "started account accounts ?s1" by (simp add: started_reset)
    obtain r s2 where rp: "resolve_profiles_unnamed e steamID ?s1 = (r, s2)"
      by (cases "resolve_profiles_unnamed e steamID ?s1")
    from resolve_profiles_unnamed_setup [of e steamID ?s1] rp obtain em where
      em: "list_all is_setup em" "s2 = ?s1\<lparr>trace := trace ?s1 @ em\<rparr>" by auto
    from pre_loop_after_setup(1) [OF st em(1), of ?id] em(2)
    have early: "pre_loop account accounts ?id s2" by simp
    show ?thesis
    proof (cases r)
      case (Inl err)
      with wc False rp
      have "autoComment_unnamed e steamID account accounts file = (Caught err, s2)"
        by (simp add: autoComment_unnamed_def dispatch_unnamed_def)
      with early show ?thesis by blast
    next
      case (Inr found)
      show ?thesis
      proof (cases found)
        case None
        with wc False rp Inr
        have "autoComment_unnamed e steamID account accounts file = (Malformed, s2)"
          by (simp add: autoComment_unnamed_def dispatch_unnamed_def)
        with early show ?thesis by blast
      next
        case (Some obj)
        from rp Inr Some have "fst (resolve_profiles_unnamed e steamID ?s1) = Inr (Some obj)"
          by simp
        from resolve_profiles_unnamed_id [OF started_trace [OF st] this]
        have pid: "getp obj steamID = ?id" .
        let ?s3 = "emit (GetTasks ?id) s2"
        from pre_loop_after_setup(2) [OF st em(1), of ?id] em(2)
        have pl: "pre_loop account accounts ?id ?s3" by simp
        show ?thesis
        proof (cases "getTasks_response e ?id")
          case failed: (Inl err)
          with wc False rp Inr Some pid
          have "autoComment_unnamed e steamID account accounts file = (Caught err, ?s3)"
            by (simp add: autoComment_unnamed_def dispatch_unnamed_def getTasks_def)
          with pl show ?thesis by blast
        next
          case tasks: (Inr tasks)
          show ?thesis
          proof (cases "iterate tasks")
            case not_iterable: (Inl err)
            with wc False rp Inr Some tasks pid
            have "autoComment_unnamed e steamID account accounts file = (Caught err, ?s3)"
              by (simp add: autoComment_unnamed_def dispatch_unnamed_def getTasks_def)
            with pl show ?thesis by blast
          next
            case ts: (Inr ts)
            with wc False rp Inr Some tasks pid
            have "autoComment_unnamed e steamID account accounts file =
                finish_unnamed e (getp account ''login'')
                  (comment_tasks_unnamed e (getp account ''login'') ?id ts ?s3)"
              by (simp add: autoComment_unnamed_def dispatch_unnamed_def getTasks_def)
            with pl show ?thesis by blast
          qed
        qed
      qed
    qed
  qed
qed

lemma autoComment_cases:
  "autoComment e steamID account accounts file =
     (NotReady, \<lparr>accs = accounts, disk = file, trace = [], ticks = 1, successfulComments = 0\<rparr>)
   \<or> (\<exists>err profileId s. autoComment e steamID account accounts file = (Caught err, s)
         \<and> pre_loop account accounts profileId s)
   \<or> (\<exists>profileId ts s3. pre_loop account accounts profileId s3
         \<and> autoComment e steamID account accounts file =
             finish e (getp account ''login'')
               (comment_tasks e (getp account ''login'') profileId ts s3))"
  using autoComment_parts [of e steamID account accounts "file"] by blast

lemma autoComment_unnamed_cases:
  "autoComment_unnamed e steamID account accounts file =
     (NotReady, \<lparr>accs = accounts, disk = file, trace = [], ticks = 1, successfulComments = 0\<rparr>)
   \<or> (\<exists>x profileId s. autoComment_unnamed e steamID account accounts file = (x, s)
         \<and> (x = Malformed \<or> (\<exists>err. x = Caught err)) \<and> pre_loop account accounts profileId s)
   \<or> (\<exists>profileId ts s3. pre_loop account accounts profileId s3
         \<and> autoComment_unnamed e steamID account accounts file =
             finish_unnamed e (getp account ''login'')
               (comment_tasks_unnamed e (getp account ''login'') profileId ts s3))"
  using autoComment_unnamed_parts [of e steamID account accounts "file"] by blast


section \<open>Transient failures\<close>

text \<open>
  C4, as the code has it. A task that is not \<^verbatim>\<open>null\<close>, met with fewer than 10 successes.
  In \<^verbatim>\<open>src/index.js\<close>: three transient failures in a row give three posts, each followed by
  a pause of 5 seconds, then the pause between tasks and the next task, with no completion
  report and the count, the store and the clock as they were; and after one transient failure
  the second attempt, when it succeeds, is reported and counted. In the second
  \<^verbatim>\<open>index.js\<close> one transient failure gives one post, the pause between tasks and the next
  task: there is no second attempt.
\<close>

theorem transient_failures:
  assumes "\<not> nullish task" and "successfulComments s < 10"
  shows "(transient m0 \<and> transient m1 \<and> transient m2
          \<and> postUserComment_err e (n_posts (trace s)) = Some m0
          \<and> postUserComment_err e (Suc (n_posts (trace s))) = Some m1
          \<and> postUserComment_err e (Suc (Suc (n_posts (trace s)))) = Some m2 \<longrightarrow>
          comment_tasks e login profileId (task # rest) s =
            comment_tasks e login profileId rest
              (s\<lparr>trace := trace s @
                  [PostUserComment task (Some m0), Sleep 5000,
                   PostUserComment task (Some m1), Sleep 5000,
                   PostUserComment task (Some m2), Sleep 5000, Sleep 15000]\<rparr>))
       \<and> (transient m0
          \<and> postUserComment_err e (n_posts (trace s)) = Some m0
          \<and> postUserComment_err e (Suc (n_posts (trace s))) = None
          \<and> completeTask_response e (n_completes (trace s)) = None \<longrightarrow>
          comment_tasks e login profileId (task # rest) s =
            comment_tasks e login profileId rest
              (s\<lparr>successfulComments := Suc (successfulComments s),
                 trace := trace s @
                  [PostUserComment task (Some m0), Sleep 5000,
                   PostUserComment task None, report_for profileId task, Sleep 15000]\<rparr>))
       \<and> (transient m0 \<and> postUserComment_err e (n_posts (trace s)) = Some m0 \<longrightarrow>
          comment_tasks_unnamed e login profileId (task # rest) s =
            comment_tasks_unnamed e login profileId rest
              (s\<lparr>trace := trace s @ [PostUserComment task (Some m0), Sleep 15000]\<rparr>))"
  using assms
  by (auto simp: transient_def sleep_def emit_def post_attempts.simps completeTask_def report_for_def)

text \<open>
  Alice's only task, with every post refused for the target's settings, and with the first
  post refused and the second accepted.
\<close>

theorem transient_failures_witness:
  "comment_tasks world_settings (JStr ''alice'') (JNum 42) [task1]
     \<lparr>accs = [alice], disk = Some [alice], trace = [], ticks = 0, successfulComments = 0\<rparr> =
     (Normal,
      \<lparr>accs = [alice], disk = Some [alice],
       trace = [PostUserComment task1 (Some settings_message), Sleep 5000,
                PostUserComment task1 (Some settings_message), Sleep 5000,
                PostUserComment task1 (Some settings_message), Sleep 5000, Sleep 15000],
       ticks = 0, successfulComments = 0\<rparr>)
   \<and> comment_tasks world_both (JStr ''alice'') (JNum 42) [task1]
     \<lparr>accs = [alice], disk = Some [alice], trace = [], ticks = 0, successfulComments = 0\<rparr> =
     (Normal,
      \<lparr>accs = [alice], disk = Some [alice],
       trace = [PostUserComment task1 (Some (settings_message @ '' / '' @ too_frequent_message)),
                Sleep 5000, PostUserComment task1 None,
                CompleteTask (JNum 1) (JNum 2) (JNum 42), Sleep 15000],
       ticks = 0, successfulComments = 1\<rparr>)
   \<and> comment_tasks_unnamed world_settings (JStr ''alice'') (JNum 42) [task1]
     \<lparr>accs = [alice], disk = Some [alice], trace = [], ticks = 0, successfulComments = 0\<rparr> =
     (Normal,
      \<lparr>accs = [alice], disk = Some [alice],
       trace = [PostUserComment task1 (Some settings_message), Sleep 15000],
       ticks = 0, successfulComments = 0\<rparr>)"
proof -
  let ?s = "\<lparr>accs = [alice], disk = Some [alice], trace = [], ticks = 0, successfulComments = 0\<rparr>"
  let ?both = "settings_message @ '' / '' @ too_frequent_message"
  have task: "\<not> nullish task1" by (simp add: task1_def)
  have few: "successfulComments ?s < 10" by simp
  have both: "transient ?both"
    using str_includes_prefix [of settings_message "'' / '' @ too_frequent_message"]
    by (simp add: transient_def)
  have refused: "\<And>n. postUserComment_err world_settings n = Some settings_message"
    by (simp add: world_settings_def)
  have first: "postUserComment_err world_both (n_posts (trace ?s)) = Some ?both"
    by (simp add: world_both_def world1_def)
  have second: "postUserComment_err world_both (Suc (n_posts (trace ?s))) = None"
    by (simp add: world_both_def world1_def)
  have accepted: "completeTask_response world_both (n_completes (trace ?s)) = None"
    by (simp add: world_both_def world1_def)
  note t = transient_failures [OF task few]
  from t [of settings_message settings_message settings_message world_settings
            "JStr ''alice''" "JNum 42" "[]"] settings_message_transient refused
  have 1: "comment_tasks world_settings (JStr ''alice'') (JNum 42) [task1] ?s =
      comment_tasks world_settings (JStr ''alice'') (JNum 42) []
        (?s\<lparr>trace := trace ?s @
            [PostUserComment task1 (Some settings_message), Sleep 5000,
             PostUserComment task1 (Some settings_message), Sleep 5000,
             PostUserComment task1 (Some settings_message), Sleep 5000, Sleep 15000]\<rparr>)"
    by blast
  from t [of ?both ?both ?both world_both "JStr ''alice''" "JNum 42" "[]"] both first second accepted
  have 2: "comment_tasks world_both (JStr ''alice'') (JNum 42) [task1] ?s =
      comment_tasks world_both (JStr ''alice'') (JNum 42) []
        (?s\<lparr>successfulComments := Suc (successfulComments ?s),
           trace := trace ?s @
            [PostUserComment task1 (Some ?both), Sleep 5000,
             PostUserComment task1 None, report_for (JNum 42) task1, Sleep 15000]\<rparr>)"
    by blast
  from t [of settings_message settings_message settings_message world_settings
            "JStr ''alice''" "JNum 42" "[]"] settings_message_transient refused
  have 3: "comment_tasks_unnamed world_settings (JStr ''alice'') (JNum 42) [task1] ?s =
      comment_tasks_unnamed world_settings (JStr ''alice'') (JNum 42) []
        (?s\<lparr>trace := trace ?s @ [PostUserComment task1 (Some settings_message), Sleep 15000]\<rparr>)"
    by blast
  from 1 2 3 show ?thesis
    by (simp add: report_for_def task1_def getp_def)
qed

text \<open>
  C4 as stated fails in the second \<^verbatim>\<open>index.js\<close>: with every post refused for the target's
  settings, Alice's task is posted once, and the run goes on after the pause between tasks.
\<close>

theorem no_retry_in_second_version:
  "transient settings_message
   \<and> trace (snd (autoComment_unnamed world_settings ''765'' alice [alice] (Some [alice]))) =
      [GetSteamProfiles, GetTasks (JNum 42),
       PostUserComment task1 (Some settings_message), Sleep 15000]"
proof -
  have "str_includes settings_message settings_message"
    using str_includes_prefix [of settings_message "[]"] by simp
  then have "trace (snd (autoComment_unnamed world_settings ''765'' alice [alice] (Some [alice]))) =
      [GetSteamProfiles, GetTasks (JNum 42),
       PostUserComment task1 (Some settings_message), Sleep 15000]"
    by (simp add: autoComment_unnamed_def dispatch_unnamed_def finish_unnamed_def
          within_cooldown_def resolve_profiles_unnamed_def list_profiles_unnamed_def
          extract_profiles_def unwrap_data_def getSteamProfiles_def getTasks_def
          world_settings_def world1_def alice_def getp_def task1_def)
  with settings_message_transient show ?thesis by simp
qed

section \<open>Rate limit\<close>

lemma ends_rate_limited_snoc:
  "\<not> list_ex rate_limited tr \<Longrightarrow> rate_limited a \<Longrightarrow> ends_rate_limited (tr @ [a])"
  by (simp add: ends_rate_limited_def)

lemma rate_limited_is_post: "rate_limited a \<Longrightarrow> is_post a"
  by (cases a) simp_all

lemma quiet_no_rate_limited: "quiet tr \<Longrightarrow> \<not> list_ex rate_limited tr"
  by (auto simp: quiet_def list_ex_iff dest: rate_limited_is_post)

lemma comment_tasks_rate_limit:
  assumes "strict_eq login login" and "\<not> list_ex rate_limited (trace s)"
  shows "(fst (comment_tasks e login profileId ts s) = Return
          \<and> ends_rate_limited (trace (snd (comment_tasks e login profileId ts s)))
          \<and> stamped e login (snd (comment_tasks e login profileId ts s)))
       \<or> (fst (comment_tasks e login profileId ts s) \<noteq> Return
          \<and> \<not> list_ex rate_limited (trace (snd (comment_tasks e login profileId ts s))))"
  by (rule comment_tasks_rule
        [where Q = "\<lambda>s. \<not> list_ex rate_limited (trace s)"
           and R = "\<lambda>sig s. (sig = Return \<and> ends_rate_limited (trace s) \<and> stamped e login s)
                      \<or> (sig \<noteq> Return \<and> \<not> list_ex rate_limited (trace s))"])
     (use assms in \<open>auto simp: list_ex_snoc transient_def stamped_stamp_rate_limit
        intro!: ends_rate_limited_snoc\<close>)

lemma comment_tasks_unnamed_rate_limit:
  assumes "strict_eq login login" and "\<not> list_ex rate_limited (trace s)"
  shows "(fst (comment_tasks_unnamed e login profileId ts s) = Break
          \<and> ends_rate_limited (trace (snd (comment_tasks_unnamed e login profileId ts s)))
          \<and> stamped e login (snd (comment_tasks_unnamed e login profileId ts s)))
       \<or> \<not> list_ex rate_limited (trace (snd (comment_tasks_unnamed e login profileId ts s)))"
  by (rule comment_tasks_unnamed_rule
        [where Q = "\<lambda>s. \<not> list_ex rate_limited (trace s)"
           and R = "\<lambda>sig s. (sig = Break \<and> ends_rate_limited (trace s) \<and> stamped e login s)
                      \<or> \<not> list_ex rate_limited (trace s)"])
     (use assms in \<open>auto simp: list_ex_snoc transient_def stamped_stamp_rate_limit
        intro!: ends_rate_limited_snoc\<close>)

lemma autoComment_rate_limit:
  assumes "strict_eq (getp account ''login'') (getp account ''login'')"
  shows "(fst (autoComment e steamID account accounts file) = Critical
          \<and> ends_rate_limited (trace (snd (autoComment e steamID account accounts file)))
          \<and> stamped e (getp account ''login'') (snd (autoComment e steamID account accounts file)))
       \<or> \<not> list_ex rate_limited (trace (snd (autoComment e steamID account accounts file)))"
proof -
  let ?login = "getp account ''login''"
  from autoComment_cases [of e steamID account accounts "file"]
  consider "autoComment e steamID account accounts file =
      (NotReady, \<lparr>accs = accounts, disk = file, trace = [], ticks = 1, successfulComments = 0\<rparr>)"
    | err profileId s where "autoComment e steamID account accounts file = (Caught err, s)"
        "pre_loop account accounts profileId s"
    | profileId ts s3 where "pre_loop account accounts profileId s3"
        "autoComment e steamID account accounts file =
           finish e ?login (comment_tasks e ?login profileId ts s3)"
    by blast
  then show ?thesis
  proof cases
    case 1
    then show ?thesis by simp
  next
    case 2
    then show ?thesis by (simp add: pre_loop_def quiet_no_rate_limited)
  next
    case 3
    from 3(1) have "\<not> list_ex rate_limited (trace s3)"
      by (simp add: pre_loop_def quiet_no_rate_limited)
    from comment_tasks_rate_limit [OF assms this, of e profileId ts] 3(2)
    show ?thesis
      by (cases "fst (comment_tasks e ?login profileId ts s3)")
         (auto simp: finish_def split_def)
  qed
qed

lemma autoComment_unnamed_rate_limit:
  assumes "strict_eq (getp account ''login'') (getp account ''login'')"
  shows "(fst (autoComment_unnamed e steamID account accounts file) = Completed
          \<and> ends_rate_limited (trace (snd (autoComment_unnamed e steamID account accounts file)))
          \<and> stamped e (getp account ''login'') (snd (autoComment_unnamed e steamID account accounts file)))
       \<or> \<not> list_ex rate_limited (trace (snd (autoComment_unnamed e steamID account accounts file)))"
proof -
  let ?login = "getp account ''login''"
  from autoComment_unnamed_cases [of e steamID account accounts "file"]
  consider "autoComment_unnamed e steamID account accounts file =
      (NotReady, \<lparr>accs = accounts, disk = file, trace = [], ticks = 1, successfulComments = 0\<rparr>)"
    | x profileId s where "autoComment_unnamed e steamID account accounts file = (x, s)"
        "pre_loop account accounts profileId s"
    | profileId ts s3 where "pre_loop account accounts profileId s3"
        "autoComment_unnamed e steamID account accounts file =
           finish_unnamed e ?login (comment_tasks_unnamed e ?login profileId ts s3)"
    by blast
  then show ?thesis
  proof cases
    case 1
    then show ?thesis by simp
  next
    case 2
    then show ?thesis by (simp add: pre_loop_def quiet_no_rate_limited)
  next
    case 3
    from 3(1) have "\<not> list_ex rate_limited (trace s3)"
      by (simp add: pre_loop_def quiet_no_rate_limited)
    from comment_tasks_unnamed_rate_limit [OF assms this, of e profileId ts] 3(2) assms
    show ?thesis
      by (cases "fst (comment_tasks_unnamed e ?login profileId ts s3)")
         (auto simp: finish_unnamed_def split_def stamped_stamp_lastComment)
  qed
qed

lemma ends_rate_limited_split:
  assumes "ends_rate_limited tr" and "tr = before @ a # after" and "rate_limited a"
  shows "after = []"
proof (rule ccontr)
  assume "after \<noteq> []"
  with assms(2) have "butlast tr = before @ a # butlast after"
    by (simp add: butlast_append)
  with assms(3) have "list_ex rate_limited (butlast tr)" by (simp add: list_ex_iff)
  with assms(1) show False by (simp add: ends_rate_limited_def)
qed

text \<open>
  C3, as the code has it. The account's login is a string. Whenever a run has posted and the
  post failed with a message that names the posting frequency and not the settings, that
  post is the last call of the run: no further post, report or pause. The run ends by
  \<^verbatim>\<open>return\<close> in \<^verbatim>\<open>src/index.js\<close> and by \<^verbatim>\<open>break\<close> and the last statement in the second
  \<^verbatim>\<open>index.js\<close>; in both, the account's record in \<^verbatim>\<open>accounts.json\<close> then has
  \<^verbatim>\<open>commentCounter\<close> 0 and, as \<^verbatim>\<open>lastComment\<close>, the last reading of the clock.
\<close>

theorem rate_limit_stops_cycle:
  assumes "getp account ''login'' = JStr l"
  shows "(trace (snd (autoComment e steamID account accounts file)) =
            before @ PostUserComment task (Some message) # after
          \<and> str_includes message too_frequent_message
          \<and> \<not> str_includes message settings_message \<longrightarrow>
          after = []
          \<and> fst (autoComment e steamID account accounts file) = Critical
          \<and> persisted (snd (autoComment e steamID account accounts file)) (JStr l) ''commentCounter''
              = Some (JNum 0)
          \<and> persisted (snd (autoComment e steamID account accounts file)) (JStr l) ''lastComment''
              = Some (JStr (date_toISOString e (date_now e
                  (ticks (snd (autoComment e steamID account accounts file)) - 1)))))
       \<and> (trace (snd (autoComment_unnamed e steamID account accounts file)) =
            before @ PostUserComment task (Some message) # after
          \<and> str_includes message too_frequent_message
          \<and> \<not> str_includes message settings_message \<longrightarrow>
          after = []
          \<and> fst (autoComment_unnamed e steamID account accounts file) = Completed
          \<and> persisted (snd (autoComment_unnamed e steamID account accounts file)) (JStr l) ''commentCounter''
              = Some (JNum 0)
          \<and> persisted (snd (autoComment_unnamed e steamID account accounts file)) (JStr l) ''lastComment''
              = Some (JStr (date_toISOString e (date_now e
                  (ticks (snd (autoComment_unnamed e steamID account accounts file)) - 1)))))"
proof -
  have prim: "strict_eq (getp account ''login'') (getp account ''login'')"
    using assms by simp
  have hit: "rate_limited (PostUserComment task (Some message))"
    if "str_includes message too_frequent_message" "\<not> str_includes message settings_message"
    using that by simp
  show ?thesis
  proof (intro conjI impI)
    assume h: "trace (snd (autoComment e steamID account accounts file)) =
            before @ PostUserComment task (Some message) # after
          \<and> str_includes message too_frequent_message
          \<and> \<not> str_includes message settings_message"
    then have "list_ex rate_limited (trace (snd (autoComment e steamID account accounts file)))"
      by (simp add: list_ex_iff)
    with autoComment_rate_limit [OF prim, of e steamID accounts "file"]
    have r: "fst (autoComment e steamID account accounts file) = Critical"
      "ends_rate_limited (trace (snd (autoComment e steamID account accounts file)))"
      "stamped e (JStr l) (snd (autoComment e steamID account accounts file))"
      using assms by auto
    from ends_rate_limited_split [OF r(2)] h show "after = []" by simp
    from r(1) show "fst (autoComment e steamID account accounts file) = Critical" .
    from stamped_persisted [OF r(3)]
    show "persisted (snd (autoComment e steamID account accounts file)) (JStr l) ''commentCounter''
              = Some (JNum 0)"
      and "persisted (snd (autoComment e steamID account accounts file)) (JStr l) ''lastComment''
              = Some (JStr (date_toISOString e (date_now e
                  (ticks (snd (autoComment e steamID account accounts file)) - 1))))"
      by simp_all
  next
    assume h: "trace (snd (autoComment_unnamed e steamID account accounts file)) =
            before @ PostUserComment task (Some message) # after
          \<and> str_includes message too_frequent_message
          \<and> \<not> str_includes message settings_message"
    then have "list_ex rate_limited (trace (snd (autoComment_unnamed e steamID account accounts file)))"
      by (simp add: list_ex_iff)
    with autoComment_unnamed_rate_limit [OF prim, of e steamID accounts "file"]
    have r: "fst (autoComment_unnamed e steamID account accounts file) = Completed"
      "ends_rate_limited (trace (snd (autoComment_unnamed e steamID account accounts file)))"
      "stamped e (JStr l) (snd (autoComment_unnamed e steamID account accounts file))"
      using assms by auto
    from ends_rate_limited_split [OF r(2)] h show "after = []" by simp
    from r(1) show "fst (autoComment_unnamed e steamID account accounts file) = Completed" .
    from stamped_persisted [OF r(3)]
    show "persisted (snd (autoComment_unnamed e steamID account accounts file)) (JStr l) ''commentCounter''
              = Some (JNum 0)"
      and "persisted (snd (autoComment_unnamed e steamID account accounts file)) (JStr l) ''lastComment''
              = Some (JStr (date_toISOString e (date_now e
                  (ticks (snd (autoComment_unnamed e steamID account accounts file)) - 1))))"
      by simp_all
  qed
qed


text \<open>Alice's first post is refused for posting too frequently.\<close>

lemma frequent_run:
  "trace (snd (autoComment world_frequent ''765'' alice [alice] (Some [alice]))) =
     [GetSteamProfiles, GetTasks (JNum 42)] @ PostUserComment task1 (Some too_frequent_message) # []"
  "ticks (snd (autoComment world_frequent ''765'' alice [alice] (Some [alice]))) = 1"
  "trace (snd (autoComment_unnamed world_frequent ''765'' alice [alice] (Some [alice]))) =
     [GetSteamProfiles, GetTasks (JNum 42)] @ PostUserComment task1 (Some too_frequent_message) # []"
  "ticks (snd (autoComment_unnamed world_frequent ''765'' alice [alice] (Some [alice]))) = 2"
proof -
  have inc: "str_includes too_frequent_message too_frequent_message"
    using str_includes_prefix [of too_frequent_message "[]"] by simp
  note defs = autoComment_def dispatch_def finish_def autoComment_unnamed_def dispatch_unnamed_def
    finish_unnamed_def within_cooldown_def resolve_profiles_def forEach_value_def
    resolve_profiles_unnamed_def list_profiles_unnamed_def extract_profiles_def unwrap_data_def
    getSteamProfiles_def getTasks_def post_attempts.simps
    world_frequent_def world1_def alice_def getp_def task1_def
  from inc too_frequent_not_settings
  show "trace (snd (autoComment world_frequent ''765'' alice [alice] (Some [alice]))) =
     [GetSteamProfiles, GetTasks (JNum 42)] @ PostUserComment task1 (Some too_frequent_message) # []"
    and "ticks (snd (autoComment world_frequent ''765'' alice [alice] (Some [alice]))) = 1"
    and "trace (snd (autoComment_unnamed world_frequent ''765'' alice [alice] (Some [alice]))) =
     [GetSteamProfiles, GetTasks (JNum 42)] @ PostUserComment task1 (Some too_frequent_message) # []"
    and "ticks (snd (autoComment_unnamed world_frequent ''765'' alice [alice] (Some [alice]))) = 2"
    by (simp_all add: defs)
qed

theorem rate_limit_stops_cycle_witness:
  "fst (autoComment world_frequent ''765'' alice [alice] (Some [alice])) = Critical
   \<and> persisted (snd (autoComment world_frequent ''765'' alice [alice] (Some [alice])))
        (JStr ''alice'') ''commentCounter'' = Some (JNum 0)
   \<and> persisted (snd (autoComment world_frequent ''765'' alice [alice] (Some [alice])))
        (JStr ''alice'') ''lastComment'' = Some (JStr ''2023-11-14T22:13:20.000Z'')
   \<and> fst (autoComment_unnamed world_frequent ''765'' alice [alice] (Some [alice])) = Completed
   \<and> persisted (snd (autoComment_unnamed world_frequent ''765'' alice [alice] (Some [alice])))
        (JStr ''alice'') ''commentCounter'' = Some (JNum 0)
   \<and> persisted (snd (autoComment_unnamed world_frequent ''765'' alice [alice] (Some [alice])))
        (JStr ''alice'') ''lastComment'' = Some (JStr ''2023-11-14T22:13:20.001Z'')"
proof -
  have login: "getp alice ''login'' = JStr ''alice''"
    by (simp add: alice_def getp_def)
  have inc: "str_includes too_frequent_message too_frequent_message"
    using str_includes_prefix [of too_frequent_message "[]"] by simp
  have clock: "date_toISOString world_frequent (date_now world_frequent 0) = ''2023-11-14T22:13:20.000Z''"
    "date_toISOString world_frequent (date_now world_frequent 1) = ''2023-11-14T22:13:20.001Z''"
    by (simp_all add: world_frequent_def world1_def)
  from rate_limit_stops_cycle [OF login, of world_frequent "''765''" "[alice]" "Some [alice]"
      "[GetSteamProfiles, GetTasks (JNum 42)]" task1 too_frequent_message "[]"]
    frequent_run inc too_frequent_not_settings clock
  show ?thesis by simp
qed

text \<open>
  C3 as stated fails for a message that names the posting frequency and the settings: the
  test for the settings comes first, so the failure counts as transient. Here the first
  post is refused with such a message, and the run goes on to post again (the second task in
  the second \<^verbatim>\<open>index.js\<close>, the same task and then the second one in \<^verbatim>\<open>src/index.js\<close>).
\<close>

theorem rate_limit_message_not_final:
  "str_includes (settings_message @ '' / '' @ too_frequent_message) too_frequent_message
   \<and> trace (snd (autoComment_unnamed world_both ''765'' alice [alice] (Some [alice]))) =
      [GetSteamProfiles, GetTasks (JNum 42),
       PostUserComment task1 (Some (settings_message @ '' / '' @ too_frequent_message)),
       Sleep 15000,
       PostUserComment task2 None, CompleteTask (JNum 3) (JNum 4) (JNum 42), Sleep 15000]
   \<and> trace (snd (autoComment world_both ''765'' alice [alice] (Some [alice]))) =
      [GetSteamProfiles, GetTasks (JNum 42),
       PostUserComment task1 (Some (settings_message @ '' / '' @ too_frequent_message)),
       Sleep 5000,
       PostUserComment task1 None, CompleteTask (JNum 1) (JNum 2) (JNum 42), Sleep 15000,
       PostUserComment task2 None, CompleteTask (JNum 3) (JNum 4) (JNum 42), Sleep 15000]"
proof -
  let ?both = "settings_message @ '' / '' @ too_frequent_message"
  have frequent: "str_includes ?both too_frequent_message"
    using str_includes_suffix [of "settings_message @ '' / ''" too_frequent_message] by simp
  have settings: "str_includes ?both settings_message"
    by (rule str_includes_prefix)
  note defs = autoComment_def dispatch_def finish_def autoComment_unnamed_def dispatch_unnamed_def
    finish_unnamed_def within_cooldown_def resolve_profiles_def forEach_value_def
    resolve_profiles_unnamed_def list_profiles_unnamed_def extract_profiles_def unwrap_data_def
    getSteamProfiles_def getTasks_def completeTask_def post_attempts.simps
    world_both_def world1_def alice_def getp_def
  have second: "trace (snd (autoComment_unnamed world_both ''765'' alice [alice] (Some [alice]))) =
      [GetSteamProfiles, GetTasks (JNum 42), PostUserComment task1 (Some ?both), Sleep 15000,
       PostUserComment task2 None, CompleteTask (JNum 3) (JNum 4) (JNum 42), Sleep 15000]"
    using settings by (simp add: defs) (simp add: task1_def task2_def getp_def)
  have first: "trace (snd (autoComment world_both ''765'' alice [alice] (Some [alice]))) =
      [GetSteamProfiles, GetTasks (JNum 42), PostUserComment task1 (Some ?both), Sleep 5000,
       PostUserComment task1 None, CompleteTask (JNum 1) (JNum 2) (JNum 42), Sleep 15000,
       PostUserComment task2 None, CompleteTask (JNum 3) (JNum 4) (JNum 42), Sleep 15000]"
    using settings by (simp add: defs) (simp add: task1_def task2_def getp_def)
  from frequent second first show ?thesis by blast
qed

section \<open>Completion reports and the cap\<close>

lemma succeeded_append [simp]: "succeeded (tr @ tr') = succeeded tr @ succeeded tr'"
  by (induction tr rule: succeeded.induct) simp_all

lemma reports_simps [simp]:
  "reports [] = []"
  "reports (a # tr) = (if is_complete a then a # reports tr else reports tr)"
  "reports (tr @ tr') = reports tr @ reports tr'"
  by (simp_all add: reports_def)

lemma after_success_Nil [simp]: "after_success n [] = []"
  by (cases n) simp_all

lemma after_success_single: "after_success (Suc n) [a] = []"
proof (cases a)
  case (PostUserComment task err)
  then show ?thesis by (cases err) simp_all
qed simp_all

lemma after_success_short:
  "length (succeeded tr) < n \<Longrightarrow> after_success n (tr @ tr') = after_success (n - length (succeeded tr)) tr'"
proof (induction n tr rule: after_success.induct)
  case (3 n task tr)
  then show ?case by simp
qed simp_all

lemma after_success_snoc:
  "\<not> list_ex is_post (after_success n tr) \<Longrightarrow> (is_post a \<longrightarrow> length (succeeded tr) < n) \<Longrightarrow>
   \<not> list_ex is_post (after_success n (tr @ [a]))"
proof (induction n tr rule: after_success.induct)
  case (1 tr)
  then show ?case by (auto simp: list_ex_iff)
next
  case (2 n)
  then show ?case by (simp add: after_success_single)
next
  case (3 n task tr)
  then show ?case by simp
qed simp_all


lemma counted_emit:
  assumes "counted_exactly profileId s"
    and "is_post a \<longrightarrow> successfulComments s < 10"
    and "succeeded [a] = []" and "\<not> is_complete a" and "\<forall>p. a \<noteq> GetTasks p"
  shows "counted_exactly profileId (emit a s)"
proof -
  have "\<not> list_ex is_post (after_success 10 (trace s @ [a]))"
    by (rule after_success_snoc) (use assms(1,2) in \<open>simp_all add: counted_exactly_def counted_def\<close>)
  with assms show ?thesis
    by (auto simp: counted_exactly_def counted_def)
qed

lemma counted_sleep: "counted_exactly profileId s \<Longrightarrow> counted_exactly profileId (sleep n s)"
  unfolding sleep_def by (rule counted_emit) simp_all

lemma counted_stamp_rate_limit [simp]:
  "counted_exactly profileId (stamp_rate_limit e login s) = counted_exactly profileId s"
  by (simp add: counted_exactly_def counted_def)

lemma counted_stamp_lastComment [simp]:
  "counted_exactly profileId (stamp_lastComment e login s) = counted_exactly profileId s"
  "counted profileId (stamp_lastComment e login s) = counted profileId s"
  by (simp_all add: counted_exactly_def counted_def)

lemma counted_success:
  assumes "counted_exactly profileId s" and "successfulComments s < 10"
  shows "counted profileId (emit (report_for profileId task) (emit (PostUserComment task None) s))"
    and "counted_exactly profileId
           ((emit (report_for profileId task) (emit (PostUserComment task None) s))
            \<lparr>successfulComments := Suc (successfulComments s)\<rparr>)"
proof -
  have "\<not> list_ex is_post (after_success 10 (trace s @ [PostUserComment task None]))"
    by (rule after_success_snoc) (use assms in \<open>simp_all add: counted_exactly_def counted_def\<close>)
  then have "\<not> list_ex is_post
      (after_success 10 ((trace s @ [PostUserComment task None]) @ [report_for profileId task]))"
    by (rule after_success_snoc) (simp add: report_for_def)
  with assms
  show "counted profileId (emit (report_for profileId task) (emit (PostUserComment task None) s))"
    and "counted_exactly profileId
           ((emit (report_for profileId task) (emit (PostUserComment task None) s))
            \<lparr>successfulComments := Suc (successfulComments s)\<rparr>)"
    by (auto simp: counted_exactly_def counted_def report_for_def)
qed

lemma comment_tasks_counted:
  assumes "counted_exactly profileId s"
  shows "counted profileId (snd (comment_tasks e login profileId ts s))
     \<and> ((\<forall>err. fst (comment_tasks e login profileId ts s) \<noteq> Throw err) \<longrightarrow>
          counted_exactly profileId (snd (comment_tasks e login profileId ts s)))"
proof (rule comment_tasks_rule
        [where Q = "counted_exactly profileId"
           and R = "\<lambda>sig s. counted profileId s
                      \<and> ((\<forall>err. sig \<noteq> Throw err) \<longrightarrow> counted_exactly profileId s)"])
  show "counted_exactly profileId s" by (rule assms)
qed (auto simp: counted_sleep counted_emit counted_success [unfolded report_for_def]
       intro: counted_exactly_def [THEN iffD1, THEN conjunct1])

lemma comment_tasks_unnamed_counted:
  assumes "counted_exactly profileId s"
  shows "counted profileId (snd (comment_tasks_unnamed e login profileId ts s))
     \<and> ((\<forall>err. fst (comment_tasks_unnamed e login profileId ts s) \<noteq> Throw err) \<longrightarrow>
          counted_exactly profileId (snd (comment_tasks_unnamed e login profileId ts s)))"
proof (rule comment_tasks_unnamed_rule
        [where Q = "counted_exactly profileId"
           and R = "\<lambda>sig s. counted profileId s
                      \<and> ((\<forall>err. sig \<noteq> Throw err) \<longrightarrow> counted_exactly profileId s)"])
  show "counted_exactly profileId s" by (rule assms)
qed (auto simp: counted_sleep counted_emit counted_success [unfolded report_for_def]
       intro: counted_exactly_def [THEN iffD1, THEN conjunct1])


lemma succeeded_no_post: "\<not> list_ex is_post tr \<Longrightarrow> succeeded tr = []"
  by (induction tr rule: succeeded.induct) simp_all

lemma after_success_subset: "set (after_success n tr) \<subseteq> set tr"
  by (induction n tr rule: after_success.induct) auto

lemma after_success_no_post: "\<not> list_ex is_post tr \<Longrightarrow> \<not> list_ex is_post (after_success n tr)"
  using after_success_subset [of n tr] by (auto simp: list_ex_iff)

lemma reports_no_complete: "\<not> list_ex is_complete tr \<Longrightarrow> reports tr = []"
  by (induction tr) simp_all

lemma pre_loop_counted: "pre_loop account accounts profileId s \<Longrightarrow> counted_exactly profileId s"
  by (simp add: pre_loop_def quiet_def counted_exactly_def counted_def succeeded_no_post
        after_success_no_post reports_no_complete)

lemma autoComment_counted:
  "counted (remote_id e steamID (listed steamID (listing e 0) (listing e 1)))
     (snd (autoComment e steamID account accounts file))
   \<and> ((\<forall>err. fst (autoComment e steamID account accounts file) \<noteq> Caught err) \<longrightarrow>
        counted_exactly (remote_id e steamID (listed steamID (listing e 0) (listing e 1)))
          (snd (autoComment e steamID account accounts file)))"
proof -
  let ?login = "getp account ''login''"
  let ?id = "remote_id e steamID (listed steamID (listing e 0) (listing e 1))"
  from autoComment_parts [of e steamID account accounts "file"]
  consider "autoComment e steamID account accounts file =
      (NotReady, \<lparr>accs = accounts, disk = file, trace = [], ticks = 1, successfulComments = 0\<rparr>)"
    | err s where "autoComment e steamID account accounts file = (Caught err, s)"
        "pre_loop account accounts ?id s"
    | ts s3 where "pre_loop account accounts ?id s3"
        "autoComment e steamID account accounts file =
           finish e ?login (comment_tasks e ?login ?id ts s3)"
    by blast
  then show ?thesis
  proof cases
    case 1
    then show ?thesis by (simp add: counted_exactly_def counted_def)
  next
    case 2
    from pre_loop_counted [OF 2(2)] 2(1) show ?thesis
      by (auto simp: counted_exactly_def)
  next
    case 3
    from comment_tasks_counted [OF pre_loop_counted [OF 3(1)], of e ?login ts] 3(2)
    show ?thesis
      by (cases "fst (comment_tasks e ?login ?id ts s3)")
         (auto simp: finish_def split_def)
  qed
qed

lemma autoComment_unnamed_counted:
  "counted (remote_id e steamID (listed steamID (listing_unnamed e 0) (listing_unnamed e 1)))
     (snd (autoComment_unnamed e steamID account accounts file))
   \<and> ((\<forall>err. fst (autoComment_unnamed e steamID account accounts file) \<noteq> Caught err) \<longrightarrow>
        counted_exactly
          (remote_id e steamID (listed steamID (listing_unnamed e 0) (listing_unnamed e 1)))
          (snd (autoComment_unnamed e steamID account accounts file)))"
proof -
  let ?login = "getp account ''login''"
  let ?id = "remote_id e steamID (listed steamID (listing_unnamed e 0) (listing_unnamed e 1))"
  from autoComment_unnamed_parts [of e steamID account accounts "file"]
  consider "autoComment_unnamed e steamID account accounts file =
      (NotReady, \<lparr>accs = accounts, disk = file, trace = [], ticks = 1, successfulComments = 0\<rparr>)"
    | x s where "autoComment_unnamed e steamID account accounts file = (x, s)"
        "pre_loop account accounts ?id s"
    | ts s3 where "pre_loop account accounts ?id s3"
        "autoComment_unnamed e steamID account accounts file =
           finish_unnamed e ?login (comment_tasks_unnamed e ?login ?id ts s3)"
    by blast
  then show ?thesis
  proof cases
    case 1
    then show ?thesis by (simp add: counted_exactly_def counted_def)
  next
    case 2
    from pre_loop_counted [OF 2(2)] 2(1) show ?thesis
      by (auto simp: counted_exactly_def)
  next
    case 3
    from comment_tasks_unnamed_counted [OF pre_loop_counted [OF 3(1)], of e ?login ts] 3(2)
    show ?thesis
      by (cases "fst (comment_tasks_unnamed e ?login ?id ts s3)")
         (auto simp: finish_unnamed_def split_def)
  qed
qed

text \<open>The count of successes is the number of accepted reports.\<close>

lemma upt_shift: "[0..<n + m] = [0..<n] @ map (\<lambda>k. n + k) [0..<m]"
  by (induction m) simp_all

lemma accepted_simps [simp]:
  "accepted e [] = 0"
  "accepted e (tr @ tr') =
     accepted e tr +
     length (filter (\<lambda>k. completeTask_response e (n_completes tr + k) = None) [0..<n_completes tr'])"
  by (simp_all add: accepted_def upt_shift filter_map o_def)

lemma accepted_quiet: "quiet tr \<Longrightarrow> accepted e tr = 0"
proof -
  assume "quiet tr"
  then have "filter is_complete tr = []"
    by (simp add: quiet_def list_ex_iff filter_empty_conv)
  then show ?thesis by (simp add: accepted_def n_completes_def)
qed

lemma comment_tasks_accepted:
  assumes "successfulComments s = accepted e (trace s)"
  shows "successfulComments (snd (comment_tasks e login profileId ts s)) =
     accepted e (trace (snd (comment_tasks e login profileId ts s)))"
  by (rule comment_tasks_rule
        [where Q = "\<lambda>s. successfulComments s = accepted e (trace s)"
           and R = "\<lambda>sig s. successfulComments s = accepted e (trace s)"])
     (use assms in simp_all)

lemma comment_tasks_unnamed_accepted:
  assumes "successfulComments s = accepted e (trace s)"
  shows "successfulComments (snd (comment_tasks_unnamed e login profileId ts s)) =
     accepted e (trace (snd (comment_tasks_unnamed e login profileId ts s)))"
  by (rule comment_tasks_unnamed_rule
        [where Q = "\<lambda>s. successfulComments s = accepted e (trace s)"
           and R = "\<lambda>sig s. successfulComments s = accepted e (trace s)"])
     (use assms in simp_all)

lemma pre_loop_accepted:
  "pre_loop account accounts profileId s \<Longrightarrow> successfulComments s = accepted e (trace s)"
  by (simp add: pre_loop_def accepted_quiet)

lemma autoComment_accepted:
  "successfulComments (snd (autoComment e steamID account accounts file)) =
     accepted e (trace (snd (autoComment e steamID account accounts file)))"
proof -
  let ?login = "getp account ''login''"
  from autoComment_cases [of e steamID account accounts "file"]
  consider "autoComment e steamID account accounts file =
      (NotReady, \<lparr>accs = accounts, disk = file, trace = [], ticks = 1, successfulComments = 0\<rparr>)"
    | err profileId s where "autoComment e steamID account accounts file = (Caught err, s)"
        "pre_loop account accounts profileId s"
    | profileId ts s3 where "pre_loop account accounts profileId s3"
        "autoComment e steamID account accounts file =
           finish e ?login (comment_tasks e ?login profileId ts s3)"
    by blast
  then show ?thesis
  proof cases
    case 1
    then show ?thesis by simp
  next
    case 2
    from pre_loop_accepted [OF 2(2), of e] 2(1) show ?thesis by simp
  next
    case 3
    from comment_tasks_accepted [OF pre_loop_accepted [OF 3(1), of e], of ?login profileId ts] 3(2)
    show ?thesis
      by (cases "fst (comment_tasks e ?login profileId ts s3)")
         (auto simp: finish_def split_def)
  qed
qed

lemma autoComment_unnamed_accepted:
  "successfulComments (snd (autoComment_unnamed e steamID account accounts file)) =
     accepted e (trace (snd (autoComment_unnamed e steamID account accounts file)))"
proof -
  let ?login = "getp account ''login''"
  from autoComment_unnamed_cases [of e steamID account accounts "file"]
  consider "autoComment_unnamed e steamID account accounts file =
      (NotReady, \<lparr>accs = accounts, disk = file, trace = [], ticks = 1, successfulComments = 0\<rparr>)"
    | x profileId s where "autoComment_unnamed e steamID account accounts file = (x, s)"
        "pre_loop account accounts profileId s"
    | profileId ts s3 where "pre_loop account accounts profileId s3"
        "autoComment_unnamed e steamID account accounts file =
           finish_unnamed e ?login (comment_tasks_unnamed e ?login profileId ts s3)"
    by blast
  then show ?thesis
  proof cases
    case 1
    then show ?thesis by simp
  next
    case 2
    from pre_loop_accepted [OF 2(2), of e] 2(1) show ?thesis by simp
  next
    case 3
    from comment_tasks_unnamed_accepted [OF pre_loop_accepted [OF 3(1), of e], of ?login profileId ts]
      3(2)
    show ?thesis
      by (cases "fst (comment_tasks_unnamed e ?login profileId ts s3)")
         (auto simp: finish_unnamed_def split_def)
  qed
qed

text \<open>
  C5, as the code has it. In every run of either version the tasks are fetched for the remote
  id that the listings of the run give for the account's \<open>steamID\<close>, and the completion
  reports of the run are, in order, exactly the reports for the tasks whose post succeeded:
  one for each, with its task's \<^verbatim>\<open>taskId\<close> and \<^verbatim>\<open>requiredCommentId\<close> and that remote id. The
  count of successes is the number of reports that the remote API accepted: it is the number
  of successful posts when the run does not end in the \<^verbatim>\<open>catch\<close> block, and one behind it
  when the last report failed. At most 10 posts succeed, and nothing is posted after the
  tenth success: with 10 successes counted, the loop is left at the next task.
\<close>

theorem completion_reports:
  "(\<forall>p. GetTasks p \<in> set (trace (snd (autoComment e steamID account accounts file))) \<longrightarrow>
        p = remote_id e steamID (listed steamID (listing e 0) (listing e 1)))
   \<and> reports (trace (snd (autoComment e steamID account accounts file))) =
       map (report_for (remote_id e steamID (listed steamID (listing e 0) (listing e 1))))
         (succeeded (trace (snd (autoComment e steamID account accounts file))))
   \<and> successfulComments (snd (autoComment e steamID account accounts file)) =
       accepted e (trace (snd (autoComment e steamID account accounts file)))
   \<and> ((\<forall>err. fst (autoComment e steamID account accounts file) \<noteq> Caught err) \<longrightarrow>
        successfulComments (snd (autoComment e steamID account accounts file)) =
          length (succeeded (trace (snd (autoComment e steamID account accounts file)))))
   \<and> successfulComments (snd (autoComment e steamID account accounts file))
       \<le> length (succeeded (trace (snd (autoComment e steamID account accounts file))))
   \<and> length (succeeded (trace (snd (autoComment e steamID account accounts file))))
       \<le> Suc (successfulComments (snd (autoComment e steamID account accounts file)))
   \<and> length (succeeded (trace (snd (autoComment e steamID account accounts file)))) \<le> 10
   \<and> \<not> list_ex is_post
         (after_success 10 (trace (snd (autoComment e steamID account accounts file))))
   \<and> (\<forall>p. GetTasks p \<in> set (trace (snd (autoComment_unnamed e steamID account accounts file))) \<longrightarrow>
        p = remote_id e steamID (listed steamID (listing_unnamed e 0) (listing_unnamed e 1)))
   \<and> reports (trace (snd (autoComment_unnamed e steamID account accounts file))) =
       map (report_for
              (remote_id e steamID (listed steamID (listing_unnamed e 0) (listing_unnamed e 1))))
         (succeeded (trace (snd (autoComment_unnamed e steamID account accounts file))))
   \<and> successfulComments (snd (autoComment_unnamed e steamID account accounts file)) =
       accepted e (trace (snd (autoComment_unnamed e steamID account accounts file)))
   \<and> ((\<forall>err. fst (autoComment_unnamed e steamID account accounts file) \<noteq> Caught err) \<longrightarrow>
        successfulComments (snd (autoComment_unnamed e steamID account accounts file)) =
          length (succeeded (trace (snd (autoComment_unnamed e steamID account accounts file)))))
   \<and> successfulComments (snd (autoComment_unnamed e steamID account accounts file))
       \<le> length (succeeded (trace (snd (autoComment_unnamed e steamID account accounts file))))
   \<and> length (succeeded (trace (snd (autoComment_unnamed e steamID account accounts file))))
       \<le> Suc (successfulComments (snd (autoComment_unnamed e steamID account accounts file)))
   \<and> length (succeeded (trace (snd (autoComment_unnamed e steamID account accounts file)))) \<le> 10
   \<and> \<not> list_ex is_post
         (after_success 10 (trace (snd (autoComment_unnamed e steamID account accounts file))))
   \<and> (10 \<le> successfulComments s \<longrightarrow>
        comment_tasks e login profileId (task # rest) s = (Break, s)
        \<and> comment_tasks_unnamed e login profileId (task # rest) s = (Break, s))"
proof -
  let ?a = "autoComment e steamID account accounts file"
  let ?b = "autoComment_unnamed e steamID account accounts file"
  let ?ida = "remote_id e steamID (listed steamID (listing e 0) (listing e 1))"
  let ?idb = "remote_id e steamID (listed steamID (listing_unnamed e 0) (listing_unnamed e 1))"
  from autoComment_counted [of e steamID account accounts "file"]
  have a: "counted ?ida (snd ?a)"
    and a': "(\<forall>err. fst ?a \<noteq> Caught err) \<longrightarrow>
        successfulComments (snd ?a) = length (succeeded (trace (snd ?a)))"
    by (simp_all add: counted_exactly_def)
  from autoComment_unnamed_counted [of e steamID account accounts "file"]
  have b: "counted ?idb (snd ?b)"
    and b': "(\<forall>err. fst ?b \<noteq> Caught err) \<longrightarrow>
        successfulComments (snd ?b) = length (succeeded (trace (snd ?b)))"
    by (simp_all add: counted_exactly_def)
  note a_parts = a [unfolded counted_def]
  note b_parts = b [unfolded counted_def]
  have c: "10 \<le> successfulComments s \<longrightarrow>
        comment_tasks e login profileId (task # rest) s = (Break, s)
        \<and> comment_tasks_unnamed e login profileId (task # rest) s = (Break, s)"
    by simp
  show ?thesis
    by (intro conjI a' b' c autoComment_accepted autoComment_unnamed_accepted)
       (use a_parts b_parts in \<open>blast+\<close>)
qed

text \<open>Alice's only task succeeds; and the loop met with 10 successes already counted.\<close>

lemma alice_run:
  "fst (autoComment world1 ''765'' alice [alice] (Some [alice])) = Completed"
  "trace (snd (autoComment world1 ''765'' alice [alice] (Some [alice]))) =
     [GetSteamProfiles, GetTasks (JNum 42), PostUserComment task1 None,
      CompleteTask (JNum 1) (JNum 2) (JNum 42), Sleep 15000]"
  "fst (autoComment_unnamed world1 ''765'' alice [alice] (Some [alice])) = Completed"
  "trace (snd (autoComment_unnamed world1 ''765'' alice [alice] (Some [alice]))) =
     [GetSteamProfiles, GetTasks (JNum 42), PostUserComment task1 None,
      CompleteTask (JNum 1) (JNum 2) (JNum 42), Sleep 15000]"
proof -
  note defs = autoComment_def dispatch_def finish_def autoComment_unnamed_def dispatch_unnamed_def
    finish_unnamed_def within_cooldown_def resolve_profiles_def forEach_value_def
    resolve_profiles_unnamed_def list_profiles_unnamed_def extract_profiles_def unwrap_data_def
    getSteamProfiles_def getTasks_def completeTask_def post_attempts.simps
    world1_def alice_def getp_def
  have a: "autoComment world1 ''765'' alice [alice] (Some [alice]) =
      (Completed, snd (autoComment world1 ''765'' alice [alice] (Some [alice])))"
    by (simp add: defs task1_def)
  then show "fst (autoComment world1 ''765'' alice [alice] (Some [alice])) = Completed"
    by (metis fst_conv)
  show "trace (snd (autoComment world1 ''765'' alice [alice] (Some [alice]))) =
     [GetSteamProfiles, GetTasks (JNum 42), PostUserComment task1 None,
      CompleteTask (JNum 1) (JNum 2) (JNum 42), Sleep 15000]"
    by (simp add: defs) (simp add: task1_def getp_def)
  have b: "autoComment_unnamed world1 ''765'' alice [alice] (Some [alice]) =
      (Completed, snd (autoComment_unnamed world1 ''765'' alice [alice] (Some [alice])))"
    by (simp add: defs task1_def)
  then show "fst (autoComment_unnamed world1 ''765'' alice [alice] (Some [alice])) = Completed"
    by (metis fst_conv)
  show "trace (snd (autoComment_unnamed world1 ''765'' alice [alice] (Some [alice]))) =
     [GetSteamProfiles, GetTasks (JNum 42), PostUserComment task1 None,
      CompleteTask (JNum 1) (JNum 2) (JNum 42), Sleep 15000]"
    by (simp add: defs) (simp add: task1_def getp_def)
qed

theorem completion_reports_witness:
  "remote_id world1 ''765'' (listed ''765'' (listing world1 0) (listing world1 1)) = JNum 42
   \<and> remote_id world1 ''765''
        (listed ''765'' (listing_unnamed world1 0) (listing_unnamed world1 1)) = JNum 42
   \<and> reports (trace (snd (autoComment world1 ''765'' alice [alice] (Some [alice])))) =
     [CompleteTask (JNum 1) (JNum 2) (JNum 42)]
   \<and> successfulComments (snd (autoComment world1 ''765'' alice [alice] (Some [alice]))) = 1
   \<and> reports (trace (snd (autoComment_unnamed world1 ''765'' alice [alice] (Some [alice])))) =
     [CompleteTask (JNum 1) (JNum 2) (JNum 42)]
   \<and> successfulComments (snd (autoComment_unnamed world1 ''765'' alice [alice] (Some [alice]))) = 1
   \<and> comment_tasks world1 (JStr ''alice'') (JNum 42) [task1, task2]
        \<lparr>accs = [alice], disk = Some [alice], trace = [], ticks = 0, successfulComments = 10\<rparr> =
      (Break, \<lparr>accs = [alice], disk = Some [alice], trace = [], ticks = 0, successfulComments = 10\<rparr>)
   \<and> comment_tasks_unnamed world1 (JStr ''alice'') (JNum 42) [task1, task2]
        \<lparr>accs = [alice], disk = Some [alice], trace = [], ticks = 0, successfulComments = 10\<rparr> =
      (Break, \<lparr>accs = [alice], disk = Some [alice], trace = [], ticks = 0, successfulComments = 10\<rparr>)"
proof -
  let ?a = "autoComment world1 ''765'' alice [alice] (Some [alice])"
  let ?b = "autoComment_unnamed world1 ''765'' alice [alice] (Some [alice])"
  let ?ida = "remote_id world1 ''765'' (listed ''765'' (listing world1 0) (listing world1 1))"
  let ?idb = "remote_id world1 ''765''
        (listed ''765'' (listing_unnamed world1 0) (listing_unnamed world1 1))"
  let ?s = "\<lparr>accs = [alice], disk = Some [alice], trace = [], ticks = 0, successfulComments = 10\<rparr>"
  note c = completion_reports [of world1 "''765''" alice "[alice]" "Some [alice]" ?s
      "JStr ''alice''" "JNum 42" task1 "[task2]"]
  have full: "10 \<le> successfulComments ?s" by simp
  have fetched: "GetTasks (JNum 42) \<in> set (trace (snd ?a))" "GetTasks (JNum 42) \<in> set (trace (snd ?b))"
    by (simp_all add: alice_run)
  have ended: "\<forall>err. fst ?a \<noteq> Caught err" "\<forall>err. fst ?b \<noteq> Caught err"
    by (simp_all add: alice_run)
  have ok: "succeeded (trace (snd ?a)) = [task1]" "succeeded (trace (snd ?b)) = [task1]"
    by (simp_all add: alice_run)
  from c fetched(1) have ida: "?ida = JNum 42" by metis
  from c fetched(2) have idb: "?idb = JNum 42" by metis
  from c have "reports (trace (snd ?a)) = map (report_for ?ida) (succeeded (trace (snd ?a)))"
    by blast
  with ida ok(1) have ra: "reports (trace (snd ?a)) = [CompleteTask (JNum 1) (JNum 2) (JNum 42)]"
    by (simp add: report_for_def task1_def getp_def)
  from c have "reports (trace (snd ?b)) = map (report_for ?idb) (succeeded (trace (snd ?b)))"
    by blast
  with idb ok(2) have rb: "reports (trace (snd ?b)) = [CompleteTask (JNum 1) (JNum 2) (JNum 42)]"
    by (simp add: report_for_def task1_def getp_def)
  from c ended(1) have "successfulComments (snd ?a) = length (succeeded (trace (snd ?a)))"
    by blast
  with ok(1) have na: "successfulComments (snd ?a) = 1" by simp
  from c ended(2) have "successfulComments (snd ?b) = length (succeeded (trace (snd ?b)))"
    by blast
  with ok(2) have nb: "successfulComments (snd ?b) = 1" by simp
  from c full have "comment_tasks world1 (JStr ''alice'') (JNum 42) (task1 # [task2]) ?s = (Break, ?s)
      \<and> comment_tasks_unnamed world1 (JStr ''alice'') (JNum 42) (task1 # [task2]) ?s = (Break, ?s)"
    by blast
  with ida idb ra rb na nb show ?thesis by simp
qed

text \<open>
  C5 as stated fails: Alice's only post succeeds and the completion report fails. The call
  of \<^verbatim>\<open>api.completeTask\<close> was made, the error goes to the \<^verbatim>\<open>catch\<close> block, and the count of
  successes stays 0.
\<close>

theorem post_not_counted_when_report_fails:
  "fst (autoComment world_refused ''765'' alice [alice] (Some [alice])) =
     Caught (Failure ''fetch failed'')
   \<and> trace (snd (autoComment world_refused ''765'' alice [alice] (Some [alice]))) =
     [GetSteamProfiles, GetTasks (JNum 42), PostUserComment task1 None,
      CompleteTask (JNum 1) (JNum 2) (JNum 42)]
   \<and> successfulComments (snd (autoComment world_refused ''765'' alice [alice] (Some [alice]))) = 0
   \<and> fst (autoComment_unnamed world_refused ''765'' alice [alice] (Some [alice])) =
     Caught (Failure ''fetch failed'')
   \<and> trace (snd (autoComment_unnamed world_refused ''765'' alice [alice] (Some [alice]))) =
     [GetSteamProfiles, GetTasks (JNum 42), PostUserComment task1 None,
      CompleteTask (JNum 1) (JNum 2) (JNum 42)]
   \<and> successfulComments (snd (autoComment_unnamed world_refused ''765'' alice [alice] (Some [alice]))) = 0"
proof -
  note defs = autoComment_def dispatch_def finish_def autoComment_unnamed_def dispatch_unnamed_def
    finish_unnamed_def within_cooldown_def resolve_profiles_def forEach_value_def
    resolve_profiles_unnamed_def list_profiles_unnamed_def extract_profiles_def unwrap_data_def
    getSteamProfiles_def getTasks_def completeTask_def post_attempts.simps
    world_refused_def world1_def alice_def getp_def
  have a: "fst (autoComment world_refused ''765'' alice [alice] (Some [alice])) =
     Caught (Failure ''fetch failed'')"
    by (simp add: defs task1_def)
  have b: "trace (snd (autoComment world_refused ''765'' alice [alice] (Some [alice]))) =
     [GetSteamProfiles, GetTasks (JNum 42), PostUserComment task1 None,
      CompleteTask (JNum 1) (JNum 2) (JNum 42)]"
    by (simp add: defs) (simp add: task1_def getp_def)
  have c: "successfulComments (snd (autoComment world_refused ''765'' alice [alice] (Some [alice]))) = 0"
    by (simp add: defs task1_def)
  have d: "fst (autoComment_unnamed world_refused ''765'' alice [alice] (Some [alice])) =
     Caught (Failure ''fetch failed'')"
    by (simp add: defs task1_def)
  have e: "trace (snd (autoComment_unnamed world_refused ''765'' alice [alice] (Some [alice]))) =
     [GetSteamProfiles, GetTasks (JNum 42), PostUserComment task1 None,
      CompleteTask (JNum 1) (JNum 2) (JNum 42)]"
    by (simp add: defs) (simp add: task1_def getp_def)
  have f: "successfulComments (snd (autoComment_unnamed world_refused ''765'' alice [alice] (Some [alice]))) = 0"
    by (simp add: defs task1_def)
  from a b c d e f show ?thesis by blast
qed

section \<open>The stored counter\<close>

lemma erase_fields [simp]:
  "trace (erase s) = trace s" "ticks (erase s) = ticks s"
  "successfulComments (erase s) = successfulComments s"
  by (simp_all add: erase_def)

lemma erase_eq_fields:
  "erase s = erase t \<Longrightarrow> trace s = trace t \<and> ticks s = ticks t \<and> successfulComments s = successfulComments t"
  by (metis erase_fields)

lemma erase_steps [simp]:
  "erase (emit a s) = emit a (erase s)"
  "erase (sleep n s) = sleep n (erase s)"
  "erase (persist login upd s) = erase s"
  "erase (stamp_rate_limit e login s) = (erase s)\<lparr>ticks := Suc (ticks s)\<rparr>"
  "erase (stamp_lastComment e login s) = (erase s)\<lparr>ticks := Suc (ticks s)\<rparr>"
  "erase (s\<lparr>successfulComments := n\<rparr>) = (erase s)\<lparr>successfulComments := n\<rparr>"
  by (simp_all add: erase_def emit_def sleep_def persist_def stamp_rate_limit_def
        stamp_lastComment_def read_clock_def split_def Let_def)

lemma post_attempts_erase:
  "erase s = erase t \<Longrightarrow>
     fst (post_attempts e login profileId task attemptCount s) =
       fst (post_attempts e login' profileId task attemptCount t)
     \<and> erase (snd (post_attempts e login profileId task attemptCount s)) =
       erase (snd (post_attempts e login' profileId task attemptCount t))"
proof (induction "3 - attemptCount" arbitrary: attemptCount s t)
  case 0
  then show ?case
    by (simp add: post_attempts.simps [of _ _ _ _ attemptCount])
next
  case (Suc n)
  from Suc.prems have eq: "trace s = trace t" "ticks s = ticks t"
    "successfulComments s = successfulComments t"
    using erase_eq_fields by blast+
  from Suc.hyps have n: "n = 3 - Suc attemptCount" by simp
  have step: "erase (sleep 5000 (emit a s)) = erase (sleep 5000 (emit a t))" for a
    using Suc.prems by simp
  note IH = Suc.hyps(1) [OF n step]
  show ?case
    using Suc.prems eq IH
    by (simp add: post_attempts.simps [of _ _ _ _ attemptCount] completeTask_def
          split: option.splits)
qed

lemma comment_tasks_erase:
  "erase s = erase t \<Longrightarrow>
     fst (comment_tasks e login profileId ts s) = fst (comment_tasks e login' profileId ts t)
     \<and> erase (snd (comment_tasks e login profileId ts s)) =
       erase (snd (comment_tasks e login' profileId ts t))"
proof (induction ts arbitrary: s t)
  case Nil
  then show ?case by simp
next
  case (Cons task rest)
  from Cons.prems have eq: "successfulComments s = successfulComments t"
    using erase_eq_fields by blast
  from post_attempts_erase [OF Cons.prems, of e login profileId task 0 login']
  have inner: "fst (post_attempts e login profileId task 0 s) =
       fst (post_attempts e login' profileId task 0 t)"
    "erase (snd (post_attempts e login profileId task 0 s)) =
       erase (snd (post_attempts e login' profileId task 0 t))"
    by simp_all
  from inner(2) have "erase (sleep 15000 (snd (post_attempts e login profileId task 0 s))) =
      erase (sleep 15000 (snd (post_attempts e login' profileId task 0 t)))"
    by simp
  from Cons.IH [OF this] inner eq Cons.prems show ?case
    by (cases "fst (post_attempts e login' profileId task 0 t)") (simp_all add: split_def)
qed

lemma comment_tasks_unnamed_erase:
  "erase s = erase t \<Longrightarrow>
     fst (comment_tasks_unnamed e login profileId ts s) =
       fst (comment_tasks_unnamed e login' profileId ts t)
     \<and> erase (snd (comment_tasks_unnamed e login profileId ts s)) =
       erase (snd (comment_tasks_unnamed e login' profileId ts t))"
proof (induction ts arbitrary: s t)
  case Nil
  then show ?case by simp
next
  case (Cons task rest)
  from Cons.prems have eq: "trace s = trace t" "ticks s = ticks t"
    "successfulComments s = successfulComments t"
    using erase_eq_fields by blast+
  have skip: "erase (sleep 15000 (emit a s)) = erase (sleep 15000 (emit a t))" for a
    using Cons.prems by simp
  have ok: "erase (sleep 15000 ((emit b (emit a s))\<lparr>successfulComments := k\<rparr>)) =
      erase (sleep 15000 ((emit b (emit a t))\<lparr>successfulComments := k\<rparr>))" for a b k
    using Cons.prems by simp
  note IH1 = Cons.IH [OF skip]
  note IH2 = Cons.IH [OF ok]
  show ?case
    using Cons.prems eq IH1 IH2
    by (simp add: completeTask_def split: option.splits)
qed


lemma resolve_profiles_erase_comm:
  "resolve_profiles e steamID (erase s) =
     (fst (resolve_profiles e steamID s), erase (snd (resolve_profiles e steamID s)))"
  by (simp add: resolve_profiles_def split_def split: sum.splits option.splits)

lemma list_profiles_unnamed_erase_comm:
  "list_profiles_unnamed e tables (erase s) =
     (fst (list_profiles_unnamed e tables s), erase (snd (list_profiles_unnamed e tables s)))"
  by (simp add: list_profiles_unnamed_def split_def split: sum.splits option.splits)

lemma resolve_profiles_unnamed_erase_comm:
  "resolve_profiles_unnamed e steamID (erase s) =
     (fst (resolve_profiles_unnamed e steamID s), erase (snd (resolve_profiles_unnamed e steamID s)))"
  by (simp add: resolve_profiles_unnamed_def split_def list_profiles_unnamed_erase_comm
        erase_steps(1) [symmetric] del: erase_steps(1) split: sum.splits option.splits)

lemma resolve_profiles_erase:
  assumes "erase s = erase t"
  shows "fst (resolve_profiles e steamID s) = fst (resolve_profiles e steamID t)
     \<and> erase (snd (resolve_profiles e steamID s)) = erase (snd (resolve_profiles e steamID t))"
  using resolve_profiles_erase_comm [of e steamID s] resolve_profiles_erase_comm [of e steamID t] assms
  by simp

lemma resolve_profiles_unnamed_erase:
  assumes "erase s = erase t"
  shows "fst (resolve_profiles_unnamed e steamID s) = fst (resolve_profiles_unnamed e steamID t)
     \<and> erase (snd (resolve_profiles_unnamed e steamID s)) =
        erase (snd (resolve_profiles_unnamed e steamID t))"
  using resolve_profiles_unnamed_erase_comm [of e steamID s]
    resolve_profiles_unnamed_erase_comm [of e steamID t] assms
  by simp

lemma dispatch_erase:
  assumes "erase s = erase t"
  shows "fst (dispatch e steamID login s) = fst (dispatch e steamID login' t)
     \<and> erase (snd (dispatch e steamID login s)) = erase (snd (dispatch e steamID login' t))"
proof -
  from resolve_profiles_erase [OF assms, of e steamID]
  have r: "fst (resolve_profiles e steamID s) = fst (resolve_profiles e steamID t)"
    "erase (snd (resolve_profiles e steamID s)) = erase (snd (resolve_profiles e steamID t))"
    by simp_all
  show ?thesis
  proof (cases "fst (resolve_profiles e steamID t)")
    case (Inl err)
    with r show ?thesis by (simp add: dispatch_def split_def)
  next
    case (Inr obj)
    let ?pid = "getp obj steamID"
    let ?s3 = "emit (GetTasks ?pid) (snd (resolve_profiles e steamID s))"
    let ?t3 = "emit (GetTasks ?pid) (snd (resolve_profiles e steamID t))"
    from r(2) have e3: "erase ?s3 = erase ?t3" by simp
    show ?thesis
    proof (cases "getTasks_response e ?pid")
      case failed: (Inl err)
      with r Inr e3 show ?thesis by (simp add: dispatch_def split_def)
    next
      case tasks: (Inr tasks)
      show ?thesis
      proof (cases "iterate tasks")
        case not_iterable: (Inl err)
        with r Inr e3 tasks show ?thesis by (simp add: dispatch_def split_def)
      next
        case ts: (Inr ts)
        from comment_tasks_erase [OF e3, of e login ?pid ts login']
        have loop: "fst (comment_tasks e login ?pid ts ?s3) = fst (comment_tasks e login' ?pid ts ?t3)"
          "erase (snd (comment_tasks e login ?pid ts ?s3)) =
           erase (snd (comment_tasks e login' ?pid ts ?t3))"
          by simp_all
        from loop(2) have tk: "ticks (snd (comment_tasks e login ?pid ts ?s3)) =
           ticks (snd (comment_tasks e login' ?pid ts ?t3))"
          using erase_eq_fields by blast
        from r Inr tasks ts loop tk show ?thesis
          by (cases "fst (comment_tasks e login' ?pid ts ?t3)")
             (simp_all add: dispatch_def finish_def split_def)
      qed
    qed
  qed
qed

lemma dispatch_unnamed_erase:
  assumes "erase s = erase t"
  shows "fst (dispatch_unnamed e steamID login s) = fst (dispatch_unnamed e steamID login' t)
     \<and> erase (snd (dispatch_unnamed e steamID login s)) =
       erase (snd (dispatch_unnamed e steamID login' t))"
proof -
  from resolve_profiles_unnamed_erase [OF assms, of e steamID]
  have r: "fst (resolve_profiles_unnamed e steamID s) = fst (resolve_profiles_unnamed e steamID t)"
    "erase (snd (resolve_profiles_unnamed e steamID s)) =
     erase (snd (resolve_profiles_unnamed e steamID t))"
    by simp_all
  show ?thesis
  proof (cases "fst (resolve_profiles_unnamed e steamID t)")
    case (Inl err)
    with r show ?thesis by (simp add: dispatch_unnamed_def split_def)
  next
    case (Inr found)
    show ?thesis
    proof (cases found)
      case None
      with r Inr show ?thesis by (simp add: dispatch_unnamed_def split_def)
    next
      case (Some obj)
      let ?pid = "getp obj steamID"
      let ?s3 = "emit (GetTasks ?pid) (snd (resolve_profiles_unnamed e steamID s))"
      let ?t3 = "emit (GetTasks ?pid) (snd (resolve_profiles_unnamed e steamID t))"
      from r(2) have e3: "erase ?s3 = erase ?t3" by simp
      show ?thesis
      proof (cases "getTasks_response e ?pid")
        case failed: (Inl err)
        with r Inr Some e3 show ?thesis
          by (simp add: dispatch_unnamed_def split_def)
      next
        case tasks: (Inr tasks)
        show ?thesis
        proof (cases "iterate tasks")
          case not_iterable: (Inl err)
          with r Inr Some e3 tasks show ?thesis
            by (simp add: dispatch_unnamed_def split_def)
        next
          case ts: (Inr ts)
          from comment_tasks_unnamed_erase [OF e3, of e login ?pid ts login']
          have loop: "fst (comment_tasks_unnamed e login ?pid ts ?s3) =
              fst (comment_tasks_unnamed e login' ?pid ts ?t3)"
            "erase (snd (comment_tasks_unnamed e login ?pid ts ?s3)) =
             erase (snd (comment_tasks_unnamed e login' ?pid ts ?t3))"
            by simp_all
          from loop(2) have tk: "ticks (snd (comment_tasks_unnamed e login ?pid ts ?s3)) =
             ticks (snd (comment_tasks_unnamed e login' ?pid ts ?t3))"
            using erase_eq_fields by blast
          from r Inr Some tasks ts loop tk show ?thesis
            by (cases "fst (comment_tasks_unnamed e login' ?pid ts ?t3)")
               (simp_all add: dispatch_unnamed_def finish_unnamed_def split_def)
        qed
      qed
    qed
  qed
qed

lemma within_cooldown_erase:
  assumes "getp account' ''lastComment'' = getp account ''lastComment''"
  shows "fst (within_cooldown e account'
            \<lparr>accs = A', disk = F', trace = [], ticks = 0, successfulComments = 0\<rparr>) =
         fst (within_cooldown e account
            \<lparr>accs = A, disk = F, trace = [], ticks = 0, successfulComments = 0\<rparr>)
     \<and> erase (snd (within_cooldown e account'
            \<lparr>accs = A', disk = F', trace = [], ticks = 0, successfulComments = 0\<rparr>)) =
       erase (snd (within_cooldown e account
            \<lparr>accs = A, disk = F, trace = [], ticks = 0, successfulComments = 0\<rparr>))"
  using assms by (simp add: within_cooldown_def read_clock_def not_ready_def erase_def)

lemma autoComment_erase:
  assumes "getp account' ''lastComment'' = getp account ''lastComment''"
  shows "fst (autoComment e steamID account' A' F') = fst (autoComment e steamID account A F)
     \<and> erase (snd (autoComment e steamID account' A' F')) =
       erase (snd (autoComment e steamID account A F))"
proof -
  let ?w' = "within_cooldown e account'
            \<lparr>accs = A', disk = F', trace = [], ticks = 0, successfulComments = 0\<rparr>"
  let ?w = "within_cooldown e account
            \<lparr>accs = A, disk = F, trace = [], ticks = 0, successfulComments = 0\<rparr>"
  from within_cooldown_erase [OF assms, of e A' F' A F]
  have w: "fst ?w' = fst ?w" "erase (snd ?w') = erase (snd ?w)" by simp_all
  from w(2) have "erase (persist (getp account' ''login'') [(''commentCounter'', JNum 0)] (snd ?w')) =
      erase (persist (getp account ''login'') [(''commentCounter'', JNum 0)] (snd ?w))"
    by simp
  from dispatch_erase [OF this, of e steamID "getp account' ''login''" "getp account ''login''"] w
  show ?thesis
    by (cases "fst ?w") (simp_all add: autoComment_def split_def)
qed

lemma autoComment_unnamed_erase:
  assumes "getp account' ''lastComment'' = getp account ''lastComment''"
  shows "fst (autoComment_unnamed e steamID account' A' F') = fst (autoComment_unnamed e steamID account A F)
     \<and> erase (snd (autoComment_unnamed e steamID account' A' F')) =
       erase (snd (autoComment_unnamed e steamID account A F))"
proof -
  let ?w' = "within_cooldown e account'
            \<lparr>accs = A', disk = F', trace = [], ticks = 0, successfulComments = 0\<rparr>"
  let ?w = "within_cooldown e account
            \<lparr>accs = A, disk = F, trace = [], ticks = 0, successfulComments = 0\<rparr>"
  from within_cooldown_erase [OF assms, of e A' F' A F]
  have w: "fst ?w' = fst ?w" "erase (snd ?w') = erase (snd ?w)" by simp_all
  from w(2) have "erase (persist (getp account' ''login'') [(''commentCounter'', JNum 0)] (snd ?w')) =
      erase (persist (getp account ''login'') [(''commentCounter'', JNum 0)] (snd ?w))"
    by simp
  from dispatch_unnamed_erase [OF this, of e steamID "getp account' ''login''" "getp account ''login''"] w
  show ?thesis
    by (cases "fst ?w") (simp_all add: autoComment_unnamed_def split_def)
qed

lemma counter_zero_steps [simp]:
  "counter_zero login (emit a s) = counter_zero login s"
  "counter_zero login (sleep n s) = counter_zero login s"
  "counter_zero login (s\<lparr>successfulComments := k\<rparr>) = counter_zero login s"
  "counter_zero login (s\<lparr>trace := tr\<rparr>) = counter_zero login s"
  by (simp_all add: counter_zero_def)

lemma counter_zero_stamp_rate_limit:
  assumes "strict_eq login login"
  shows "counter_zero login (stamp_rate_limit e login s)"
  using stamped_stamp_rate_limit [OF assms, of e s]
  by (auto simp: stamped_def counter_zero_def)

lemma counter_zero_stamp_lastComment:
  assumes "strict_eq login login" and "counter_zero login s"
  shows "counter_zero login (stamp_lastComment e login s)"
proof -
  let ?upd = "[(''lastComment'', JStr (date_toISOString e (date_now e (ticks s))))]"
  from assms(2) obtain r where r: "getAccount (accs s) login = Some r"
    "getp r ''commentCounter'' = JNum 0"
    by (auto simp: counter_zero_def)
  have found: "getAccount (fst (updateAccount (accs s) login ?upd)) login =
      Some (Object_assign (case getAccount (accs s) login of
                             None \<Rightarrow> [(''login'', login)] | Some r \<Rightarrow> r) ?upd)"
    using assms(1) by (intro updateAccount_found) simp_all
  have "getp (Object_assign r ?upd) ''commentCounter'' = getp r ''commentCounter''"
    by (rule getp_assign_other) simp
  with found r show ?thesis
    by (simp add: counter_zero_def stamp_lastComment_def read_clock_def)
qed

lemma counter_zero_pre_loop:
  assumes "strict_eq (getp account ''login'') (getp account ''login'')"
    and "pre_loop account accounts profileId s"
  shows "counter_zero (getp account ''login'') s"
proof -
  let ?login = "getp account ''login''"
  let ?upd = "[(''commentCounter'', JNum 0)]"
  have found: "getAccount (fst (updateAccount accounts ?login ?upd)) ?login =
      Some (Object_assign (case getAccount accounts ?login of
                             None \<Rightarrow> [(''login'', ?login)] | Some r \<Rightarrow> r) ?upd)"
    using assms(1) by (intro updateAccount_found) simp_all
  have "getp (Object_assign (case getAccount accounts ?login of
                               None \<Rightarrow> [(''login'', ?login)] | Some r \<Rightarrow> r) ?upd)
          ''commentCounter'' = JNum 0"
    by (rule getp_assign_named) simp_all
  with found assms(2) show ?thesis
    by (simp add: counter_zero_def pre_loop_def)
qed

lemma counter_zero_persisted:
  "counter_zero login s \<Longrightarrow> persisted s login ''commentCounter'' = Some (JNum 0)"
  by (auto simp: counter_zero_def persisted_def getAccount_saveAccounts)

lemma autoComment_counter_zero:
  assumes "strict_eq (getp account ''login'') (getp account ''login'')"
    and "fst (autoComment e steamID account accounts file) \<noteq> NotReady"
  shows "counter_zero (getp account ''login'') (snd (autoComment e steamID account accounts file))"
proof -
  let ?login = "getp account ''login''"
  from autoComment_cases [of e steamID account accounts "file"] assms(2)
  consider err profileId s where "autoComment e steamID account accounts file = (Caught err, s)"
        "pre_loop account accounts profileId s"
    | profileId ts s3 where "pre_loop account accounts profileId s3"
        "autoComment e steamID account accounts file =
           finish e ?login (comment_tasks e ?login profileId ts s3)"
    by auto
  then show ?thesis
  proof cases
    case 1
    with counter_zero_pre_loop [OF assms(1) 1(2)] show ?thesis by simp
  next
    case 2
    have "counter_zero ?login (snd (comment_tasks e ?login profileId ts s3))"
      by (rule comment_tasks_rule
            [where Q = "counter_zero ?login" and R = "\<lambda>sig. counter_zero ?login"])
         (use assms(1) counter_zero_pre_loop [OF assms(1) 2(1)] in
            \<open>simp_all add: counter_zero_stamp_rate_limit\<close>)
    with 2(2) assms(1) show ?thesis
      by (cases "fst (comment_tasks e ?login profileId ts s3)")
         (auto simp: finish_def split_def counter_zero_stamp_lastComment)
  qed
qed

lemma autoComment_unnamed_counter_zero:
  assumes "strict_eq (getp account ''login'') (getp account ''login'')"
    and "fst (autoComment_unnamed e steamID account accounts file) \<noteq> NotReady"
  shows "counter_zero (getp account ''login'')
           (snd (autoComment_unnamed e steamID account accounts file))"
proof -
  let ?login = "getp account ''login''"
  from autoComment_unnamed_cases [of e steamID account accounts "file"] assms(2)
  consider x profileId s where "autoComment_unnamed e steamID account accounts file = (x, s)"
        "pre_loop account accounts profileId s"
    | profileId ts s3 where "pre_loop account accounts profileId s3"
        "autoComment_unnamed e steamID account accounts file =
           finish_unnamed e ?login (comment_tasks_unnamed e ?login profileId ts s3)"
    by auto
  then show ?thesis
  proof cases
    case 1
    with counter_zero_pre_loop [OF assms(1) 1(2)] show ?thesis by simp
  next
    case 2
    have "counter_zero ?login (snd (comment_tasks_unnamed e ?login profileId ts s3))"
      by (rule comment_tasks_unnamed_rule
            [where Q = "counter_zero ?login" and R = "\<lambda>sig. counter_zero ?login"])
         (use assms(1) counter_zero_pre_loop [OF assms(1) 2(1)] in
            \<open>simp_all add: counter_zero_stamp_rate_limit\<close>)
    with 2(2) assms(1) show ?thesis
      by (cases "fst (comment_tasks_unnamed e ?login profileId ts s3)")
         (auto simp: finish_unnamed_def split_def counter_zero_stamp_lastComment)
  qed
qed

text \<open>
  C10. Take any account, and the same account with any other value as its
  \<^verbatim>\<open>commentCounter\<close>; take any two stores and any two files. In the same world the two runs of
  the dispatcher (either version) end the same way, make the same calls in the same order
  with the same answers, and count the same number of successes: the stored counter is not
  read. And a run that gets past the cool-down test leaves the counter of the account's
  record at 0 in \<^verbatim>\<open>accounts.json\<close> (for an account whose login is a string).
\<close>

theorem counter_not_read:
  "fst (autoComment e steamID (Object_assign account [(''commentCounter'', v)]) accounts' file') =
     fst (autoComment e steamID account accounts file)
   \<and> trace (snd (autoComment e steamID (Object_assign account [(''commentCounter'', v)])
                   accounts' file')) =
     trace (snd (autoComment e steamID account accounts file))
   \<and> successfulComments (snd (autoComment e steamID (Object_assign account [(''commentCounter'', v)])
                                accounts' file')) =
     successfulComments (snd (autoComment e steamID account accounts file))
   \<and> fst (autoComment_unnamed e steamID (Object_assign account [(''commentCounter'', v)])
            accounts' file') =
     fst (autoComment_unnamed e steamID account accounts file)
   \<and> trace (snd (autoComment_unnamed e steamID (Object_assign account [(''commentCounter'', v)])
                   accounts' file')) =
     trace (snd (autoComment_unnamed e steamID account accounts file))
   \<and> successfulComments (snd (autoComment_unnamed e steamID
                                (Object_assign account [(''commentCounter'', v)]) accounts' file')) =
     successfulComments (snd (autoComment_unnamed e steamID account accounts file))
   \<and> (getp account ''login'' = JStr l
      \<and> fst (autoComment e steamID account accounts file) \<noteq> NotReady \<longrightarrow>
        persisted (snd (autoComment e steamID account accounts file)) (JStr l) ''commentCounter''
          = Some (JNum 0))
   \<and> (getp account ''login'' = JStr l
      \<and> fst (autoComment_unnamed e steamID account accounts file) \<noteq> NotReady \<longrightarrow>
        persisted (snd (autoComment_unnamed e steamID account accounts file)) (JStr l)
          ''commentCounter'' = Some (JNum 0))"
proof -
  let ?account' = "Object_assign account [(''commentCounter'', v)]"
  have same: "getp ?account' ''lastComment'' = getp account ''lastComment''"
    by (rule getp_assign_other) simp
  from autoComment_erase [OF same, of e steamID accounts' file' accounts "file"]
  have a: "fst (autoComment e steamID ?account' accounts' file') =
      fst (autoComment e steamID account accounts file)"
    "erase (snd (autoComment e steamID ?account' accounts' file')) =
      erase (snd (autoComment e steamID account accounts file))"
    by simp_all
  from autoComment_unnamed_erase [OF same, of e steamID accounts' file' accounts "file"]
  have b: "fst (autoComment_unnamed e steamID ?account' accounts' file') =
      fst (autoComment_unnamed e steamID account accounts file)"
    "erase (snd (autoComment_unnamed e steamID ?account' accounts' file')) =
      erase (snd (autoComment_unnamed e steamID account accounts file))"
    by simp_all
  have c: "persisted (snd (autoComment e steamID account accounts file)) (JStr l) ''commentCounter''
          = Some (JNum 0)"
    if "getp account ''login'' = JStr l" "fst (autoComment e steamID account accounts file) \<noteq> NotReady"
    using autoComment_counter_zero [of account e steamID accounts "file"] that
    by (simp add: counter_zero_persisted)
  have d: "persisted (snd (autoComment_unnamed e steamID account accounts file)) (JStr l)
          ''commentCounter'' = Some (JNum 0)"
    if "getp account ''login'' = JStr l"
      "fst (autoComment_unnamed e steamID account accounts file) \<noteq> NotReady"
    using autoComment_unnamed_counter_zero [of account e steamID accounts "file"] that
    by (simp add: counter_zero_persisted)
  from a(1) erase_eq_fields [OF a(2)] b(1) erase_eq_fields [OF b(2)] c d
  show ?thesis by blast
qed

text \<open>Alice's stored counter is 3 before her run and 0 after it.\<close>

theorem counter_not_read_witness:
  "getp alice ''commentCounter'' = JNum 3
   \<and> persisted (snd (autoComment world1 ''765'' alice [alice] (Some [alice]))) (JStr ''alice'')
        ''commentCounter'' = Some (JNum 0)
   \<and> persisted (snd (autoComment_unnamed world1 ''765'' alice [alice] (Some [alice])))
        (JStr ''alice'') ''commentCounter'' = Some (JNum 0)"
proof -
  have before: "getp alice ''commentCounter'' = JNum 3"
    by (simp add: alice_def getp_def)
  have login: "getp alice ''login'' = JStr ''alice''"
    by (simp add: alice_def getp_def)
  have ran: "fst (autoComment world1 ''765'' alice [alice] (Some [alice])) \<noteq> NotReady"
    "fst (autoComment_unnamed world1 ''765'' alice [alice] (Some [alice])) \<noteq> NotReady"
    by (simp_all add: alice_run)
  from counter_not_read [of world1 "''765''" alice JNull "[]" None "[alice]" "Some [alice]" "''alice''"]
    before login ran
  show ?thesis by blast
qed

end
